(* ===== verification/Prelude.thy ===== *)
theory Prelude
  imports Main "HOL-Library.Sublist" "HOL-Library.Char_ord" "HOL-Library.List_Lexorder"
begin

text \<open>
  What every component theory shares.
  \<^item> C++ control flow: a call ends in a value, in a thrown exception, or gets stuck (undefined
    behaviour such as flowing off the end of a non-void function, a failed \<open>assert\<close>, or
    \<open>std::terminate\<close>); operations that touch the outside world pass it through explicitly.
  \<^item> Generic lemmas on prefixes, separators and association lists.
  A \<open>std::string\<close> is a byte string, here \<^typ>\<open>string\<close> (a list of 8-bit characters).
\<close>

named_theorems io_simps \<open>evaluation rules of the state-and-exception operations\<close>

section \<open>Outcomes and operations on a world\<close>

datatype exn =
    Filesystem_error
  | File_not_found
  | Out_of_range
  | Runtime_error
  | Archive_exception
  | Ptree_error
  | Sql_except
  | Thrown_string string
  | Thrown_int int

datatype 'a outcome = Return 'a | Throw exn | Stuck

type_synonym ('w, 'a) io = "'w \<Rightarrow> 'a outcome \<times> 'w"

definition io_return :: "'a \<Rightarrow> ('w, 'a) io" where
  "io_return a = (\<lambda>w. (Return a, w))"

definition io_throw :: "exn \<Rightarrow> ('w, 'a) io" where
  "io_throw e = (\<lambda>w. (Throw e, w))"

definition io_stuck :: "('w, 'a) io" where
  "io_stuck = (\<lambda>w. (Stuck, w))"

definition io_bind :: "('w, 'a) io \<Rightarrow> ('a \<Rightarrow> ('w, 'b) io) \<Rightarrow> ('w, 'b) io" where
  "io_bind m f = (\<lambda>w. case m w of
       (Return a, w') \<Rightarrow> f a w'
     | (Throw e, w') \<Rightarrow> (Throw e, w')
     | (Stuck, w') \<Rightarrow> (Stuck, w'))"

text \<open>\<open>try m catch h\<close>: the handler is chosen by the exception, \<open>None\<close> lets it pass.\<close>

definition io_catch :: "('w, 'a) io \<Rightarrow> (exn \<Rightarrow> ('w, 'a) io option) \<Rightarrow> ('w, 'a) io" where
  "io_catch m h = (\<lambda>w. case m w of
       (Return a, w') \<Rightarrow> (Return a, w')
     | (Throw e, w') \<Rightarrow> (case h e of None \<Rightarrow> (Throw e, w') | Some k \<Rightarrow> k w')
     | (Stuck, w') \<Rightarrow> (Stuck, w'))"

definition io_of :: "'a outcome \<Rightarrow> ('w, 'a) io" where
  "io_of r = (\<lambda>w. (r, w))"

text \<open>The same for code that does not touch the world.\<close>

definition out_bind :: "'a outcome \<Rightarrow> ('a \<Rightarrow> 'b outcome) \<Rightarrow> 'b outcome" where
  "out_bind m f = (case m of Return a \<Rightarrow> f a | Throw e \<Rightarrow> Throw e | Stuck \<Rightarrow> Stuck)"

lemma out_bind_simps [simp]:
  "out_bind (Return a) f = f a" "out_bind (Throw e) f = Throw e" "out_bind Stuck f = Stuck"
  by (simp_all add: out_bind_def)

lemma out_bind_returnE:
  assumes "out_bind m f = Return b"
  obtains a where "m = Return a" and "f a = Return b"
  using assms by (cases m) auto

lemma io_of_apply [io_simps, simp]: "io_of r w = (r, w)"
  by (simp add: io_of_def)

lemma io_of_return [simp]: "io_of (Return a) = io_return a"
  by (simp add: io_of_def io_return_def)

lemma io_return_apply [io_simps, simp]: "io_return a w = (Return a, w)"
  by (simp add: io_return_def)

lemma io_throw_apply [io_simps, simp]: "io_throw e w = (Throw e, w)"
  by (simp add: io_throw_def)

lemma io_stuck_apply [io_simps, simp]: "io_stuck w = (Stuck, w)"
  by (simp add: io_stuck_def)

lemma io_bind_apply [io_simps]:
  "io_bind m f w = (case m w of
       (Return a, w') \<Rightarrow> f a w'
     | (Throw e, w') \<Rightarrow> (Throw e, w')
     | (Stuck, w') \<Rightarrow> (Stuck, w'))"
  by (simp add: io_bind_def)

lemma io_catch_apply [io_simps]:
  "io_catch m h w = (case m w of
       (Return a, w') \<Rightarrow> (Return a, w')
     | (Throw e, w') \<Rightarrow> (case h e of None \<Rightarrow> (Throw e, w') | Some k \<Rightarrow> k w')
     | (Stuck, w') \<Rightarrow> (Stuck, w'))"
  by (simp add: io_catch_def)

lemma io_bind_returnE:
  assumes "io_bind m f w = (Return b, w2)"
  obtains a w1 where "m w = (Return a, w1)" and "f a w1 = (Return b, w2)"
  using assms by (auto simp: io_bind_def split: prod.splits outcome.splits)

lemma io_bind_return [simp]: "io_bind (io_return a) f = f a"
  by (simp add: io_bind_def fun_eq_iff)

lemma io_bind_throw [simp]: "io_bind (io_throw e) f = io_throw e"
  by (simp add: io_bind_def fun_eq_iff)

lemma io_bind_assoc: "io_bind (io_bind m f) g = io_bind m (\<lambda>a. io_bind (f a) g)"
  by (simp add: io_bind_def fun_eq_iff split: prod.splits outcome.splits)

lemmas io_splits = prod.splits outcome.splits option.splits if_splits

section \<open>Prefixes and separators\<close>

text \<open>Strings below two directories neither of which extends the other never meet.\<close>

definition apart :: "'a list \<Rightarrow> 'a list \<Rightarrow> bool" where
  "apart a b \<longleftrightarrow> \<not> prefix a b \<and> \<not> prefix b a"

lemma apart_sym: "apart a b \<Longrightarrow> apart b a"
  by (simp add: apart_def)

lemma apart_append_neq:
  assumes "apart a b"
  shows "a @ x \<noteq> b @ y"
proof
  assume eq: "a @ x = b @ y"
  have "prefix a (a @ x)" "prefix b (a @ x)"
    by (simp, simp add: eq)
  then have "prefix a b \<or> prefix b a"
    using prefix_same_cases by blast
  with assms show False by (simp add: apart_def)
qed

lemma apart_not_prefix:
  assumes "apart a b"
  shows "\<not> prefix (a @ x) (b @ y)"
proof
  assume "prefix (a @ x) (b @ y)"
  then obtain z where "b @ y = a @ x @ z" by (auto simp: prefix_def)
  with apart_append_neq [OF assms, of "x @ z" y] show False by simp
qed

lemma append_sep_inj:
  assumes "a @ c # x = b @ c # y" and "c \<notin> set a" and "c \<notin> set b"
  shows "a = b \<and> x = y"
  using assms by (induction a arbitrary: b) (case_tac b; auto)+

lemma snoc_sep_iff:
  assumes "c \<notin> set x" and "c \<notin> set y"
  shows "a @ c # x = b @ c # y \<longleftrightarrow> a = b \<and> x = y"
proof
  assume "a @ c # x = b @ c # y"
  then have "rev (a @ c # x) = rev (b @ c # y)" by simp
  then have "rev x @ c # rev a = rev y @ c # rev b" by simp
  with assms have "rev x = rev y \<and> rev a = rev b" by (intro append_sep_inj) auto
  then show "a = b \<and> x = y" by simp
qed simp

lemma takeWhile_append_sep [simp]:
  "c \<notin> set a \<Longrightarrow> takeWhile (\<lambda>d. d \<noteq> c) (a @ c # b) = a"
  by (induction a) auto

section \<open>Association lists\<close>

lemma map_of_filter_neq: "map_of (filter (\<lambda>p. fst p \<noteq> k) xs) k' = (if k' = k then None else map_of xs k')"
  by (induction xs) auto

lemma map_of_filter_fst:
  "map_of (filter (\<lambda>p. P (fst p)) xs) k = (if P k then map_of xs k else None)"
  by (induction xs) auto

lemma map_of_append_last [simp]:
  "map_of (xs @ [(k, v)]) k' = (case map_of xs k' of None \<Rightarrow> if k' = k then Some v else None | Some u \<Rightarrow> Some u)"
  by (induction xs) auto

end
