(* ===== verification/Crypto.thy ===== *)
theory Crypto
  imports Prelude "HOL-Library.Word"
begin

unbundle bit_operations_syntax

text \<open>
  \<open>src/daemon/crypto.cc\<close>. \<open>toHex\<close> is modelled in full. \<open>Hash\<close> and \<open>HashFile\<close> call SHA-512 of
  Crypto++, which is not part of the repository: the digest is a parameter \<open>H :: string \<Rightarrow> string\<close> of
  every definition that hashes, and theorems that depend on it name what they use
  (\<open>sha512_size\<close>, the documented digest size, or that particular inputs do not collide).
\<close>

section \<open>Hexadecimal rendering\<close>

text \<open>\<open>const char hexDigits[] = "0123456789abcdef"\<close>\<close>

definition hexDigits :: string where
  "hexDigits = ''0123456789abcdef''"

definition byte_of :: "char \<Rightarrow> 8 word" where
  "byte_of c = of_nat (of_char c)"

text \<open>
  One loop iteration: \<open>hexDigits[(inp[i]&0xf0) >>4]\<close> then \<open>hexDigits[inp[i]&0x0f]\<close>. The masks make the
  result independent of the signedness of \<open>char\<close>.
\<close>

definition toHex_byte :: "char \<Rightarrow> string" where
  "toHex_byte c = [hexDigits ! unat (drop_bit 4 (byte_of c AND 0xf0)), hexDigits ! unat (byte_of c AND 0x0f)]"

fun toHex :: "string \<Rightarrow> string" where
  "toHex [] = []"
| "toHex (c # cs) = toHex_byte c @ toHex cs"

text \<open>Documented behaviour of SHA-512: the digest has 64 bytes.\<close>

definition sha512_size :: "(string \<Rightarrow> string) \<Rightarrow> bool" where
  "sha512_size H \<longleftrightarrow> (\<forall>x. length (H x) = 64)"

section \<open>Facts\<close>

lemma unat_byte_of [simp]: "unat (byte_of c) = of_char c"
  by (simp add: byte_of_def unat_of_nat)

lemma nibble_low: "unat (byte_of c AND 0x0f) = of_char c mod 16"
proof -
  have "byte_of c AND 0x0f = take_bit 4 (byte_of c)"
    by (simp add: take_bit_eq_mask mask_eq_exp_minus_1)
  then show ?thesis by (simp add: take_bit_eq_mod unat_mod)
qed

lemma nibble_high: "unat (drop_bit 4 (byte_of c AND 0xf0)) = of_char c div 16"
proof -
  have "drop_bit 4 (byte_of c AND 0xf0) = drop_bit 4 (byte_of c) AND mask 4"
    by (simp add: mask_eq_exp_minus_1)
  also have "drop_bit 4 (byte_of c) AND mask 4 = drop_bit 4 (byte_of c)"
    by (rule bit_word_eqI) (auto simp: bit_simps dest: bit_imp_le_length)
  finally show ?thesis by (simp add: drop_bit_eq_div unat_div)
qed

lemma hexDigits_length [simp]: "length hexDigits = 16"
  by (simp add: hexDigits_def)

lemma hexDigits_distinct: "distinct hexDigits"
  by (simp add: hexDigits_def)

lemma nibble_range: "(of_char c :: nat) mod 16 < 16" "(of_char c :: nat) div 16 < 16"
  using nat_of_char_less_256 [of c] by (simp, linarith)

lemma toHex_byte_eq: "toHex_byte c = [hexDigits ! (of_char c div 16), hexDigits ! (of_char c mod 16)]"
  by (simp only: toHex_byte_def nibble_low nibble_high)

text \<open>The same by cases on the bits, for evaluation.\<close>

definition hex_nibble :: "bool \<Rightarrow> bool \<Rightarrow> bool \<Rightarrow> bool \<Rightarrow> char" where
  "hex_nibble b3 b2 b1 b0 =
     (if b3 then if b2 then if b1 then if b0 then CHR ''f'' else CHR ''e'' else if b0 then CHR ''d'' else CHR ''c''
                 else if b1 then if b0 then CHR ''b'' else CHR ''a'' else if b0 then CHR ''9'' else CHR ''8''
      else if b2 then if b1 then if b0 then CHR ''7'' else CHR ''6'' else if b0 then CHR ''5'' else CHR ''4''
           else if b1 then if b0 then CHR ''3'' else CHR ''2'' else if b0 then CHR ''1'' else CHR ''0'')"

lemma hex_nibble_eq: "hex_nibble b3 b2 b1 b0 = hexDigits ! horner_sum of_bool 2 [b0, b1, b2, b3]"
  by (cases b3; cases b2; cases b1; cases b0) (simp_all add: hex_nibble_def hexDigits_def)

lemma toHex_byte_code [code]:
  "toHex_byte (Char b0 b1 b2 b3 b4 b5 b6 b7) = [hex_nibble b7 b6 b5 b4, hex_nibble b3 b2 b1 b0]"
proof -
  let ?lo = "horner_sum of_bool 2 [b0, b1, b2, b3] :: nat" and ?hi = "horner_sum of_bool 2 [b4, b5, b6, b7] :: nat"
  have eq: "of_char (Char b0 b1 b2 b3 b4 b5 b6 b7) = ?lo + 16 * ?hi" by simp
  have "?lo < 16" by (simp add: of_bool_def)
  then have "(?lo + 16 * ?hi) div 16 = ?hi" "(?lo + 16 * ?hi) mod 16 = ?lo"
    by (simp_all only: div_mult_self2 mod_mult_self2 div_less mod_less)
  then show ?thesis by (simp only: toHex_byte_eq hex_nibble_eq eq)
qed

lemma toHex_byte_inj:
  assumes "toHex_byte c = toHex_byte d"
  shows "c = d"
proof -
  from assms have "(of_char c :: nat) div 16 = of_char d div 16"
    and "(of_char c :: nat) mod 16 = of_char d mod 16"
    using nibble_range [of c] nibble_range [of d]
    by (simp_all add: toHex_byte_eq nth_eq_iff_index_eq [OF hexDigits_distinct])
  then have "(of_char c :: nat) = of_char d"
    using div_mult_mod_eq by metis
  then show ?thesis by simp
qed

lemma length_toHex_byte [simp]: "length (toHex_byte c) = 2"
  by (simp add: toHex_byte_def)

lemma length_toHex [simp]: "length (toHex xs) = 2 * length xs"
  by (induction xs) auto

lemma toHex_inj: "toHex xs = toHex ys \<longleftrightarrow> xs = ys"
proof (induction xs arbitrary: ys)
  case Nil
  show ?case by (cases ys) (auto simp: toHex_byte_def)
next
  case (Cons x xs)
  show ?case
  proof (cases ys)
    case (Cons y ys')
    then show ?thesis using Cons.IH toHex_byte_inj by auto
  qed (auto simp: toHex_byte_def)
qed

lemma set_toHex: "set (toHex xs) \<subseteq> set hexDigits"
  by (induction xs) (auto simp: toHex_byte_eq nibble_range intro!: nth_mem)

lemma slash_not_hex [simp]: "CHR ''/'' \<notin> set (toHex xs)" "CHR 0x00 \<notin> set (toHex xs)"
  using set_toHex [of xs] by (auto simp: hexDigits_def)

lemma length_hash [simp]: "sha512_size H \<Longrightarrow> length (H x) = 64"
  by (simp add: sha512_size_def)

text \<open>A 64-byte function for concrete examples: the argument padded with zero bytes, or cut.\<close>

definition pad64 :: "string \<Rightarrow> string" where
  "pad64 x = take 64 x @ replicate (64 - length x) (CHR 0x00)"

lemma pad64_size: "sha512_size pad64"
  by (auto simp: sha512_size_def pad64_def min_def)

section \<open>Properties\<close>

text \<open>
  Rendering a byte string in hexadecimal doubles its length, uses only the sixteen lower-case
  hexadecimal digits, and loses nothing: different byte strings have different renderings.
\<close>

lemma toHex_faithful:
  "length (toHex xs) = 2 * length xs \<and> set (toHex xs) \<subseteq> set hexDigits
   \<and> (toHex xs = toHex ys) = (xs = ys)"
  by (simp add: set_toHex toHex_inj)

end
