(* ===== verification/Base64.thy ===== *)
theory Base64
  imports Crypto Prelude
begin

text \<open>
  The base64 codec the RPC layer uses, \<open>third-party/libb64\<close>: \<open>src/cencode.c\<close>, \<open>src/cdecode.c\<close> and the
  stream wrappers \<open>include/b64/encode.h\<close> and \<open>decode.h\<close>. Both directions are automata that keep their
  state between calls, so a text can be fed in pieces; the wrappers read pieces of \<open>_buffersize\<close> bytes.

  A \<open>char\<close> is signed, arithmetic on it is on \<^typ>\<open>8 word\<close>. Where the C code jumps into the middle of
  its loop at the saved step, the model has one transition per character. The wrappers own the buffers the
  code is written to, \<open>2 * N\<close> bytes for the encoder and \<open>N\<close> bytes for the decoder. \<open>None\<close> is an access outside
  an array: the decoding table or one of these buffers.
\<close>

unbundle bit_operations_syntax

definition char_of_byte :: "8 word \<Rightarrow> char" where
  "char_of_byte b = char_of (unat b)"

section \<open>Encoding\<close>

datatype base64_encodestep = step_A | step_B | step_C

record base64_encodestate =
  es_step :: base64_encodestep
  es_result :: "8 word"
  es_stepcount :: nat

definition base64_init_encodestate :: base64_encodestate where
  "base64_init_encodestate = \<lparr>es_step = step_A, es_result = 0, es_stepcount = 0\<rparr>"

definition encoding :: string where
  "encoding = ''ABCDEFGHIJKLMNOPQRSTUVWXYZabcdefghijklmnopqrstuvwxyz0123456789+/''"

definition base64_encode_value :: "8 word \<Rightarrow> char" where
  "base64_encode_value v = (if sint v > 63 then CHR ''='' else encoding ! unat v)"

definition CHARS_PER_LINE :: nat where
  "CHARS_PER_LINE = 72"

text \<open>One character in, from the step the state is in.\<close>

definition encode_char :: "base64_encodestate \<Rightarrow> char \<Rightarrow> string \<times> base64_encodestate" where
  "encode_char st c =
     (let fragment = byte_of c in
      case es_step st of
        step_A \<Rightarrow>
          ([base64_encode_value (drop_bit 2 (fragment AND 0xfc))],
           st\<lparr>es_step := step_B, es_result := push_bit 4 (fragment AND 0x03)\<rparr>)
      | step_B \<Rightarrow>
          ([base64_encode_value (es_result st OR drop_bit 4 (fragment AND 0xf0))],
           st\<lparr>es_step := step_C, es_result := push_bit 2 (fragment AND 0x0f)\<rparr>)
      | step_C \<Rightarrow>
          (let out = [base64_encode_value (es_result st OR drop_bit 6 (fragment AND 0xc0)),
                      base64_encode_value (fragment AND 0x3f)];
               n = es_stepcount st + 1;
               st' = st\<lparr>es_step := step_A, es_result := fragment AND 0x3f\<rparr> in
           if n = CHARS_PER_LINE div 4 then (out @ [CHR 0x0A], st'\<lparr>es_stepcount := 0\<rparr>)
           else (out, st'\<lparr>es_stepcount := n\<rparr>)))"

fun base64_encode_block :: "string \<Rightarrow> base64_encodestate \<Rightarrow> string \<times> base64_encodestate" where
  "base64_encode_block [] st = ([], st)"
| "base64_encode_block (c # cs) st =
     (let (out, st') = encode_char st c; (rest, st'') = base64_encode_block cs st' in (out @ rest, st''))"

definition base64_encode_blockend :: "base64_encodestate \<Rightarrow> string" where
  "base64_encode_blockend st =
     (case es_step st of
        step_B \<Rightarrow> [base64_encode_value (es_result st), CHR ''='', CHR ''='']
      | step_C \<Rightarrow> [base64_encode_value (es_result st), CHR ''='']
      | step_A \<Rightarrow> []) @ [CHR 0x0A]"

text \<open>
  The stream loop of \<open>encoder::encode\<close>: a short read makes the stream not \<open>good()\<close>, so a full piece
  is followed by another read. The code of a piece and the ending are written from the start of the buffer
  \<open>code\<close>, \<open>new char[2*N]\<close>, one character after the other: they must fit in it.
\<close>

definition encode_piece :: "nat \<Rightarrow> string \<Rightarrow> base64_encodestate \<Rightarrow> (string \<times> base64_encodestate) option" where
  "encode_piece N piece st =
     (let (code, st') = base64_encode_block piece st in if length code \<le> 2 * N then Some (code, st') else None)"

function encode_stream_loop :: "nat \<Rightarrow> string \<Rightarrow> base64_encodestate \<Rightarrow> (string \<times> base64_encodestate) option" where
  "encode_stream_loop N inp st =
     (case encode_piece N (take N inp) st of
        None \<Rightarrow> None
      | Some (code, st') \<Rightarrow>
          if N \<le> length inp \<and> 0 < N
          then (case encode_stream_loop N (drop N inp) st' of None \<Rightarrow> None | Some (rest, st'') \<Rightarrow> Some (code @ rest, st''))
          else Some (code, st'))"
  by auto
termination
  by (relation "measure (\<lambda>(N, inp, st). length inp)") auto

declare encode_stream_loop.simps [simp del]

definition encode_stream :: "nat \<Rightarrow> string \<Rightarrow> string option" where
  "encode_stream N inp =
     (case encode_stream_loop N inp base64_init_encodestate of
        None \<Rightarrow> None
      | Some (code, st) \<Rightarrow>
          let ending = base64_encode_blockend st in
          if length ending \<le> 2 * N then Some (code @ ending) else None)"

section \<open>Decoding\<close>

datatype base64_decodestep = step_a | step_b | step_c | step_d

record base64_decodestate =
  ds_step :: base64_decodestep
  ds_plainchar :: "8 word"

definition base64_init_decodestate :: base64_decodestate where
  "base64_init_decodestate = \<lparr>ds_step = step_a, ds_plainchar = 0\<rparr>"

definition decoding :: "int list" where
  "decoding = [62,-1,-1,-1,63,52,53,54,55,56,57,58,59,60,61,-1,-1,-1,-2,-1,-1,-1,0,1,2,3,4,5,6,7,8,9,10,11,12,13,
     14,15,16,17,18,19,20,21,22,23,24,25,-1,-1,-1,-1,-1,-1,26,27,28,29,30,31,32,33,34,35,36,37,38,39,40,41,42,43,
     44,45,46,47,48,49,50,51]"

text \<open>
  \<open>value_in > decoding_size\<close> should be \<open>>=\<close>: the index equal to the size passes the test and is one
  past the end.
\<close>

definition base64_decode_value :: "char \<Rightarrow> int option" where
  "base64_decode_value c =
     (let v = sint (byte_of c - 43) in
      if v < 0 \<or> v > int (length decoding) then Some (- 1)
      else if nat v < length decoding then Some (decoding ! nat v) else None)"

text \<open>One code character in; a negative fragment (padding, line ends, foreign characters) is skipped.\<close>

definition decode_char :: "base64_decodestate \<Rightarrow> char \<Rightarrow> (string \<times> base64_decodestate) option" where
  "decode_char st c =
     (case base64_decode_value c of
        None \<Rightarrow> None
      | Some v \<Rightarrow>
          if v < 0 then Some ([], st)
          else let fragment = word_of_int v; p = ds_plainchar st in
            case ds_step st of
              step_a \<Rightarrow> Some ([], \<lparr>ds_step = step_b, ds_plainchar = push_bit 2 (fragment AND 0x3f)\<rparr>)
            | step_b \<Rightarrow> Some ([char_of_byte (p OR drop_bit 4 (fragment AND 0x30))],
                \<lparr>ds_step = step_c, ds_plainchar = push_bit 4 (fragment AND 0x0f)\<rparr>)
            | step_c \<Rightarrow> Some ([char_of_byte (p OR drop_bit 2 (fragment AND 0x3c))],
                \<lparr>ds_step = step_d, ds_plainchar = push_bit 6 (fragment AND 0x03)\<rparr>)
            | step_d \<Rightarrow> Some ([char_of_byte (p OR (fragment AND 0x3f))], st\<lparr>ds_step := step_a\<rparr>))"

fun base64_decode_block :: "string \<Rightarrow> base64_decodestate \<Rightarrow> (string \<times> base64_decodestate) option" where
  "base64_decode_block [] st = Some ([], st)"
| "base64_decode_block (c # cs) st =
     (case decode_char st c of
        None \<Rightarrow> None
      | Some (out, st') \<Rightarrow>
          (case base64_decode_block cs st' of None \<Rightarrow> None | Some (rest, st'') \<Rightarrow> Some (out @ rest, st'')))"

text \<open>
  The wrapper decodes into \<open>plaintext\<close>, \<open>new char[N]\<close>. The block routine keeps the character in the making in
  the cell behind those it has completed, from its first statement to its last, which reads that cell: of the
  buffer it uses the completed characters and one more.
\<close>

definition decode_piece :: "nat \<Rightarrow> string \<Rightarrow> base64_decodestate \<Rightarrow> (string \<times> base64_decodestate) option" where
  "decode_piece N piece st =
     (case base64_decode_block piece st of
        None \<Rightarrow> None
      | Some (plain, st') \<Rightarrow> if length plain < N then Some (plain, st') else None)"

function decode_stream_loop :: "nat \<Rightarrow> string \<Rightarrow> base64_decodestate \<Rightarrow> string option" where
  "decode_stream_loop N inp st =
     (case decode_piece N (take N inp) st of
        None \<Rightarrow> None
      | Some (plain, st') \<Rightarrow>
          if N \<le> length inp \<and> 0 < N
          then (case decode_stream_loop N (drop N inp) st' of None \<Rightarrow> None | Some rest \<Rightarrow> Some (plain @ rest))
          else Some plain)"
  by auto
termination
  by (relation "measure (\<lambda>(N, inp, st). length inp)") auto

declare decode_stream_loop.simps [simp del]

definition decode_stream :: "nat \<Rightarrow> string \<Rightarrow> string option" where
  "decode_stream N inp = decode_stream_loop N inp base64_init_decodestate"

section \<open>Pieces do not matter\<close>

lemma encode_block_append:
  "base64_encode_block (xs @ ys) st =
     (let (o1, s1) = base64_encode_block xs st; (o2, s2) = base64_encode_block ys s1 in (o1 @ o2, s2))"
  by (induction xs arbitrary: st) (auto simp: Let_def split: prod.splits)

lemma decode_block_append:
  "base64_decode_block (xs @ ys) st =
     (case base64_decode_block xs st of None \<Rightarrow> None | Some (o1, s1) \<Rightarrow>
        (case base64_decode_block ys s1 of None \<Rightarrow> None | Some (o2, s2) \<Rightarrow> Some (o1 @ o2, s2)))"
  by (induction xs arbitrary: st) (auto split: prod.splits option.splits)

text \<open>The size of the code of a piece, by the step it starts in.\<close>

definition phase :: "base64_encodestate \<Rightarrow> nat" where
  "phase st = (case es_step st of step_A \<Rightarrow> 0 | step_B \<Rightarrow> 1 | step_C \<Rightarrow> 2)"

lemma encode_char_size:
  assumes "encode_char st c = (out, st')"
  shows "length out + 2 * ((n + phase st') div 3) \<le> 1 + 2 * ((Suc n + phase st) div 3)"
proof -
  have "(3 + n) div 3 = Suc (n div 3)" by simp
  with assms show ?thesis
    by (cases "es_step st") (auto simp: encode_char_def phase_def Let_def split: if_splits)
qed

lemma encode_block_size:
  "base64_encode_block cs st = (out, st') \<Longrightarrow> length out \<le> length cs + 2 * ((length cs + phase st) div 3)"
proof (induction cs arbitrary: st out)
  case (Cons c cs)
  from Cons.prems obtain o1 st1 o2 where o1: "encode_char st c = (o1, st1)"
    and o2: "base64_encode_block cs st1 = (o2, st')" and out: "out = o1 @ o2"
    by (auto simp: Let_def split: prod.splits)
  from Cons.IH [OF o2] encode_char_size [OF o1, of "length cs"] show ?case by (simp add: out)
qed simp

text \<open>
  Which pieces fit the buffers: the code of a piece of at least two bytes, and the text of at least four code
  characters (three out of four characters complete one, and a piece need not start with the fourth).
\<close>

lemma base64_encode_buffer_suffices:
  assumes "2 \<le> N" and "length cs \<le> N"
  shows "length (fst (base64_encode_block cs st)) \<le> 2 * N \<and> length (base64_encode_blockend st) \<le> 2 * N"
proof -
  obtain out st' where enc: "base64_encode_block cs st = (out, st')" by fastforce
  have "length out \<le> length cs + 2 * ((length cs + phase st) div 3)" by (rule encode_block_size [OF enc])
  moreover have "phase st \<le> 2" by (simp add: phase_def split: base64_encodestep.splits)
  ultimately have "length out \<le> 2 * N" using assms by (cases "length cs < 4") auto
  moreover have "length (base64_encode_blockend st) \<le> 4"
    by (simp add: base64_encode_blockend_def split: base64_encodestep.splits)
  ultimately show ?thesis using assms enc by simp
qed

lemma encode_piece_block: "2 \<le> N \<Longrightarrow> length cs \<le> N \<Longrightarrow> encode_piece N cs st = Some (base64_encode_block cs st)"
  using base64_encode_buffer_suffices [of N cs st] by (auto simp: encode_piece_def split: prod.splits)

text \<open>How many characters are completed before the next one that completes none.\<close>

definition behind :: "base64_decodestate \<Rightarrow> nat" where
  "behind st = (case ds_step st of step_a \<Rightarrow> 0 | step_b \<Rightarrow> 3 | step_c \<Rightarrow> 2 | step_d \<Rightarrow> 1)"

lemma decode_char_size:
  "decode_char st c = Some (out, st') \<Longrightarrow> 4 * length out + behind st' \<le> 3 + behind st \<and> length out \<le> 1"
  by (auto simp: decode_char_def behind_def Let_def split: option.splits if_splits base64_decodestep.splits)

lemma decode_block_size:
  "base64_decode_block cs st = Some (out, st') \<Longrightarrow> 4 * length out \<le> 3 * length cs + behind st"
proof (induction cs arbitrary: st out)
  case (Cons c cs)
  from Cons.prems obtain o1 st1 o2 where o1: "decode_char st c = Some (o1, st1)"
    and o2: "base64_decode_block cs st1 = Some (o2, st')" and out: "out = o1 @ o2"
    by (auto split: option.splits)
  from Cons.IH [OF o2] decode_char_size [OF o1] show ?case by (simp add: out)
qed simp

lemma base64_decode_buffer_suffices:
  assumes "4 \<le> N" and "length cs \<le> N" and "base64_decode_block cs st = Some (out, st')"
  shows "length out < N"
proof -
  have "behind st \<le> 3" by (simp add: behind_def split: base64_decodestep.splits)
  with decode_block_size [OF assms(3)] assms(1,2) show ?thesis by simp
qed

lemma decode_piece_block: "4 \<le> N \<Longrightarrow> length cs \<le> N \<Longrightarrow> decode_piece N cs st = base64_decode_block cs st"
  using base64_decode_buffer_suffices by (auto simp: decode_piece_def split: option.splits)

lemma encode_stream_loop_block: "2 \<le> N \<Longrightarrow> encode_stream_loop N inp st = Some (base64_encode_block inp st)"
proof (induction N inp st rule: encode_stream_loop.induct)
  case (1 N inp st)
  have piece: "encode_piece N (take N inp) st = Some (base64_encode_block (take N inp) st)"
    using 1(2) by (simp add: encode_piece_block)
  obtain o1 s1 where o1: "base64_encode_block (take N inp) st = (o1, s1)" by fastforce
  show ?case
  proof (cases "N \<le> length inp")
    case True
    with 1 piece o1 have "encode_stream_loop N (drop N inp) s1 = Some (base64_encode_block (drop N inp) s1)" by simp
    moreover have "base64_encode_block inp st = base64_encode_block (take N inp @ drop N inp) st" by simp
    ultimately show ?thesis
      using True 1(2) piece o1 unfolding encode_block_append
      by (subst encode_stream_loop.simps) (simp split: prod.splits)
  next
    case False
    with piece show ?thesis by (subst encode_stream_loop.simps) (simp split: prod.splits)
  qed
qed

lemma decode_stream_loop_block:
  "4 \<le> N \<Longrightarrow> decode_stream_loop N inp st = map_option fst (base64_decode_block inp st)"
proof (induction N inp st rule: decode_stream_loop.induct)
  case (1 N inp st)
  have piece: "decode_piece N (take N inp) st = base64_decode_block (take N inp) st"
    using 1(2) by (simp add: decode_piece_block)
  show ?case
  proof (cases "N \<le> length inp")
    case True
    have "base64_decode_block inp st = base64_decode_block (take N inp @ drop N inp) st" by simp
    also have "map_option fst \<dots> = decode_stream_loop N inp st"
      unfolding decode_block_append using 1 True piece
      by (subst decode_stream_loop.simps) (auto split: option.splits)
    finally show ?thesis by simp
  next
    case False
    with piece have "decode_piece N inp st = base64_decode_block inp st" by simp
    with False show ?thesis by (subst decode_stream_loop.simps) (simp split: option.splits)
  qed
qed


section \<open>Masks as bit fields\<close>

lemma low_masks:
  "(x :: 8 word) AND 0x03 = take_bit 2 x" "x AND 0x0f = take_bit 4 x" "x AND 0x3f = take_bit 6 x"
  by (simp_all add: take_bit_eq_mask mask_eq_exp_minus_1)

lemma high_masks:
  "drop_bit 2 ((x :: 8 word) AND 0xfc) = drop_bit 2 x" "drop_bit 4 (x AND 0xf0) = drop_bit 4 x"
  "drop_bit 6 (x AND 0xc0) = drop_bit 6 x"
proof -
  have "drop_bit 2 (x AND 0xfc) = drop_bit 2 x AND mask 6" "drop_bit 4 (x AND 0xf0) = drop_bit 4 x AND mask 4"
    "drop_bit 6 (x AND 0xc0) = drop_bit 6 x AND mask 2"
    by (simp_all add: mask_eq_exp_minus_1)
  moreover have "drop_bit n x AND mask (8 - n) = drop_bit n x" if "n < 8" for n
    using that by (intro bit_word_eqI) (auto simp: bit_simps dest: bit_imp_le_length)
  from this [of 2] this [of 4] this [of 6]
  have "drop_bit 2 x AND mask 6 = drop_bit 2 x" "drop_bit 4 x AND mask 4 = drop_bit 4 x"
    "drop_bit 6 x AND mask 2 = drop_bit 6 x" by simp_all
  ultimately show "drop_bit 2 (x AND 0xfc) = drop_bit 2 x" "drop_bit 4 (x AND 0xf0) = drop_bit 4 x"
    "drop_bit 6 (x AND 0xc0) = drop_bit 6 x" by simp_all
qed

lemma middle_masks:
  "drop_bit 4 ((x :: 8 word) AND 0x30) = take_bit 2 (drop_bit 4 x)"
  "drop_bit 2 (x AND 0x3c) = take_bit 4 (drop_bit 2 x)"
  by (simp_all add: take_bit_eq_mask mask_eq_exp_minus_1)

lemmas masks = low_masks high_masks middle_masks

lemma sextet_bound: "drop_bit 6 (x :: 8 word) = 0 \<Longrightarrow> unat x < 64"
proof -
  assume "drop_bit 6 x = 0"
  then have "unat x div 64 = 0" by (simp add: drop_bit_eq_div unat_div word_unat_eq_iff)
  then show ?thesis by simp
qed

text \<open>The decoding table inverts the encoding table, and no code character is outside it.\<close>

lemma sint_byte: "sint (word_of_int k :: 8 word) = (k + 128) mod 256 - 128"
  by (simp add: sint_sbintrunc' signed_take_bit_eq_take_bit_shift take_bit_eq_mod)

lemma decode_value_nat:
  "base64_decode_value c =
     (let n = of_char c :: nat in
      if n < 43 \<or> n > 123 then Some (- 1) else if n < 123 then Some (decoding ! (n - 43)) else None)"
proof -
  define n where "n = (of_char c :: nat)"
  have n: "n < 256" unfolding n_def by (rule nat_of_char_less_256)
  have "byte_of c = word_of_int (int n)"
    by (simp add: byte_of_def n_def)
  then have "byte_of c - 43 = word_of_int (int n - 43)"
    by (simp only: of_int_diff of_int_numeral)
  then have v: "sint (byte_of c - 43) = (85 + int n) mod 256 - 128"
    by (simp only: sint_byte) simp
  have len: "length decoding = 80" by (simp add: decoding_def)
  show ?thesis
  proof (cases "n \<le> 170")
    case True
    then have "(85 + int n) mod 256 - 128 = int n - 43" by simp
    then show ?thesis
      unfolding base64_decode_value_def Let_def v len n_def [symmetric] by (auto simp: nat_diff_distrib)
  next
    case False
    with n have "(85 + int n) mod 256 = int n - 171"
      by (subst mod_pos_geq) auto
    with False n show ?thesis
      unfolding base64_decode_value_def Let_def v len n_def [symmetric] by auto
  qed
qed

lemma decode_encoding: "k < 64 \<Longrightarrow> base64_decode_value (encoding ! k) = Some (int k)"
proof -
  have all: "map base64_decode_value encoding = map Some [0..63]"
    by (simp add: encoding_def decode_value_nat decoding_def upto_rec1)
  have len: "length encoding = 64" by (simp add: encoding_def)
  assume "k < 64"
  then have "map base64_decode_value encoding ! k = map Some [0..63] ! k" by (simp only: all)
  with \<open>k < 64\<close> len show ?thesis by simp
qed

lemma decode_encode_value:
  assumes "drop_bit 6 v = 0"
  shows "base64_decode_value (base64_encode_value v) = Some (uint v)" and "word_of_int (uint v) = v"
proof -
  from assms have v: "unat v < 64" by (rule sextet_bound)
  have "sint v = (uint v + 128) mod 256 - 128"
    using sint_byte [of "uint v"] by (simp only: word_of_int_uint)
  moreover have u: "0 \<le> uint v" "uint v < 64" using v uint_nat [of v] by linarith+
  ultimately have "sint v = uint v" by simp
  with u have "base64_encode_value v = encoding ! unat v" by (simp add: base64_encode_value_def)
  with decode_encoding [OF v] show "base64_decode_value (base64_encode_value v) = Some (uint v)"
    by (simp only: uint_nat)
qed simp


section \<open>The round trip\<close>

lemma char_of_byte_of [simp]: "char_of_byte (byte_of c) = c"
  by (simp add: char_of_byte_def)

text \<open>
  The decoder after the code of some text: it has given out all of the text but the last character
  when that is not complete, whose upper bits it holds while the encoder holds the lower ones.
\<close>

definition codec_rel :: "base64_encodestate \<Rightarrow> base64_decodestate \<Rightarrow> string \<Rightarrow> bool" where
  "codec_rel es ds pending \<longleftrightarrow>
     (case es_step es of
        step_A \<Rightarrow> ds_step ds = step_a \<and> pending = []
      | step_B \<Rightarrow> ds_step ds = step_b \<and> (\<exists>c. pending = [c] \<and> es_result es = push_bit 4 (take_bit 2 (byte_of c))
          \<and> ds_plainchar ds = push_bit 2 (drop_bit 2 (byte_of c)))
      | step_C \<Rightarrow> ds_step ds = step_c \<and> (\<exists>c. pending = [c] \<and> es_result es = push_bit 2 (take_bit 4 (byte_of c))
          \<and> ds_plainchar ds = push_bit 4 (drop_bit 4 (byte_of c))))"

lemma decode_sextet:
  assumes "drop_bit 6 v = 0"
  shows "decode_char ds (base64_encode_value v) =
     (case ds_step ds of
              step_a \<Rightarrow> Some ([], \<lparr>ds_step = step_b, ds_plainchar = push_bit 2 v\<rparr>)
            | step_b \<Rightarrow> Some ([char_of_byte (ds_plainchar ds OR take_bit 2 (drop_bit 4 v))],
                \<lparr>ds_step = step_c, ds_plainchar = push_bit 4 (take_bit 4 v)\<rparr>)
            | step_c \<Rightarrow> Some ([char_of_byte (ds_plainchar ds OR take_bit 4 (drop_bit 2 v))],
                \<lparr>ds_step = step_d, ds_plainchar = push_bit 6 (take_bit 2 v)\<rparr>)
            | step_d \<Rightarrow> Some ([char_of_byte (ds_plainchar ds OR v)], ds\<lparr>ds_step := step_a\<rparr>))"
proof -
  have "n < 6" if "bit v n" for n
  proof (rule ccontr)
    assume "\<not> n < 6"
    with that have "bit (drop_bit 6 v) (n - 6)" by (simp add: bit_drop_bit_eq)
    with assms show False by simp
  qed
  then have "take_bit 6 v = v" by (intro bit_word_eqI) (auto simp: bit_simps)
  with decode_encode_value [OF assms] show ?thesis
    by (simp add: decode_char_def masks split: base64_decodestep.splits)
qed

lemma byte_eqI:
  assumes "bit x 0 = bit y 0" "bit x 1 = bit y 1" "bit x 2 = bit y 2" "bit x 3 = bit y 3"
    "bit x 4 = bit y 4" "bit x 5 = bit y 5" "bit x 6 = bit y 6" "bit x 7 = bit y 7"
  shows "(x :: 8 word) = y"
proof (rule bit_word_eqI)
  fix n assume "n < LENGTH(8)"
  then have "n \<in> {0, 1, 2, 3, 4, 5, 6, 7}" by auto
  with assms show "bit x n = bit y n" by auto
qed

lemma sextets:
  "drop_bit 6 (drop_bit 2 (x :: 8 word)) = 0" "drop_bit 6 (push_bit 4 (take_bit 2 x) OR drop_bit 4 (y :: 8 word)) = 0"
  "drop_bit 6 (push_bit 2 (take_bit 4 x) OR drop_bit 6 y) = 0" "drop_bit 6 (take_bit 6 x) = 0"
  "drop_bit 6 (push_bit 4 (take_bit 2 x)) = 0" "drop_bit 6 (push_bit 2 (take_bit 4 x)) = 0"
  by (rule bit_word_eqI; auto simp: bit_simps dest: bit_imp_le_length)+

lemma joined:
  "push_bit 2 (drop_bit 2 (x :: 8 word)) OR take_bit 2 (drop_bit 4 (push_bit 4 (take_bit 2 x) OR drop_bit 4 (y :: 8 word))) = x"
  "push_bit 2 (drop_bit 2 x) OR take_bit 2 (drop_bit 4 (push_bit 4 (take_bit 2 x))) = x"
  "push_bit 4 (drop_bit 4 x) OR take_bit 4 (drop_bit 2 (push_bit 2 (take_bit 4 x) OR drop_bit 6 y)) = x"
  "push_bit 4 (drop_bit 4 x) OR take_bit 4 (drop_bit 2 (push_bit 2 (take_bit 4 x))) = x"
  "push_bit 6 (take_bit 2 (push_bit 2 (take_bit 4 x) OR drop_bit 6 y)) OR take_bit 6 y = y"
  "push_bit 4 (take_bit 4 (push_bit 4 (take_bit 2 x) OR drop_bit 4 y)) = push_bit 4 (drop_bit 4 y)"
  "push_bit 4 (take_bit 4 (push_bit 4 (take_bit 2 x))) OR push_bit 4 (take_bit 4 (drop_bit 4 y)) = push_bit 4 (drop_bit 4 y)"
  "(push_bit 6 (take_bit 2 (push_bit 2 (take_bit 4 x))) OR push_bit 6 (take_bit 2 (drop_bit 6 y))) OR take_bit 6 y = y"
  by (rule byte_eqI; simp add: bit_simps)+


lemma encode_char_decode:
  assumes rel: "codec_rel es ds pending" and enc: "encode_char es c = (out, es')"
  obtains pt ds' pending' where "base64_decode_block out ds = Some (pt, ds')" and "codec_rel es' ds' pending'"
    and "pending @ [c] = pt @ pending'"
proof (cases "es_step es")
  case step_A
  with assms show ?thesis
    by (intro that [of "[]" "\<lparr>ds_step = step_b, ds_plainchar = push_bit 2 (drop_bit 2 (byte_of c))\<rparr>" "[c]"])
      (auto simp: codec_rel_def encode_char_def [unfolded masks] Let_def decode_sextet sextets)
next
  case step_B
  with assms obtain p where p: "pending = [p]" "es_result es = push_bit 4 (take_bit 2 (byte_of p))"
    "ds_plainchar ds = push_bit 2 (drop_bit 2 (byte_of p))" "ds_step ds = step_b"
    by (auto simp: codec_rel_def)
  with step_B enc show ?thesis
    by (intro that [of "[p]" "\<lparr>ds_step = step_c, ds_plainchar = push_bit 4 (drop_bit 4 (byte_of c))\<rparr>" "[c]"])
      (auto simp: codec_rel_def encode_char_def [unfolded masks] Let_def decode_sextet sextets joined)
next
  case step_C
  with assms obtain p where p: "pending = [p]" "es_result es = push_bit 2 (take_bit 4 (byte_of p))"
    "ds_plainchar ds = push_bit 4 (drop_bit 4 (byte_of p))" "ds_step ds = step_c"
    by (auto simp: codec_rel_def)
  have nl: "base64_decode_value (CHR 0x0A) = Some (- 1)" by (simp add: decode_value_nat)
  from step_C enc p nl show ?thesis
    by (intro that [of "[p, c]" "\<lparr>ds_step = step_a,
        ds_plainchar = push_bit 6 (take_bit 2 (push_bit 2 (take_bit 4 (byte_of p)) OR drop_bit 6 (byte_of c)))\<rparr>" "[]"])
      (auto simp: codec_rel_def encode_char_def [unfolded masks] Let_def decode_sextet sextets joined decode_char_def [of _ "CHR 0x0A"]
        split: if_splits)
qed

lemma encode_block_decode:
  assumes "codec_rel es ds pending" and "base64_encode_block cs es = (out, es')"
  obtains pt ds' pending' where "base64_decode_block out ds = Some (pt, ds')" and "codec_rel es' ds' pending'"
    and "pending @ cs = pt @ pending'"
  using assms
proof (induction cs arbitrary: es ds pending out thesis)
  case Nil
  then show ?case by (intro Nil.prems(1) [of "[]" ds pending]) auto
next
  case (Cons c cs)
  from Cons.prems(3) obtain o1 es1 o2 where o1: "encode_char es c = (o1, es1)"
    and o2: "base64_encode_block cs es1 = (o2, es')" and out: "out = o1 @ o2"
    by (auto simp: Let_def split: prod.splits)
  obtain t1 ds1 p1 where t1: "base64_decode_block o1 ds = Some (t1, ds1)" "codec_rel es1 ds1 p1" "pending @ [c] = t1 @ p1"
    using encode_char_decode [OF Cons.prems(2) o1] by blast
  obtain t2 ds2 p2 where t2: "base64_decode_block o2 ds1 = Some (t2, ds2)" "codec_rel es' ds2 p2" "p1 @ cs = t2 @ p2"
    using Cons.IH [OF _ t1(2) o2] by blast
  have "pending @ c # cs = (t1 @ t2) @ p2" using t1(3) t2(3) by (metis append.assoc append_Cons append_Nil)
  with t1 t2 show ?case
    by (intro Cons.prems(1) [of "t1 @ t2" ds2 p2]) (auto simp: out decode_block_append)
qed

lemma encode_blockend_decode:
  assumes "codec_rel es ds pending"
  shows "map_option fst (base64_decode_block (base64_encode_blockend es) ds) = Some pending"
proof -
  have skip: "base64_decode_value (CHR 0x0A) = Some (- 1)" "base64_decode_value (CHR ''='') = Some (- 2)"
    by (simp_all add: decode_value_nat decoding_def)
  show ?thesis
  proof (cases "es_step es")
    case step_A
    with assms skip show ?thesis
      by (simp add: codec_rel_def base64_encode_blockend_def decode_char_def)
  next
    case step_B
    with assms skip show ?thesis
      by (auto simp: codec_rel_def base64_encode_blockend_def decode_sextet sextets joined
          decode_char_def [of _ "CHR 0x0A"] decode_char_def [of _ "CHR ''=''"])
  next
    case step_C
    with assms skip show ?thesis
      by (auto simp: codec_rel_def base64_encode_blockend_def decode_sextet sextets joined
          decode_char_def [of _ "CHR 0x0A"] decode_char_def [of _ "CHR ''=''"])
  qed
qed

lemma decode_block_total:
  "base64_decode_block code st = None \<longleftrightarrow> CHR ''{'' \<in> set code"
proof (induction code arbitrary: st)
  case (Cons c cs)
  have brace: "(of_char c :: nat) = 123 \<longleftrightarrow> c = CHR ''{''"
    using of_char_eq_iff [of c "CHR ''{''", where ?'a = nat] by simp
  have "decode_char st c = None \<longleftrightarrow> c = CHR ''{''"
    using brace by (auto simp: decode_char_def decode_value_nat Let_def split: base64_decodestep.splits)
  with Cons show ?case by (auto split: option.splits)
qed simp

lemma encode_stream_block:
  assumes "2 \<le> N"
  shows "encode_stream N inp = Some (case base64_encode_block inp base64_init_encodestate of
    (code, st) \<Rightarrow> code @ base64_encode_blockend st)"
proof -
  have "length (base64_encode_blockend st) \<le> 2 * N" for st
    using base64_encode_buffer_suffices [OF assms, of "[]" st] by simp
  with assms show ?thesis by (simp add: encode_stream_def encode_stream_loop_block split: prod.splits)
qed

lemma base64_decode_encode:
  assumes "2 \<le> N" and "4 \<le> M"
  obtains code where "encode_stream N inp = Some code" and "decode_stream M code = Some inp"
proof -
  obtain out es where enc: "base64_encode_block inp base64_init_encodestate = (out, es)" by fastforce
  have "codec_rel base64_init_encodestate base64_init_decodestate []"
    by (simp add: codec_rel_def base64_init_encodestate_def base64_init_decodestate_def)
  then obtain pt ds pending where dec: "base64_decode_block out base64_init_decodestate = Some (pt, ds)"
    and rel: "codec_rel es ds pending" and inp: "inp = pt @ pending"
    using encode_block_decode [OF _ enc] by (metis append_Nil)
  from encode_blockend_decode [OF rel] obtain ds'
    where fin: "base64_decode_block (base64_encode_blockend es) ds = Some (pending, ds')" by auto
  have "encode_stream N inp = Some (out @ base64_encode_blockend es)" using assms(1) enc by (simp add: encode_stream_block)
  moreover have "base64_decode_block (out @ base64_encode_blockend es) base64_init_decodestate = Some (inp, ds')"
    unfolding decode_block_append dec inp by (simp add: fin)
  then have "decode_stream M (out @ base64_encode_blockend es) = Some inp"
    using assms(2) by (simp add: decode_stream_def decode_stream_loop_block)
  ultimately show thesis by (rule that)
qed

section \<open>Properties\<close>

text \<open>
  C9: Decoding what was encoded gives the text back, for every text (any bytes, any length), when the encoder
  reads pieces of at least two bytes and the decoder pieces of at least four: neither of them then leaves its
  buffers. These bounds are the smallest ones: with pieces of one byte there are texts on which the encoder
  overruns its buffer, with pieces of one, two or three characters there are texts whose code makes the decoder
  overrun its.
\<close>

theorem base64_round_trip:
  "(2 \<le> N \<and> 4 \<le> M \<longrightarrow> (\<exists>code. encode_stream N inp = Some code \<and> decode_stream M code = Some inp))
   \<and> (N < 2 \<longrightarrow> (\<exists>text. encode_stream N text = None))
   \<and> (M < 4 \<longrightarrow> (\<exists>text code. encode_stream 2 text = Some code \<and> decode_stream M code = None))"
proof (intro conjI impI)
  show "\<exists>code. encode_stream N inp = Some code \<and> decode_stream M code = Some inp" if "2 \<le> N \<and> 4 \<le> M"
    using base64_decode_encode [of N M inp] that by metis
  show "\<exists>text. encode_stream N text = None" if "N < 2"
  proof -
    from that consider "N = 0" | "N = 1" by linarith
    then have "encode_stream N ''a'' = None"
    proof cases
      case 1
      have "encode_stream 0 ''a'' = None" by code_simp
      with 1 show ?thesis by simp
    next
      case 2
      have "encode_stream 1 ''a'' = None" by code_simp
      with 2 show ?thesis by simp
    qed
    then show ?thesis by blast
  qed
  show "\<exists>text code. encode_stream 2 text = Some code \<and> decode_stream M code = None" if "M < 4"
  proof -
    let ?text = "''abcdefghijkl''"
    obtain code where code: "encode_stream 2 ?text = Some code"
      by (rule base64_decode_encode [of 2 4 ?text]) simp_all
    have "(case encode_stream 2 ?text of Some code \<Rightarrow> map (\<lambda>m. decode_stream m code) [0, 1, 2, 3]) = [None, None, None, None]"
      by code_simp
    with code have "decode_stream m code = None" if "m \<in> {0, 1, 2, 3}" for m using that by auto
    moreover from \<open>M < 4\<close> have "M \<in> {0, 1, 2, 3}" by auto
    ultimately show ?thesis using code by blast
  qed
qed

theorem base64_round_trip_witness:
  "\<exists>code. encode_stream 5 ''any carnal pleasure'' = Some code \<and> decode_stream 4 code = Some ''any carnal pleasure''"
  using base64_round_trip [of 5 4 "''any carnal pleasure''"] by simp

text \<open>
  C40: Decoding reads outside its table for every text that contains the character after \<open>z\<close> in ASCII, \<open>{\<close>;
  with pieces of at least four characters, for which the output buffer suffices, it leaves an array for those
  texts only: every other text, base64 or not, decodes to something.
\<close>

theorem base64_decode_out_of_bounds:
  "(CHR ''{'' \<in> set code \<longrightarrow> decode_stream N code = None)
   \<and> (4 \<le> N \<longrightarrow> (decode_stream N code = None \<longleftrightarrow> CHR ''{'' \<in> set code))"
proof -
  have table: "decode_stream_loop N code st = None" if "CHR ''{'' \<in> set code" for st
    using that
  proof (induction N code st rule: decode_stream_loop.induct)
    case (1 N code st)
    show ?case
    proof (cases "CHR ''{'' \<in> set (take N code)")
      case True
      then have "base64_decode_block (take N code) st = None" by (simp only: decode_block_total)
      then have "decode_piece N (take N code) st = None" by (simp add: decode_piece_def)
      then show ?thesis by (subst decode_stream_loop.simps) simp
    next
      case False
      with 1(2) have drop: "CHR ''{'' \<in> set (drop N code)" by (metis Un_iff append_take_drop_id set_append)
      then have "N \<le> length code" by (cases "N \<le> length code") auto
      moreover have "decode_piece 0 [] st = None" by (simp add: decode_piece_def)
      ultimately show ?thesis
        using 1(1) drop by (subst decode_stream_loop.simps) (cases "N = 0", auto split: option.splits)
    qed
  qed
  show ?thesis
    using table decode_block_total by (auto simp: decode_stream_def decode_stream_loop_block)
qed

theorem base64_decode_out_of_bounds_witness:
  "decode_stream 16 ''YWJj{'' = None \<and> decode_stream 16 ''?~!'' \<noteq> None"
  using base64_decode_out_of_bounds [of "''YWJj{''" 16] base64_decode_out_of_bounds [of "''?~!''" 16] by simp

end
