(* ===== verification/Base64Spec.thy ===== *)
theory Base64Spec
  imports Base64
begin

text \<open>
  The code that the encoder of \<open>third-party/libb64\<close> produces is that of RFC 4648: \<open>rfc4648\<close> states the encoding of
  the standard with arithmetic on whole groups of bytes, and the automaton on pieces is proved equal to it up to
  the line ends, which come after every 72 characters and at the end.
\<close>

unbundle bit_operations_syntax

section \<open>The standard\<close>

definition code_of :: "nat \<Rightarrow> char" where
  "code_of k = encoding ! k"

fun rfc4648 :: "string \<Rightarrow> string" where
  "rfc4648 [] = []"
| "rfc4648 [a] = [code_of (of_char a div 4), code_of (of_char a mod 4 * 16), CHR ''='', CHR ''='']"
| "rfc4648 [a, b] = [code_of (of_char a div 4), code_of (of_char a mod 4 * 16 + of_char b div 16),
     code_of (of_char b mod 16 * 4), CHR ''='']"
| "rfc4648 (a # b # c # rest) = [code_of (of_char a div 4), code_of (of_char a mod 4 * 16 + of_char b div 16),
     code_of (of_char b mod 16 * 4 + of_char c div 64), code_of (of_char c mod 64)] @ rfc4648 rest"

section \<open>Sextets as numbers\<close>

lemma encode_value_nth: "drop_bit 6 v = 0 \<Longrightarrow> base64_encode_value v = code_of (unat v)"
proof -
  assume "drop_bit 6 v = 0"
  then have v: "unat v < 64" by (rule sextet_bound)
  have "sint v = (uint v + 128) mod 256 - 128" using sint_byte [of "uint v"] by (simp only: word_of_int_uint)
  moreover have "0 \<le> uint v" "uint v < 64" using v uint_nat [of v] by linarith+
  ultimately show ?thesis by (simp add: base64_encode_value_def code_of_def)
qed

lemma unat_join:
  assumes "\<And>n. \<not> bit (a :: 8 word) n \<or> \<not> bit b n" and "unat a + unat b < 256"
  shows "unat (a OR b) = unat a + unat b"
proof -
  have "a OR b = a + b" using assms(1) by (simp add: disjunctive_add)
  with assms(2) show ?thesis by (simp add: unat_word_ariths)
qed

lemma unat_fields:
  "unat (drop_bit n (byte_of c)) = of_char c div 2 ^ n" "unat (take_bit n (byte_of c)) = of_char c mod 2 ^ n"
proof -
  have "unat (drop_bit n (byte_of c)) = drop_bit n (unat (byte_of c))" "unat (take_bit n (byte_of c)) = take_bit n (unat (byte_of c))"
    by (rule unat_drop_bit_eq, rule unsigned_take_bit_eq)
  then show "unat (drop_bit n (byte_of c)) = of_char c div 2 ^ n" "unat (take_bit n (byte_of c)) = of_char c mod 2 ^ n"
    by (simp_all only: drop_bit_eq_div take_bit_eq_mod unat_byte_of)
qed

lemma unat_high:
  "unat (push_bit 4 (take_bit 2 (byte_of c))) = of_char c mod 4 * 16"
  "unat (push_bit 2 (take_bit 4 (byte_of c))) = of_char c mod 16 * 4"
proof -
  have "(of_char c :: nat) mod 4 < 4" "(of_char c :: nat) mod 16 < 16" by simp_all
  then show "unat (push_bit 4 (take_bit 2 (byte_of c))) = of_char c mod 4 * 16"
    "unat (push_bit 2 (take_bit 4 (byte_of c))) = of_char c mod 16 * 4"
    using unat_fields(2) [of 2 c] unat_fields(2) [of 4 c] by (simp_all add: push_bit_eq_mult unat_word_ariths)
qed

lemma sextet_values:
  "base64_encode_value (drop_bit 2 (byte_of a)) = code_of (of_char a div 4)"
  "base64_encode_value (push_bit 4 (take_bit 2 (byte_of a)) OR drop_bit 4 (byte_of b)) = code_of (of_char a mod 4 * 16 + of_char b div 16)"
  "base64_encode_value (push_bit 2 (take_bit 4 (byte_of a)) OR drop_bit 6 (byte_of b)) = code_of (of_char a mod 16 * 4 + of_char b div 64)"
  "base64_encode_value (take_bit 6 (byte_of a)) = code_of (of_char a mod 64)"
  "base64_encode_value (push_bit 4 (take_bit 2 (byte_of a))) = code_of (of_char a mod 4 * 16)"
  "base64_encode_value (push_bit 2 (take_bit 4 (byte_of a))) = code_of (of_char a mod 16 * 4)"
proof -
  have b: "(of_char b :: nat) div 16 < 16" "(of_char b :: nat) div 64 < 4"
    using nat_of_char_less_256 [of b] by (simp_all add: less_mult_imp_div_less)
  have a: "(of_char a :: nat) mod 4 < 4" "(of_char a :: nat) mod 16 < 16" by simp_all
  have "unat (push_bit 4 (take_bit 2 (byte_of a)) OR drop_bit 4 (byte_of b)) = of_char a mod 4 * 16 + of_char b div 16"
    using a(1) b(1) by (subst unat_join) (auto simp: unat_high unat_fields bit_simps dest: bit_imp_le_length)
  then show "base64_encode_value (push_bit 4 (take_bit 2 (byte_of a)) OR drop_bit 4 (byte_of b)) = code_of (of_char a mod 4 * 16 + of_char b div 16)"
    by (simp add: encode_value_nth sextets)
  have "unat (push_bit 2 (take_bit 4 (byte_of a)) OR drop_bit 6 (byte_of b)) = of_char a mod 16 * 4 + of_char b div 64"
    using a(2) b(2) by (subst unat_join) (auto simp: unat_high unat_fields bit_simps dest: bit_imp_le_length)
  then show "base64_encode_value (push_bit 2 (take_bit 4 (byte_of a)) OR drop_bit 6 (byte_of b)) = code_of (of_char a mod 16 * 4 + of_char b div 64)"
    by (simp add: encode_value_nth sextets)
qed (simp_all add: encode_value_nth sextets unat_high unat_fields)

section \<open>The automaton by groups\<close>

definition encode_rest :: "base64_encodestate \<Rightarrow> string \<Rightarrow> string" where
  "encode_rest st inp = (let (code, st') = base64_encode_block inp st in code @ base64_encode_blockend st')"

lemma encode_rest_Nil: "encode_rest st [] = base64_encode_blockend st"
  by (simp add: encode_rest_def)

lemma encode_rest_Cons: "encode_rest st (c # cs) = (let (out, st') = encode_char st c in out @ encode_rest st' cs)"
  by (simp add: encode_rest_def split: prod.splits)

lemmas encode_rest_simps = encode_rest_Nil encode_rest_Cons encode_char_def [unfolded masks] base64_encode_blockend_def sextet_values CHARS_PER_LINE_def

lemma encode_rest_group:
  assumes "es_step st = step_A"
  obtains st' where "es_step st' = step_A" and "es_stepcount st' = (if es_stepcount st + 1 = 18 then 0 else es_stepcount st + 1)"
    and "encode_rest st (a # b # c # rest) = [code_of (of_char a div 4), code_of (of_char a mod 4 * 16 + of_char b div 16),
     code_of (of_char b mod 16 * 4 + of_char c div 64), code_of (of_char c mod 64)]
     @ (if es_stepcount st + 1 = 18 then [CHR 0x0A] else []) @ encode_rest st' rest"
proof -
  define st' where "st' = (if es_stepcount st + 1 = 18 then st\<lparr>es_step := step_A, es_result := take_bit 6 (byte_of c), es_stepcount := 0\<rparr>
    else st\<lparr>es_step := step_A, es_result := take_bit 6 (byte_of c), es_stepcount := es_stepcount st + 1\<rparr>)"
  show thesis
    by (rule that [of st']) (simp_all add: st'_def assms encode_rest_simps Let_def)
qed

text \<open>Lines: all but the last have 72 characters, the first one less those of the groups it already has.\<close>

definition lines_ok :: "nat \<Rightarrow> string list \<Rightarrow> bool" where
  "lines_ok n ls \<longleftrightarrow> ls \<noteq> [] \<and> length (last ls) \<le> 72 \<and> (\<forall>l \<in> set (tl (butlast ls)). length l = 72)
     \<and> (if butlast ls = [] then length (hd ls) + 4 * n \<le> 72 else length (hd ls) + 4 * n = 72)"

definition unlines :: "string list \<Rightarrow> string" where
  "unlines ls = concat (map (\<lambda>l. l @ [CHR 0x0A]) ls)"

lemma lines_extend:
  assumes "lines_ok (Suc n) ls" and "length q = 4"
  shows "lines_ok n ((q @ hd ls) # tl ls) \<and> unlines ((q @ hd ls) # tl ls) = q @ unlines ls \<and> concat ((q @ hd ls) # tl ls) = q @ concat ls"
proof -
  from assms(1) obtain l ls' where "ls = l # ls'" by (cases ls) (auto simp: lines_ok_def)
  with assms show ?thesis by (auto simp: lines_ok_def unlines_def)
qed

lemma lines_new:
  assumes "lines_ok 0 ls" and "length q = 4" and "n + 1 = 18"
  shows "lines_ok n (q # ls)"
proof -
  from assms(1) obtain l ls' where "ls = l # ls'" by (cases ls) (auto simp: lines_ok_def)
  with assms show ?thesis by (auto simp: lines_ok_def split: if_splits)
qed

lemma encode_rest_lines:
  "es_step st = step_A \<Longrightarrow> es_stepcount st < 18 \<Longrightarrow>
    \<exists>ls. lines_ok (es_stepcount st) ls \<and> encode_rest st inp = unlines ls \<and> concat ls = rfc4648 inp"
proof (induction inp arbitrary: st rule: rfc4648.induct)
  case 1
  then show ?case
    by (intro exI [of _ "[[]]"]) (simp add: lines_ok_def unlines_def encode_rest_simps)
next
  case (2 a)
  then show ?case
    by (intro exI [of _ "[rfc4648 [a]]"]) (simp add: lines_ok_def unlines_def encode_rest_simps Let_def)
next
  case (3 a b)
  then show ?case
    by (intro exI [of _ "[rfc4648 [a, b]]"]) (simp add: lines_ok_def unlines_def encode_rest_simps Let_def)
next
  case (4 a b c rest)
  let ?q = "[code_of (of_char a div 4), code_of (of_char a mod 4 * 16 + of_char b div 16),
     code_of (of_char b mod 16 * 4 + of_char c div 64), code_of (of_char c mod 64)]"
  obtain st' where st': "es_step st' = step_A" "es_stepcount st' = (if es_stepcount st + 1 = 18 then 0 else es_stepcount st + 1)"
    and enc: "encode_rest st (a # b # c # rest) = ?q @ (if es_stepcount st + 1 = 18 then [CHR 0x0A] else []) @ encode_rest st' rest"
    using encode_rest_group [OF 4(2)] by blast
  from st' 4(3) have "es_stepcount st' < 18" by auto
  from 4(1) [OF st'(1) this] obtain ls where ls: "lines_ok (es_stepcount st') ls" "encode_rest st' rest = unlines ls" "concat ls = rfc4648 rest" by blast
  show ?case
  proof (cases "es_stepcount st + 1 = 18")
    case True
    with ls st'(2) lines_new [of ls ?q "es_stepcount st"] show ?thesis
      by (intro exI [of _ "?q # ls"]) (simp add: enc unlines_def)
  next
    case False
    with ls st'(2) lines_extend [of "es_stepcount st" ls ?q] show ?thesis
      by (intro exI [of _ "(?q @ hd ls) # tl ls"]) (simp add: enc)
  qed
qed

section \<open>Property\<close>

text \<open>
  C10: The encoder of libb64 produces the base64 code of RFC 4648, whatever the size of the pieces its stream
  wrapper reads as long as it is at least two (with one its output buffer is too small): the code of the
  standard, cut into lines of 72 characters with the rest in the last line, each closed by a line end.
\<close>

theorem base64_encode_standard:
  assumes "2 \<le> N"
  shows "\<exists>ls l. encode_stream N inp = Some (unlines (ls @ [l])) \<and> concat (ls @ [l]) = rfc4648 inp
    \<and> (\<forall>x \<in> set ls. length x = 72) \<and> length l \<le> 72"
proof -
  have "encode_stream N inp = Some (encode_rest base64_init_encodestate inp)"
    using assms by (simp add: encode_rest_def encode_stream_block)
  moreover obtain ls where ls: "lines_ok 0 ls" "encode_rest base64_init_encodestate inp = unlines ls" "concat ls = rfc4648 inp"
    using encode_rest_lines [of base64_init_encodestate inp] by (auto simp: base64_init_encodestate_def)
  moreover have "\<forall>x \<in> set (butlast ls). length x = 72"
    using ls(1) by (cases "butlast ls"; cases ls) (auto simp: lines_ok_def split: if_splits)
  moreover have "ls = butlast ls @ [last ls]" "length (last ls) \<le> 72" using ls(1) by (simp_all add: lines_ok_def)
  ultimately show ?thesis by metis
qed

theorem base64_encode_standard_witness:
  "rfc4648 ''any carnal pleas'' = ''YW55IGNhcm5hbCBwbGVhcw=='' \<and> encode_stream 5 ''any carnal pleas'' = Some (rfc4648 ''any carnal pleas'' @ [CHR 0x0A])"
proof -
  have std: "rfc4648 ''any carnal pleas'' = ''YW55IGNhcm5hbCBwbGVhcw==''" by code_simp
  obtain ls l where e: "encode_stream 5 ''any carnal pleas'' = Some (unlines (ls @ [l]))" and c: "concat (ls @ [l]) = rfc4648 ''any carnal pleas''"
    and ls: "\<forall>x \<in> set ls. length x = 72" using base64_encode_standard [of 5 "''any carnal pleas''"] by auto
  have "ls = []"
  proof (cases ls)
    case (Cons x xs)
    then have "72 \<le> length (concat (ls @ [l]))" using ls by simp
    with c show ?thesis by (simp add: std)
  qed
  with e c std show ?thesis by (simp add: unlines_def)
qed

end
