(* ===== verification/LruCache.thy ===== *)
theory LruCache
  imports Prelude
begin

text \<open>
  The least-recently-used cache of \<open>src/daemon/lru_cache.h\<close> (class \<open>lru_cache_base\<close>), which the
  block store puts in front of \<open>load_block\<close> and \<open>load_file\<close> and the storage manager in front of its
  \<open>load_file\<close>.

  The container is a Boost bimap from a set of keys to a list of values: keys are unique, and the
  right view is a list whose front is the least and whose back is the most recently used record.
  It is modelled by that list of key-value pairs. The cached function may throw and may change the
  outside world; the value an insertion evicts is destroyed, which runs its destructor (it deletes
  the file, for a \<open>public_file\<close>).
\<close>

section \<open>The cache and its operations\<close>

record ('k, 'v) lru_cache =
  lru_capacity :: nat
  lru_container :: "('k \<times> 'v) list"

text \<open>The constructor, with its \<open>assert(_capacity != 0)\<close>.\<close>

definition lru_new :: "nat \<Rightarrow> ('k, 'v) lru_cache outcome" where
  "lru_new c = (if c \<noteq> 0 then Return \<lparr>lru_capacity = c, lru_container = []\<rparr> else Stuck)"

text \<open>\<open>_container.right.relocate(end, it)\<close>: the record of \<open>k\<close> moves to the back.\<close>

definition lru_relocate :: "'k \<Rightarrow> ('k, 'v) lru_cache \<Rightarrow> ('k, 'v) lru_cache" where
  "lru_relocate k c =
     c\<lparr>lru_container := filter (\<lambda>p. fst p \<noteq> k) (lru_container c) @
                         filter (\<lambda>p. fst p = k) (lru_container c)\<rparr>"

text \<open>Insertion into the bimap: refused when the key is present, at the back otherwise.\<close>

definition bimap_insert :: "'k \<Rightarrow> 'v \<Rightarrow> ('k \<times> 'v) list \<Rightarrow> ('k \<times> 'v) list" where
  "bimap_insert k v xs = (if k \<in> fst ` set xs then xs else xs @ [(k, v)])"

text \<open>
  The private \<open>insert\<close>: the assertion, the purge of the front record of a full cache (erasing from
  an empty list is undefined), the insertion. The first component is the purged value.
\<close>

definition lru_insert :: "'k \<Rightarrow> 'v \<Rightarrow> ('k, 'v) lru_cache \<Rightarrow> ('v option \<times> ('k, 'v) lru_cache) outcome" where
  "lru_insert k v c =
     (let xs = lru_container c in
      if \<not> length xs \<le> lru_capacity c then Stuck
      else if length xs = lru_capacity c then
        (case xs of
           [] \<Rightarrow> Stuck
         | p # ys \<Rightarrow> Return (Some (snd p), c\<lparr>lru_container := bimap_insert k v ys\<rparr>))
      else Return (None, c\<lparr>lru_container := bimap_insert k v xs\<rparr>))"

text \<open>\<open>operator()\<close>: the cached function \<open>fn\<close> acts on the world, \<open>dtor\<close> destroys a purged value.\<close>

definition lru_call ::
  "('k \<Rightarrow> 'w \<Rightarrow> 'v outcome \<times> 'w) \<Rightarrow> ('v \<Rightarrow> 'w \<Rightarrow> 'w) \<Rightarrow> 'k \<Rightarrow> ('k, 'v) lru_cache \<Rightarrow> 'w \<Rightarrow>
   'v outcome \<times> ('k, 'v) lru_cache \<times> 'w" where
  "lru_call fn dtor k c w =
     (case map_of (lru_container c) k of
        Some v \<Rightarrow> (Return v, lru_relocate k c, w)
      | None \<Rightarrow>
          (case fn k w of
             (Return v, w1) \<Rightarrow>
               (case lru_insert k v c of
                  Return (None, c') \<Rightarrow> (Return v, c', w1)
                | Return (Some u, c') \<Rightarrow> (Return v, c', dtor u w1)
                | Throw e \<Rightarrow> (Throw e, c, w1)
                | Stuck \<Rightarrow> (Stuck, c, w1))
           | (Throw e, w1) \<Rightarrow> (Throw e, c, w1)
           | (Stuck, w1) \<Rightarrow> (Stuck, c, w1)))"

text \<open>\<open>get_keys\<close>: the keys, most recently used first.\<close>

definition lru_get_keys :: "('k, 'v) lru_cache \<Rightarrow> 'k list" where
  "lru_get_keys c = rev (map fst (lru_container c))"

section \<open>Invariant\<close>

definition lru_inv :: "('k, 'v) lru_cache \<Rightarrow> bool" where
  "lru_inv c \<longleftrightarrow> 0 < lru_capacity c \<and> length (lru_container c) \<le> lru_capacity c
     \<and> distinct (map fst (lru_container c))"

lemma lru_new_inv: "lru_new n = Return c \<Longrightarrow> lru_inv c"
  by (auto simp: lru_new_def lru_inv_def split: if_splits)

lemma filter_eq_key:
  "distinct (map fst xs) \<Longrightarrow> map_of xs k = Some v \<Longrightarrow> filter (\<lambda>p. fst p = k) xs = [(k, v)]"
  by (induction xs) (auto simp: filter_empty_conv rev_image_eqI)

lemma length_filter_neq_key:
  "distinct (map fst xs) \<Longrightarrow> map_of xs k = Some v \<Longrightarrow>
   Suc (length (filter (\<lambda>p. fst p \<noteq> k) xs)) = length xs"
  using sum_length_filter_compl [of "\<lambda>p. fst p = k" xs] by (simp add: filter_eq_key)

lemma map_fst_filter_neq: "map fst (filter (\<lambda>p. fst p \<noteq> k) xs) = removeAll k (map fst xs)"
  by (induction xs) auto

lemma lru_relocate_container:
  "lru_inv c \<Longrightarrow> map_of (lru_container c) k = Some v \<Longrightarrow>
   lru_container (lru_relocate k c) = filter (\<lambda>p. fst p \<noteq> k) (lru_container c) @ [(k, v)]"
  by (simp add: lru_relocate_def filter_eq_key lru_inv_def)

lemma lru_relocate_capacity [simp]: "lru_capacity (lru_relocate k c) = lru_capacity c"
  by (simp add: lru_relocate_def)

lemma lru_relocate_inv:
  assumes "lru_inv c" and "map_of (lru_container c) k = Some v"
  shows "lru_inv (lru_relocate k c)"
  using assms length_filter_neq_key [of "lru_container c" k v]
  by (auto simp: lru_inv_def lru_relocate_container distinct_map inj_on_def
      intro: distinct_filter)

lemma lru_insert_ok:
  assumes "lru_inv c" and "map_of (lru_container c) k = None"
  obtains ev c' where "lru_insert k v c = Return (ev, c')" and "lru_inv c'"
    and "lru_capacity c' = lru_capacity c"
    and "lru_container c' =
           drop (Suc (length (lru_container c)) - lru_capacity c) (lru_container c) @ [(k, v)]"
proof (cases "length (lru_container c) = lru_capacity c")
  case True
  with assms obtain p ys where xs: "lru_container c = p # ys"
    by (cases "lru_container c") (auto simp: lru_inv_def)
  have "lru_insert k v c = Return (Some (snd p), c\<lparr>lru_container := ys @ [(k, v)]\<rparr>)"
    using assms(1) assms(2) [unfolded map_of_eq_None_iff] True xs
    by (simp add: lru_insert_def lru_inv_def bimap_insert_def)
  then show ?thesis
    by (rule that) (use assms(1) assms(2) [unfolded map_of_eq_None_iff] True xs in \<open>auto simp: lru_inv_def\<close>)
next
  case False
  have "lru_insert k v c = Return (None, c\<lparr>lru_container := lru_container c @ [(k, v)]\<rparr>)"
    using assms False by (auto simp: lru_insert_def lru_inv_def bimap_insert_def map_of_eq_None_iff)
  then show ?thesis
    by (rule that) (use assms False in \<open>auto simp: lru_inv_def map_of_eq_None_iff\<close>)
qed

text \<open>The invariant survives every call, also one in which the cached function throws.\<close>

lemma lru_call_inv:
  assumes "lru_inv c" and "lru_call fn dtor k c w = (r, c', w')"
  shows "lru_inv c' \<and> lru_capacity c' = lru_capacity c"
proof (cases "map_of (lru_container c) k")
  case (Some v)
  with assms show ?thesis
    by (auto simp: lru_call_def lru_relocate_inv)
next
  case None
  note none = this
  show ?thesis
  proof (cases "fst (fn k w)")
    case (Return v)
    from assms(1) None obtain ev c1 where "lru_insert k v c = Return (ev, c1)" "lru_inv c1"
      "lru_capacity c1 = lru_capacity c"
      by (rule lru_insert_ok)
    with assms(2) none Return show ?thesis
      by (cases ev) (auto simp: lru_call_def split: prod.splits)
  qed (use assms none in \<open>auto simp: lru_call_def split: prod.splits\<close>)
qed

section \<open>Order of use and results\<close>

lemma take_removeAll:
  "distinct xs \<Longrightarrow> 0 < n \<Longrightarrow>
   take (n - 1) (removeAll k (take n xs)) = take (n - 1) (removeAll k xs)"
proof (induction xs arbitrary: n)
  case (Cons x xs)
  then obtain m where n: "n = Suc m" by (cases n) auto
  show ?case
  proof (cases "x = k")
    case True
    with Cons.prems have "k \<notin> set xs" by simp
    then have "removeAll k (take m xs) = take m xs" "removeAll k xs = xs"
      by (auto intro!: removeAll_id dest: in_set_takeD)
    with n True show ?thesis by simp
  next
    case False
    with Cons.IH [of m] Cons.prems n show ?thesis by (cases m) auto
  qed
qed simp

lemma removeAll_rev: "removeAll x (rev xs) = rev (removeAll x xs)"
  by (simp add: removeAll_filter_not_eq rev_filter)

lemma rev_drop_take: "rev (drop (length xs - m) xs) = take m (rev xs)"
  by (cases "m \<le> length xs") (simp_all add: rev_drop)

lemma take_Cons_removeAll_take:
  "distinct xs \<Longrightarrow> 0 < n \<Longrightarrow>
   take n (k # removeAll k (take n xs)) = take n (k # removeAll k xs)"
  by (cases n) (use take_removeAll [of xs n k] in auto)

lemma remdups_snoc: "remdups (xs @ [x]) = removeAll x (remdups xs) @ [x]"
  by (induction xs) auto

text \<open>
  A call that returns leaves the requested key in front; the other keys keep their order, and what
  exceeds the capacity falls off the old end.
\<close>

lemma lru_call_keys:
  assumes "lru_inv c" and "lru_call fn dtor k c w = (Return v, c', w')"
  shows "lru_get_keys c' = take (lru_capacity c) (k # removeAll k (lru_get_keys c))"
proof (cases "map_of (lru_container c) k")
  case (Some u)
  with assms have "lru_container c' = filter (\<lambda>p. fst p \<noteq> k) (lru_container c) @ [(k, u)]"
    by (auto simp: lru_call_def lru_relocate_container)
  moreover from Some assms(1)
  have "Suc (length (filter (\<lambda>p. fst p \<noteq> k) (lru_container c))) \<le> lru_capacity c"
    by (simp add: length_filter_neq_key lru_inv_def)
  ultimately show ?thesis
    by (simp add: lru_get_keys_def map_fst_filter_neq removeAll_rev)
       (simp add: map_fst_filter_neq [symmetric])
next
  case None
  with assms(2) obtain u where ret: "fst (fn k w) = Return u"
    by (auto simp: lru_call_def split: prod.splits outcome.splits)
  from assms(1) None obtain ev c1 where ins: "lru_insert k u c = Return (ev, c1)"
    and con: "lru_container c1 =
       drop (Suc (length (lru_container c)) - lru_capacity c) (lru_container c) @ [(k, u)]"
    by (rule lru_insert_ok)
  from assms(2) None ret ins have "c' = c1"
    by (cases ev) (auto simp: lru_call_def split: prod.splits)
  moreover from None have "k \<notin> set (lru_get_keys c)"
    by (simp add: lru_get_keys_def map_of_eq_None_iff)
  moreover from assms(1) obtain m where "lru_capacity c = Suc m"
    by (cases "lru_capacity c") (auto simp: lru_inv_def)
  ultimately show ?thesis
    using assms(1) con rev_drop_take [of "map fst (lru_container c)" m]
    by (simp add: lru_get_keys_def drop_map lru_inv_def)
qed

section \<open>Memoised functions\<close>

text \<open>
  What a client of a cache relies on: under an invariant a call gives the value of the cached
  function. Everything about sequences of calls follows once and for all.
\<close>

fun run_calls :: "('k \<Rightarrow> 's \<Rightarrow> 'r \<times> 's) \<Rightarrow> 'k list \<Rightarrow> 's \<Rightarrow> 'r list \<times> 's" where
  "run_calls call [] s = ([], s)"
| "run_calls call (k # ks) s =
     (let (r, s1) = call k s; (rs, s2) = run_calls call ks s1 in (r # rs, s2))"

lemma run_calls_append:
  "run_calls call (ks @ ls) s =
     (let (rs, s1) = run_calls call ks s; (rs', s2) = run_calls call ls s1 in (rs @ rs', s2))"
  by (induction ks arbitrary: s) (auto split: prod.splits)

locale memo_function =
  fixes call :: "('k \<Rightarrow> 'v) \<Rightarrow> 'k \<Rightarrow> 's \<Rightarrow> 'v outcome \<times> 's"
    and inv :: "('k \<Rightarrow> 'v) \<Rightarrow> 's \<Rightarrow> bool"
  assumes call_value: "inv f s \<Longrightarrow> fst (call f k s) = Return (f k)"
    and call_inv: "inv f s \<Longrightarrow> inv f (snd (call f k s))"
begin

lemma run_values: "inv f s \<Longrightarrow> fst (run_calls (call f) ks s) = map (\<lambda>k. Return (f k)) ks"
proof (induction ks arbitrary: s)
  case (Cons k ks)
  then have "inv f (snd (call f k s))" by (simp add: call_inv)
  from Cons.IH [OF this] Cons.prems show ?case
    using call_value [of f s k] by (auto split: prod.splits)
qed simp

lemma run_inv: "inv f s \<Longrightarrow> inv f (snd (run_calls (call f) ks s))"
proof (induction ks arbitrary: s)
  case (Cons k ks)
  then have "inv f (snd (call f k s))" by (simp add: call_inv)
  from Cons.IH [OF this] show ?case by (auto split: prod.splits)
qed simp

end

text \<open>
  The cache in front of a function without side effects, with a counter of the evaluations (the
  world): the setting of the unit test \<open>TEST(Blockstore, lru_cache)\<close>.
\<close>

definition counted :: "('k \<Rightarrow> 'v) \<Rightarrow> 'k \<Rightarrow> nat \<Rightarrow> 'v outcome \<times> nat" where
  "counted f k n = (Return (f k), Suc n)"

definition lru_pure_call ::
  "('k \<Rightarrow> 'v) \<Rightarrow> 'k \<Rightarrow> ('k, 'v) lru_cache \<times> nat \<Rightarrow> 'v outcome \<times> ('k, 'v) lru_cache \<times> nat" where
  "lru_pure_call f k s = lru_call (counted f) (\<lambda>_ w. w) k (fst s) (snd s)"

definition lru_coherent :: "('k \<Rightarrow> 'v) \<Rightarrow> ('k, 'v) lru_cache \<times> nat \<Rightarrow> bool" where
  "lru_coherent f s \<longleftrightarrow> lru_inv (fst s) \<and> (\<forall>(k, v) \<in> set (lru_container (fst s)). v = f k)"

lemma lru_pure_call_cases:
  assumes "lru_coherent f (c, n)"
  obtains c' where "lru_pure_call f k (c, n) =
      (Return (f k), c', if k \<in> set (lru_get_keys c) then n else Suc n)"
    and "lru_coherent f (c', if k \<in> set (lru_get_keys c) then n else Suc n)"
proof (cases "map_of (lru_container c) k")
  case (Some v)
  then have "(k, v) \<in> set (lru_container c)" by (rule map_of_SomeD)
  moreover from this have "k \<in> set (lru_get_keys c)"
    by (force simp: lru_get_keys_def)
  moreover from assms Some have "lru_inv (lru_relocate k c)"
    by (auto simp: lru_coherent_def intro: lru_relocate_inv)
  ultimately show ?thesis
    using assms Some that [of "lru_relocate k c"]
    by (auto simp: lru_pure_call_def lru_call_def lru_coherent_def lru_relocate_def)
next
  case None
  from assms have "lru_inv c" by (simp add: lru_coherent_def)
  then obtain ev c1 where ins: "lru_insert k (f k) c = Return (ev, c1)" "lru_inv c1"
    and con: "lru_container c1 =
       drop (Suc (length (lru_container c)) - lru_capacity c) (lru_container c) @ [(k, f k)]"
    using None by (rule lru_insert_ok)
  from None have "k \<notin> set (lru_get_keys c)"
    by (simp add: lru_get_keys_def map_of_eq_None_iff)
  with assms None ins con show ?thesis
    by (intro that [of c1])
      (auto simp: lru_pure_call_def lru_call_def counted_def lru_coherent_def
        split: option.splits dest!: in_set_dropD)
qed

interpretation lru: memo_function lru_pure_call lru_coherent
proof
  fix f :: "'a \<Rightarrow> 'b" and s :: "('a, 'b) lru_cache \<times> nat" and k
  assume inv: "lru_coherent f s"
  obtain c n where s: "s = (c, n)" by (cases s)
  from inv [unfolded s] show "fst (lru_pure_call f k s) = Return (f k)"
    unfolding s by (rule lru_pure_call_cases [of f c n k]) simp
  from inv [unfolded s] show "lru_coherent f (snd (lru_pure_call f k s))"
    unfolding s by (rule lru_pure_call_cases [of f c n k]) simp
qed

lemma lru_pure_call_keys:
  assumes "lru_coherent f s"
  shows "lru_get_keys (fst (snd (lru_pure_call f k s))) =
           take (lru_capacity (fst s)) (k # removeAll k (lru_get_keys (fst s)))"
    and "lru_capacity (fst (snd (lru_pure_call f k s))) = lru_capacity (fst s)"
proof -
  from assms obtain c' n' where call: "lru_pure_call f k s = (Return (f k), c', n')"
    by (cases s) (metis lru_pure_call_cases)
  have inv: "lru_inv (fst s)" using assms by (simp add: lru_coherent_def)
  note eq = call [unfolded lru_pure_call_def]
  from lru_call_keys [OF inv eq] show
    "lru_get_keys (fst (snd (lru_pure_call f k s))) =
       take (lru_capacity (fst s)) (k # removeAll k (lru_get_keys (fst s)))"
    by (simp add: call)
  from lru_call_inv [OF inv eq] show
    "lru_capacity (fst (snd (lru_pure_call f k s))) = lru_capacity (fst s)"
    by (simp add: call)
qed

text \<open>The keys after a sequence of accesses, and how many of them were evaluated.\<close>

definition lru_misses :: "nat \<Rightarrow> 'k list \<Rightarrow> nat" where
  "lru_misses cap ks =
     length (filter (\<lambda>i. ks ! i \<notin> set (take cap (rev (remdups (take i ks))))) [0..<length ks])"

lemma lru_misses_snoc:
  "lru_misses cap (ks @ [k]) =
     lru_misses cap ks + (if k \<in> set (take cap (rev (remdups ks))) then 0 else 1)"
proof -
  have "filter (\<lambda>i. (ks @ [k]) ! i \<notin> set (take cap (rev (remdups (take i (ks @ [k])))))) [0..<length ks]
      = filter (\<lambda>i. ks ! i \<notin> set (take cap (rev (remdups (take i ks))))) [0..<length ks]"
    by (rule filter_cong) (auto simp: nth_append)
  then show ?thesis by (simp add: lru_misses_def nth_append)
qed

lemma lru_run_state:
  assumes "0 < cap"
  shows "\<exists>c n. snd (run_calls (lru_pure_call f) ks (\<lparr>lru_capacity = cap, lru_container = []\<rparr>, 0)) = (c, n)
           \<and> lru_coherent f (c, n) \<and> lru_capacity c = cap
           \<and> lru_get_keys c = take cap (rev (remdups ks)) \<and> n = lru_misses cap ks"
proof (induction ks rule: rev_induct)
  case Nil
  with assms show ?case
    by (simp add: lru_coherent_def lru_inv_def lru_get_keys_def lru_misses_def)
next
  case (snoc k ks)
  then obtain c n where run: "snd (run_calls (lru_pure_call f) ks
         (\<lparr>lru_capacity = cap, lru_container = []\<rparr>, 0)) = (c, n)"
    and coh: "lru_coherent f (c, n)" and cap: "lru_capacity c = cap"
    and keys: "lru_get_keys c = take cap (rev (remdups ks))" and n: "n = lru_misses cap ks"
    by blast
  obtain c' where call: "lru_pure_call f k (c, n) =
      (Return (f k), c', if k \<in> set (lru_get_keys c) then n else Suc n)"
    and coh': "lru_coherent f (c', if k \<in> set (lru_get_keys c) then n else Suc n)"
    using coh by (rule lru_pure_call_cases)
  have "lru_get_keys c' = take cap (k # removeAll k (take cap (rev (remdups ks))))"
    and "lru_capacity c' = cap"
    using lru_pure_call_keys [OF coh, of k] by (simp_all add: call cap keys)
  then have "lru_get_keys c' = take cap (rev (remdups (ks @ [k])))"
    using assms by (simp add: take_Cons_removeAll_take remdups_snoc removeAll_rev del: take_Suc_Cons)
  with run call coh' \<open>lru_capacity c' = cap\<close> show ?case
    by (auto simp: run_calls_append lru_misses_snoc keys n split: prod.splits)
qed

section \<open>Properties\<close>

text \<open>
  C37: Put in front of a side-effect-free function \<open>f\<close>, a cache of capacity \<open>cap\<close> answers every request of
  any sequence \<open>ks\<close> with the value of \<open>f\<close>; afterwards it holds exactly the \<open>cap\<close> most recently
  requested distinct keys, most recent first; and \<open>f\<close> was evaluated exactly for the requests whose
  key was not among the \<open>cap\<close> most recently requested ones.
\<close>

theorem lru_sequence:
  assumes "lru_new cap = Return c"
  shows "fst (run_calls (lru_pure_call f) ks (c, 0)) = map (\<lambda>k. Return (f k)) ks
       \<and> lru_get_keys (fst (snd (run_calls (lru_pure_call f) ks (c, 0)))) = take cap (rev (remdups ks))
       \<and> snd (snd (run_calls (lru_pure_call f) ks (c, 0))) = lru_misses cap ks"
proof -
  from assms have cap: "0 < cap" and c: "c = \<lparr>lru_capacity = cap, lru_container = []\<rparr>"
    by (auto simp: lru_new_def split: if_splits)
  then have "lru_coherent f (c, 0)" by (simp add: lru_coherent_def lru_inv_def)
  then have "fst (run_calls (lru_pure_call f) ks (c, 0)) = map (\<lambda>k. Return (f k)) ks"
    by (rule lru.run_values)
  with lru_run_state [OF cap, of f ks] show ?thesis by (auto simp: c)
qed

theorem lru_sequence_witness:
  "lru_get_keys (fst (snd (run_calls (lru_pure_call rev)
      [''first'', ''second'', ''third'', ''second'', ''fourth''] (\<lparr>lru_capacity = 2, lru_container = []\<rparr>, 0))))
   = [''fourth'', ''second'']
   \<and> snd (snd (run_calls (lru_pure_call rev)
      [''first'', ''second'', ''third'', ''second'', ''fourth''] (\<lparr>lru_capacity = 2, lru_container = []\<rparr>, 0))) = 4"
proof -
  have new: "lru_new 2 = Return \<lparr>lru_capacity = 2, lru_container = []\<rparr>"
    by (simp add: lru_new_def)
  have "take 2 (rev (remdups [''first'', ''second'', ''third'', ''second'', ''fourth''])) = [''fourth'', ''second'']"
    by simp
  moreover have "lru_misses 2 [''first'', ''second'', ''third'', ''second'', ''fourth''] = 4"
    by code_simp
  ultimately show ?thesis
    using lru_sequence [OF new, of rev "[''first'', ''second'', ''third'', ''second'', ''fourth'']"] by simp
qed

text \<open>
  C38: Whatever the cached function does to the world, also when it throws, a call keeps the cache
  within its (non-zero) capacity with unique keys; neither assertion of the class can fail and the
  cache never gets stuck unless the cached function itself does. A thrown exception reaches the
  caller and leaves the cache as it was, so failures are not cached.
\<close>

theorem lru_call_safe:
  assumes "lru_inv c" and "lru_call fn dtor k c w = (r, c', w')"
  shows "lru_inv c' \<and> lru_capacity c' = lru_capacity c
       \<and> (r = Stuck \<longrightarrow> fst (fn k w) = Stuck)
       \<and> (\<forall>e. r = Throw e \<longrightarrow> c' = c \<and> fn k w = (Throw e, w'))"
proof (cases "map_of (lru_container c) k = None \<and> (\<exists>v. fst (fn k w) = Return v)")
  case True
  then obtain v where v: "fst (fn k w) = Return v" and none: "map_of (lru_container c) k = None"
    by blast
  from assms(1) none obtain ev c1 where "lru_insert k v c = Return (ev, c1)"
    by (rule lru_insert_ok)
  with assms(2) v none have "r = Return v"
    by (cases ev) (auto simp: lru_call_def split: prod.splits)
  with lru_call_inv [OF assms] show ?thesis by simp
next
  case False
  with lru_call_inv [OF assms] assms(2) show ?thesis
    by (auto simp: lru_call_def split: option.splits prod.splits outcome.splits)
qed

theorem lru_call_safe_witness:
  "lru_inv \<lparr>lru_capacity = 1, lru_container = [(5::nat, True)]\<rparr>
   \<and> lru_call (\<lambda>k (w::nat). (Throw File_not_found, w)) (\<lambda>_ w. w) (7::nat) \<lparr>lru_capacity = 1, lru_container = [(5, True)]\<rparr> 0
     = (Throw File_not_found, \<lparr>lru_capacity = 1, lru_container = [(5, True)]\<rparr>, 0)
   \<and> lru_inv \<lparr>lru_capacity = 1, lru_container = [(5::nat, True)]\<rparr>"
proof -
  have inv: "lru_inv \<lparr>lru_capacity = 1, lru_container = [(5::nat, True)]\<rparr>"
    by (simp add: lru_inv_def)
  have call: "lru_call (\<lambda>k (w::nat). (Throw File_not_found, w)) (\<lambda>_ w. w) 7
       \<lparr>lru_capacity = 1, lru_container = [(5::nat, True)]\<rparr> 0
     = (Throw File_not_found, \<lparr>lru_capacity = 1, lru_container = [(5, True)]\<rparr>, 0)"
    by (simp add: lru_call_def)
  show ?thesis using lru_call_safe [OF inv call] call by simp
qed

text \<open>
  A cached value is served without calling the function and without touching the world, for as
  long as it stays in the cache: the cache never notices that the function would answer
  differently by now.
\<close>

lemma lru_hit_is_stale:
  assumes "map_of (lru_container c) k = Some v"
  shows "lru_call fn dtor k c w = (Return v, lru_relocate k c, w)"
  using assms by (simp add: lru_call_def)

end
