(* ===== verification/Json.thy ===== *)
theory Json
  imports Prelude
begin

text \<open>
  JSON values, \<open>third-party/boost/json/value.hpp\<close> with the \<open>Config_vector\<close> configuration: an object is
  a vector of name-value pairs in insertion order. The accessors check the type and throw
  \<open>std::runtime_error\<close>; indexing with a name on a value that may be changed inserts a null under a
  missing name, on a constant one it throws \<open>std::out_of_range\<close>. Integers are the two 64-bit
  alternatives of the variant.
\<close>

section \<open>Values\<close>

datatype json =
    JObj "(string \<times> json) list"
  | JArr "json list"
  | JStr string
  | JBool bool
  | JInt int
  | JReal int int \<comment> \<open>a double: mantissa and binary exponent\<close>
  | JNull
  | JUInt int

datatype value_type = obj_type | array_type | str_type | bool_type | int_type | real_type | null_type

fun json_type :: "json \<Rightarrow> value_type" where
  "json_type (JObj _) = obj_type"
| "json_type (JArr _) = array_type"
| "json_type (JStr _) = str_type"
| "json_type (JBool _) = bool_type"
| "json_type (JInt _) = int_type"
| "json_type (JReal _ _) = real_type"
| "json_type JNull = null_type"
| "json_type (JUInt _) = int_type"

definition json_is_null :: "json \<Rightarrow> bool" where
  "json_is_null v \<longleftrightarrow> json_type v = null_type"

text \<open>\<open>static_cast\<close> to a signed integer of \<open>n\<close> bits.\<close>

definition to_signed :: "nat \<Rightarrow> int \<Rightarrow> int" where
  "to_signed n i = (i + 2 ^ (n - 1)) mod 2 ^ n - 2 ^ (n - 1)"

section \<open>Accessors\<close>

fun json_get_str :: "json \<Rightarrow> string outcome" where
  "json_get_str (JStr s) = Return s"
| "json_get_str _ = Throw Runtime_error"

fun json_get_obj :: "json \<Rightarrow> (string \<times> json) list outcome" where
  "json_get_obj (JObj ps) = Return ps"
| "json_get_obj _ = Throw Runtime_error"

fun json_get_array :: "json \<Rightarrow> json list outcome" where
  "json_get_array (JArr vs) = Return vs"
| "json_get_array _ = Throw Runtime_error"

fun json_get_bool :: "json \<Rightarrow> bool outcome" where
  "json_get_bool (JBool b) = Return b"
| "json_get_bool _ = Throw Runtime_error"

fun json_get_int64 :: "json \<Rightarrow> int outcome" where
  "json_get_int64 (JInt i) = Return i"
| "json_get_int64 (JUInt i) = Return (to_signed 64 i)"
| "json_get_int64 _ = Throw Runtime_error"

definition json_get_int :: "json \<Rightarrow> int outcome" where
  "json_get_int v = out_bind (json_get_int64 v) (\<lambda>i. Return (to_signed 32 i))"

text \<open>\<open>operator[]\<close> and \<open>contains\<close> on a constant value.\<close>

fun pairs_find :: "string \<Rightarrow> (string \<times> json) list \<Rightarrow> json option" where
  "pairs_find key [] = None"
| "pairs_find key ((name, v) # ps) = (if name = key then Some v else pairs_find key ps)"

definition json_at :: "json \<Rightarrow> string \<Rightarrow> json outcome" where
  "json_at v key = out_bind (json_get_obj v) (\<lambda>ps.
     case pairs_find key ps of Some x \<Rightarrow> Return x | None \<Rightarrow> Throw Out_of_range)"

definition json_contains :: "json \<Rightarrow> string \<Rightarrow> bool outcome" where
  "json_contains v key = out_bind (json_get_obj v) (\<lambda>ps. Return (pairs_find key ps \<noteq> None))"

text \<open>
  \<open>operator[]\<close> on a value that may be changed: the value found and the object it is in, which has a
  new null member if there was none. Assigning through the reference is \<open>json_set\<close>.
\<close>

definition json_index :: "json \<Rightarrow> string \<Rightarrow> (json \<times> json) outcome" where
  "json_index v key = out_bind (json_get_obj v) (\<lambda>ps.
     case pairs_find key ps of Some x \<Rightarrow> Return (x, v) | None \<Rightarrow> Return (JNull, JObj (ps @ [(key, JNull)])))"

fun pairs_set :: "string \<Rightarrow> json \<Rightarrow> (string \<times> json) list \<Rightarrow> (string \<times> json) list" where
  "pairs_set key x [] = [(key, x)]"
| "pairs_set key x ((name, v) # ps) = (if name = key then (name, x) # ps else (name, v) # pairs_set key x ps)"

definition json_set :: "json \<Rightarrow> string \<Rightarrow> json \<Rightarrow> json outcome" where
  "json_set v key x = out_bind (json_get_obj v) (\<lambda>ps. Return (JObj (pairs_set key x ps)))"

text \<open>\<open>operator[](uint32_t)\<close> with assignment: the array grows as needed.\<close>

definition json_set_index :: "json \<Rightarrow> nat \<Rightarrow> json \<Rightarrow> json outcome" where
  "json_set_index v i x = out_bind (json_get_array v) (\<lambda>a.
     Return (JArr ((a @ replicate (Suc i - length a) JNull)[i := x])))"

text \<open>\<open>Config::add\<close>: appends, also when the name is there already.\<close>

definition config_add :: "(string \<times> json) list \<Rightarrow> string \<Rightarrow> json \<Rightarrow> (string \<times> json) list" where
  "config_add ps name x = ps @ [(name, x)]"

section \<open>Lemmas\<close>

lemma pairs_find_map_of: "pairs_find key ps = map_of ps key"
  by (induction ps rule: pairs_find.induct) auto

lemma pairs_find_set [simp]:
  "pairs_find key (pairs_set key' x ps) = (if key = key' then Some x else pairs_find key ps)"
  by (induction ps rule: pairs_set.induct) auto

lemma json_get_obj_iff: "json_get_obj v = Return ps \<longleftrightarrow> v = JObj ps"
  by (cases v) auto

lemma json_get_str_iff: "json_get_str v = Return s \<longleftrightarrow> v = JStr s"
  by (cases v) auto

lemma json_type_str: "json_type v = str_type \<longleftrightarrow> (\<exists>s. v = JStr s)"
  by (cases v) auto

lemma to_signed_id: "0 < n \<Longrightarrow> - (2 ^ (n - 1)) \<le> i \<Longrightarrow> i < 2 ^ (n - 1) \<Longrightarrow> to_signed n i = i"
proof -
  assume n: "0 < n" and i: "- (2 ^ (n - 1)) \<le> i" "i < 2 ^ (n - 1)"
  have "(2 :: int) ^ n = 2 * 2 ^ (n - 1)" using n by (cases n) simp_all
  with i have "(i + 2 ^ (n - 1)) mod 2 ^ n = i + 2 ^ (n - 1)" by (intro mod_pos_pos_trivial) auto
  then show ?thesis by (simp add: to_signed_def)
qed

end
