(* ===== verification/JsonRpc.thy ===== *)
theory JsonRpc
  imports Json
begin

text \<open>
  The JSON-RPC dispatcher, \<open>third-party/jsonrpc/src/jsonrpc_handler.{h,cpp}\<close>: a list of named methods, the
  check of a request and its dispatch, single or batched. The parser \<open>boost::json::read\<close> is the
  parameter \<open>rd\<close>, \<open>None\<close> being a text it rejects.

  A method gets the request and the response value, which it assigns; the server passes a null
  response. \<open>system.describe\<close> also looks at the list of methods, so that is an argument of every call.
\<close>

section \<open>The method table\<close>

record 'w rpc_method =
  m_name :: string
  m_description :: json
  m_call :: "(string \<times> json) list \<Rightarrow> json \<Rightarrow> json \<Rightarrow> ('w, bool \<times> json) io"

definition table :: "'w rpc_method list \<Rightarrow> (string \<times> json) list" where
  "table ms = map (\<lambda>m. (m_name m, m_description m)) ms"

definition AddMethod :: "'w rpc_method \<Rightarrow> 'w rpc_method list \<Rightarrow> 'w rpc_method list" where
  "AddMethod m ms = ms @ [m]"

fun erase_method :: "string \<Rightarrow> 'w rpc_method list \<Rightarrow> 'w rpc_method list" where
  "erase_method name [] = []"
| "erase_method name (m # ms) = (if m_name m = name then ms else m # erase_method name ms)"

definition DeleteMethod :: "string \<Rightarrow> 'w rpc_method list \<Rightarrow> 'w rpc_method list" where
  "DeleteMethod name ms = (if name = ''system.describe'' then ms else erase_method name ms)"

fun Lookup :: "string \<Rightarrow> 'w rpc_method list \<Rightarrow> 'w rpc_method option" where
  "Lookup name [] = None"
| "Lookup name (m # ms) = (if m_name m = name then Some m else Lookup name ms)"

fun describe_loop :: "(string \<times> json) list \<Rightarrow> json \<Rightarrow> json outcome" where
  "describe_loop [] methods = Return methods"
| "describe_loop ((name, d) # ms) methods = out_bind (json_set methods name d) (describe_loop ms)"

definition SystemDescribe :: "(string \<times> json) list \<Rightarrow> json \<Rightarrow> json \<Rightarrow> (bool \<times> json) outcome" where
  "SystemDescribe ms msg response =
     out_bind (json_set response ''jsonrpc'' (JStr ''2.0'')) (\<lambda>r1.
     out_bind (json_at msg ''id'') (\<lambda>i.
     out_bind (json_set r1 ''id'' i) (\<lambda>r2.
     out_bind (describe_loop ms JNull) (\<lambda>methods.
     out_bind (json_set r2 ''result'' methods) (\<lambda>r3. Return (True, r3))))))"

text \<open>\<open>Handler::Handler\<close>.\<close>

definition new_Handler :: "'w rpc_method list" where
  "new_Handler = AddMethod \<lparr>m_name = ''system.describe'', m_description = JNull,
     m_call = (\<lambda>ms msg response. io_of (SystemDescribe ms msg response))\<rparr> []"

section \<open>Checking and processing a request\<close>

text \<open>\<open>Handler::Check\<close>: each failing test first assigns members of the \<open>error\<close> value it was given.\<close>

definition check_error :: "json \<Rightarrow> json outcome" where
  "check_error err = out_bind (json_set err ''id'' (JStr ''0'')) (\<lambda>e. json_set e ''jsonrpc'' (JStr ''2.0''))"

definition bad_version :: "json \<Rightarrow> bool outcome" where
  "bad_version root =
     (if json_is_null root then Return True
      else out_bind (json_contains root ''jsonrpc'') (\<lambda>has.
        if \<not> has then Return True
        else out_bind (json_at root ''jsonrpc'') (\<lambda>v. out_bind (json_get_str v) (\<lambda>s. Return (s \<noteq> ''2.0'')))))"

definition bad_id :: "json \<Rightarrow> bool outcome" where
  "bad_id root =
     out_bind (json_contains root ''id'') (\<lambda>has.
     if \<not> has then Return False
     else out_bind (json_at root ''id'') (\<lambda>v. Return (json_type v = array_type \<or> json_type v = obj_type)))"

definition bad_method :: "json \<Rightarrow> bool outcome" where
  "bad_method root =
     out_bind (json_contains root ''method'') (\<lambda>has.
     if \<not> has then Return True
     else out_bind (json_at root ''method'') (\<lambda>v. Return (json_type v \<noteq> str_type)))"

definition Check :: "json \<Rightarrow> json \<Rightarrow> (bool \<times> json) outcome" where
  "Check root err =
     out_bind (bad_version root) (\<lambda>b1.
     if b1 then out_bind (check_error err) (\<lambda>e. Return (False, e))
     else out_bind (bad_id root) (\<lambda>b2.
     if b2 then out_bind (check_error err) (\<lambda>e. out_bind (json_set e ''error'' (JObj [])) (\<lambda>e'. Return (False, e')))
     else out_bind (bad_method root) (\<lambda>b3.
     if b3 then out_bind (check_error err) (\<lambda>e. Return (False, e))
     else Return (True, err))))"

text \<open>
  \<open>Handler::Process(const Value&, Value&)\<close>. After a failed check the log statement reads the error
  value as a string. The forged \<open>err\<close> of an unknown method is never used: the member is the null
  value \<open>error\<close>.
\<close>

definition Process :: "'w rpc_method list \<Rightarrow> json \<Rightarrow> json \<Rightarrow> ('w, bool \<times> json) io" where
  "Process ms root response =
     io_bind (io_of (Check root JNull)) (\<lambda>(ok, err).
     if \<not> ok then io_bind (io_of (json_get_str err)) (\<lambda>_. io_return (False, err))
     else
     io_bind (io_of (out_bind (json_at root ''method'') json_get_str)) (\<lambda>method.
     case (if method \<noteq> [] then Lookup method ms else None) of
       Some rpc \<Rightarrow> m_call rpc (table ms) root response
     | None \<Rightarrow>
         io_bind (io_of (json_contains root ''id'')) (\<lambda>has.
         io_bind (io_of (if has then json_at root ''id'' else Return (JStr ''0''))) (\<lambda>i.
         io_return (False, JObj [(''id'', i), (''jsonrpc'', JStr ''2.0''), (''error'', err)])))))"

text \<open>The loop over a batch: every request is processed, the non-null responses are collected.\<close>

fun batch_loop :: "'w rpc_method list \<Rightarrow> json list \<Rightarrow> nat \<Rightarrow> json \<Rightarrow> ('w, json) io" where
  "batch_loop ms [] j response = io_return response"
| "batch_loop ms (r # rs) j response =
     io_bind (Process ms r JNull) (\<lambda>(_, ret).
     if \<not> json_is_null ret
     then io_bind (io_of (json_set_index response j ret)) (\<lambda>response'. batch_loop ms rs (Suc j) response')
     else batch_loop ms rs j response)"

text \<open>\<open>Handler::Process(const std::string&, Value&)\<close>; \<open>NULL\<close> is the integer 0.\<close>

definition Process_msg :: "(string \<Rightarrow> json option) \<Rightarrow> 'w rpc_method list \<Rightarrow> string \<Rightarrow> json \<Rightarrow> ('w, bool \<times> json) io" where
  "Process_msg rd ms msg response =
     (case rd msg of
        None \<Rightarrow>
          io_bind (io_of (json_set response ''id'' (JInt 0))) (\<lambda>r1.
          io_bind (io_of (json_set r1 ''jsonrpc'' (JStr ''2.0''))) (\<lambda>r2.
          io_bind (io_of (json_set JNull ''code'' (JInt (- 32700)))) (\<lambda>e1.
          io_bind (io_of (json_set e1 ''message'' (JStr ''Parse error.''))) (\<lambda>e2.
          io_bind (io_of (json_set r2 ''error'' e2)) (\<lambda>r3. io_return (False, r3))))))
      | Some root \<Rightarrow>
          if json_type root = array_type
          then io_bind (io_of (json_get_array root)) (\<lambda>arr.
               io_bind (batch_loop ms arr 0 response) (\<lambda>r. io_return (True, r)))
          else Process ms root response)"

section \<open>Lemmas\<close>

text \<open>A well-formed request and the method it names.\<close>

definition request_ok :: "json \<Rightarrow> string \<Rightarrow> bool" where
  "request_ok root method \<longleftrightarrow> (\<exists>ps. root = JObj ps \<and> pairs_find ''jsonrpc'' ps = Some (JStr ''2.0'')
     \<and> (case pairs_find ''id'' ps of None \<Rightarrow> True | Some v \<Rightarrow> json_type v \<notin> {array_type, obj_type})
     \<and> pairs_find ''method'' ps = Some (JStr method))"

lemma json_set_null [simp]: "json_set JNull key x = Throw Runtime_error"
  by (simp add: json_set_def)

lemma check_error_null [simp]: "check_error JNull = Throw Runtime_error"
  by (simp add: check_error_def)

lemma Check_null:
  "Check root JNull = (if \<exists>method. request_ok root method then Return (True, JNull) else Throw Runtime_error)"
proof (cases root)
  case (JObj ps)
  show ?thesis
  proof (cases "pairs_find ''jsonrpc'' ps")
    case None
    with JObj show ?thesis
      by (simp add: Check_def bad_version_def json_is_null_def json_contains_def request_ok_def)
  next
    case (Some v)
    show ?thesis
    proof (cases "v = JStr ''2.0''")
      case True
      with JObj Some show ?thesis
        by (auto simp: Check_def bad_version_def bad_id_def bad_method_def json_is_null_def json_contains_def json_at_def
            json_type_str request_ok_def split: option.splits)
    next
      case False
      with JObj Some show ?thesis
        by (cases v) (auto simp: Check_def bad_version_def json_is_null_def json_contains_def json_at_def request_ok_def)
    qed
  qed
qed (auto simp: Check_def bad_version_def json_is_null_def json_contains_def request_ok_def)

lemma request_ok_method: "request_ok root a \<Longrightarrow> request_ok root b \<Longrightarrow> a = b"
  by (auto simp: request_ok_def)

lemma Process_ok:
  assumes "request_ok root method"
  shows "Process ms root response =
    (case (if method \<noteq> [] then Lookup method ms else None) of
       Some rpc \<Rightarrow> m_call rpc (table ms) root response
     | None \<Rightarrow> io_return (False, JObj [(''id'', case json_at root ''id'' of Return i \<Rightarrow> i | _ \<Rightarrow> JStr ''0''),
         (''jsonrpc'', JStr ''2.0''), (''error'', JNull)]))"
proof -
  have "Check root JNull = Return (True, JNull)" using assms by (auto simp: Check_null)
  with assms show ?thesis
    by (auto simp: Process_def request_ok_def json_at_def json_contains_def split: option.splits)
qed

lemma Process_bad: "\<nexists>method. request_ok root method \<Longrightarrow> Process ms root response = io_throw Runtime_error"
  by (simp add: Process_def Check_null io_of_def io_throw_def io_bind_def fun_eq_iff)

section \<open>Properties\<close>

lemma Lookup_first:
  "\<forall>x \<in> set pre. m_name x \<noteq> m_name m \<Longrightarrow> Lookup (m_name m) (pre @ m # post) = Some m"
  by (induction pre) auto

lemma Lookup_none: "\<forall>x \<in> set ms. m_name x \<noteq> name \<Longrightarrow> Lookup name ms = None"
  by (induction ms) auto

lemma erase_method_gone:
  "distinct (map m_name ms) \<Longrightarrow> x \<in> set (erase_method name ms) \<Longrightarrow> m_name x \<noteq> name"
  by (induction ms) (force split: if_splits)+

text \<open>The answer to a request for a method that is not known: its id, or \<open>"0"\<close>, and a null error.\<close>

definition unknown_method :: "json \<Rightarrow> json" where
  "unknown_method root = JObj [(''id'', case json_at root ''id'' of Return i \<Rightarrow> i | _ \<Rightarrow> JStr ''0''),
     (''jsonrpc'', JStr ''2.0''), (''error'', JNull)]"

text \<open>
  C34: Dispatch. A well-formed request is handed, unchanged, to the first method registered under exactly the name
  it gives, whatever is registered before and behind it, and the method's answer is the answer. A request whose
  name is empty or not registered is answered with its id and a null error and changes nothing. Requests for a
  method that was deleted (other than \<open>system.describe\<close>, and registered once) are answered so, too.
\<close>

theorem rpc_dispatch:
  assumes "request_ok root method"
  shows "(\<forall>pre m post. ms = pre @ m # post \<and> m_name m = method \<and> method \<noteq> [] \<and> (\<forall>x \<in> set pre. m_name x \<noteq> method)
        \<longrightarrow> Process ms root response w = m_call m (table ms) root response w)
    \<and> (method = [] \<or> (\<forall>m \<in> set ms. m_name m \<noteq> method)
        \<longrightarrow> Process ms root response w = (Return (False, unknown_method root), w))
    \<and> (method \<noteq> ''system.describe'' \<and> distinct (map m_name ms)
        \<longrightarrow> Process (DeleteMethod method ms) root response w = (Return (False, unknown_method root), w))"
proof (intro conjI allI impI)
  note run = Process_ok [OF assms, THEN fun_cong]
  fix pre m post
  assume m: "ms = pre @ m # post \<and> m_name m = method \<and> method \<noteq> [] \<and> (\<forall>x \<in> set pre. m_name x \<noteq> method)"
  then have "Lookup method ms = Some m" using Lookup_first [of pre m post] by auto
  with m show "Process ms root response w = m_call m (table ms) root response w" by (simp add: run)
next
  assume "method = [] \<or> (\<forall>m \<in> set ms. m_name m \<noteq> method)"
  then show "Process ms root response w = (Return (False, unknown_method root), w)"
    using Lookup_none [of ms "method"] by (auto simp: Process_ok [OF assms] unknown_method_def)
next
  assume d: "method \<noteq> ''system.describe'' \<and> distinct (map m_name ms)"
  then have "\<forall>x \<in> set (DeleteMethod method ms). m_name x \<noteq> method"
    using erase_method_gone [of ms] by (simp add: DeleteMethod_def)
  from Lookup_none [OF this] show "Process (DeleteMethod method ms) root response w = (Return (False, unknown_method root), w)"
    by (simp add: Process_ok [OF assms] unknown_method_def)
qed

text \<open>Two methods of the same name behind \<open>system.describe\<close>: the first one answers; another name is not known.\<close>

definition two_echoes :: "unit rpc_method list" where
  "two_echoes = AddMethod \<lparr>m_name = ''echo'', m_description = JNull, m_call = (\<lambda>ms msg response. io_return (True, JInt 2))\<rparr>
     (AddMethod \<lparr>m_name = ''echo'', m_description = JNull, m_call = (\<lambda>ms msg response. io_return (True, JInt 1))\<rparr> new_Handler)"

theorem rpc_dispatch_witness:
  "Process two_echoes (JObj [(''jsonrpc'', JStr ''2.0''), (''id'', JInt 7), (''method'', JStr ''echo'')]) JNull () = (Return (True, JInt 1), ())
   \<and> Process two_echoes (JObj [(''jsonrpc'', JStr ''2.0''), (''id'', JInt 7), (''method'', JStr ''nope'')]) JNull ()
     = (Return (False, JObj [(''id'', JInt 7), (''jsonrpc'', JStr ''2.0''), (''error'', JNull)]), ())"
proof
  let ?echo = "JObj [(''jsonrpc'', JStr ''2.0''), (''id'', JInt 7), (''method'', JStr ''echo'')]"
  let ?nope = "JObj [(''jsonrpc'', JStr ''2.0''), (''id'', JInt 7), (''method'', JStr ''nope'')]"
  let ?m = "\<lparr>m_name = ''echo'', m_description = JNull, m_call = (\<lambda>ms msg response. io_return (True, JInt 1))\<rparr> :: unit rpc_method"
  have ms: "two_echoes = new_Handler @ ?m # [\<lparr>m_name = ''echo'', m_description = JNull, m_call = (\<lambda>ms msg response. io_return (True, JInt 2))\<rparr>]"
    by (simp add: two_echoes_def AddMethod_def)
  have "request_ok ?echo ''echo''" by (simp add: request_ok_def)
  from rpc_dispatch [OF this, of two_echoes JNull "()", THEN conjunct1, rule_format, of new_Handler ?m] ms
  show "Process two_echoes ?echo JNull () = (Return (True, JInt 1), ())"
    by (simp add: new_Handler_def AddMethod_def io_simps)
  have "request_ok ?nope ''nope''" by (simp add: request_ok_def)
  from rpc_dispatch [OF this, of two_echoes JNull "()", THEN conjunct2, THEN conjunct1]
  show "Process two_echoes ?nope JNull () = (Return (False, JObj [(''id'', JInt 7), (''jsonrpc'', JStr ''2.0''), (''error'', JNull)]), ())"
    by (simp add: ms new_Handler_def AddMethod_def unknown_method_def json_at_def)
qed

text \<open>
  A text that is not a well-formed request is never answered with an error response: with the
  null response value the server passes, text that does not parse and every single request that
  fails the check throw a \<open>runtime_error\<close>, without effect on the world.
\<close>

lemma rpc_malformed_throws:
  assumes "rd msg = None \<or> (\<exists>root. rd msg = Some root \<and> json_type root \<noteq> array_type \<and> (\<nexists>method. request_ok root method))"
  shows "Process_msg rd ms msg JNull w = (Throw Runtime_error, w)"
  using assms
proof (elim disjE exE conjE)
  fix root assume "rd msg = Some root" "json_type root \<noteq> array_type" "\<nexists>method. request_ok root method"
  then show ?thesis by (simp add: Process_msg_def Process_bad)
qed (simp add: Process_msg_def io_simps)

lemma rpc_malformed_throws_instance:
  "Process_msg (\<lambda>_. Some (JObj [(''method'', JStr ''an.info'')])) new_Handler ''x'' JNull () = (Throw Runtime_error, ())"
proof -
  have "\<nexists>method. request_ok (JObj [(''method'', JStr ''an.info'')]) method" by (simp add: request_ok_def)
  then show ?thesis
    using rpc_malformed_throws [of "\<lambda>_. Some (JObj [(''method'', JStr ''an.info'')])" "''x''" new_Handler "()"] by simp
qed

text \<open>
  A batch is never answered with an array of responses: as soon as one of its requests produces
  a response, storing it in the (null) response value throws, after the effects of the requests
  processed so far. If the call returns, there was no response at all.
\<close>

lemma rpc_batch_never_answers:
  assumes "rd msg = Some (JArr rs)" and "Process_msg rd ms msg JNull w = (Return (b, response), w')"
  shows "response = JNull"
proof -
  have "batch_loop ms rs j JNull w = (Return r, w') \<Longrightarrow> r = JNull" for j w r
  proof (induction rs arbitrary: j w)
    case (Cons x rs)
    from Cons.prems obtain ok ret w1 where "Process ms x JNull w = (Return (ok, ret), w1)"
      and step: "(if \<not> json_is_null ret then io_bind (io_of (json_set_index JNull j ret)) (\<lambda>r'. batch_loop ms rs (Suc j) r')
           else batch_loop ms rs j JNull) w1 = (Return r, w')"
      by (auto elim!: io_bind_returnE split: if_splits)
    then show ?case using Cons.IH by (auto simp: json_set_index_def io_of_def io_bind_def split: if_splits)
  qed simp
  with assms show ?thesis by (auto simp: Process_msg_def elim!: io_bind_returnE)
qed

lemma rpc_batch_never_answers_instance:
  "Process_msg (\<lambda>_. Some (JArr [])) new_Handler ''[]'' JNull () = (Return (True, JNull), ())"
proof -
  obtain b r w' where run: "Process_msg (\<lambda>_. Some (JArr [])) new_Handler ''[]'' JNull () = (Return (b, r), w')"
    by (simp add: Process_msg_def io_simps)
  from rpc_batch_never_answers [OF _ run] have "r = JNull" by blast
  with run show ?thesis by (simp add: Process_msg_def io_simps)
qed

end
