(* ===== verification/Filesystem.thy ===== *)
theory Filesystem
  imports Prelude
begin

text \<open>
  The file system as the program sees it. Boost.Filesystem and the operating system are not part of
  the repository, so the operations the sources call are a parameter of every definition that uses
  them: a record \<open>fs_ops\<close> of functions on an unknown world \<open>'w\<close>. What the proofs rely on are two
  predicates of documented behaviour, stated over a view of the world as a map from paths to nodes:

  \<^item> \<open>fs_faulty\<close>: queries, listings and reads answer from the view. A mutation that reports success changes
    the view as documented, and any of them may report failure at any time (permissions, a full disk). Of the
    bytes written to an open file some prefix arrives; the writer is not told (an \<open>ofstream\<close> only sets its
    state, which the sources do not look at after writing).
  \<^item> \<open>fs_spec\<close>: moreover all bytes written to an open file arrive (\<open>fs_full_writes\<close>). Opening a file, making
    directories and links, and removing may still fail.

  A theorem that assumes \<open>fs_spec\<close> thus speaks of runs without short writes. Both predicates describe worlds in
  which a path string names one node: no symbolic links to directories and no \<open>.\<close>, \<open>..\<close> or doubled separators
  in use.

  \<open>posix_ops\<close> is an executable in-memory instance with write-protected paths; it satisfies \<open>fs_spec\<close> and serves
  the concrete examples. \<open>short_ops n\<close> is the same machine with writes of at most \<open>n\<close> bytes; it satisfies
  \<open>fs_faulty\<close>.
\<close>

section \<open>Nodes, paths and operations\<close>

datatype node = File string | Dir | Symlink string

type_synonym view = "string \<rightharpoonup> node"

abbreviation slash :: char where
  "slash \<equiv> CHR ''/''"

text \<open>Boost's \<open>path::remove_filename\<close>: what precedes the last separator.\<close>

definition remove_filename :: "string \<Rightarrow> string" where
  "remove_filename p = rev (tl (dropWhile (\<lambda>c. c \<noteq> slash) (rev p)))"

text \<open>Boost's \<open>path::filename\<close>: what follows the last separator.\<close>

definition filename :: "string \<Rightarrow> string" where
  "filename p = rev (takeWhile (\<lambda>c. c \<noteq> slash) (rev p))"

record 'w fs_ops =
  fs_exists :: "string \<Rightarrow> 'w \<Rightarrow> bool"
  fs_is_directory :: "string \<Rightarrow> 'w \<Rightarrow> bool"
  fs_create_directory :: "string \<Rightarrow> ('w, bool) io"
  fs_create_directories :: "string \<Rightarrow> ('w, bool) io"
  fs_create_symlink :: "string \<Rightarrow> string \<Rightarrow> ('w, unit) io"
  fs_remove :: "string \<Rightarrow> ('w, bool) io"
  fs_remove_all :: "string \<Rightarrow> ('w, nat) io"
  fs_file_size :: "string \<Rightarrow> ('w, nat) io"
  fs_directory :: "string \<Rightarrow> ('w, string list) io" \<comment> \<open>the paths a \<open>directory_iterator\<close> visits\<close>
  fs_read :: "string \<Rightarrow> 'w \<Rightarrow> string option" \<comment> \<open>\<open>ifstream\<close>: \<open>None\<close> when not \<open>good()\<close> after opening\<close>
  fs_open_write :: "string \<Rightarrow> 'w \<Rightarrow> bool \<times> 'w" \<comment> \<open>\<open>ofstream\<close>, truncating; \<open>False\<close> when not \<open>good()\<close>\<close>
  fs_append :: "string \<Rightarrow> string \<Rightarrow> 'w \<Rightarrow> 'w" \<comment> \<open>bytes written to the open stream of that path\<close>

text \<open>A path resolved through at most one symbolic link.\<close>

definition follow :: "view \<Rightarrow> string \<Rightarrow> node option" where
  "follow m p = (case m p of
       Some (Symlink t) \<Rightarrow> (case m t of Some (Symlink _) \<Rightarrow> None | r \<Rightarrow> r)
     | r \<Rightarrow> r)"

definition parent_ok :: "view \<Rightarrow> string \<Rightarrow> bool" where
  "parent_ok m p \<longleftrightarrow> remove_filename p = [] \<or> m (remove_filename p) = Some Dir"

definition children :: "view \<Rightarrow> string \<Rightarrow> string set" where
  "children m p = {q. m q \<noteq> None \<and> (\<exists>n. n \<noteq> [] \<and> slash \<notin> set n \<and> q = p @ slash # n)}"

definition below :: "string \<Rightarrow> string \<Rightarrow> bool" where
  "below p q \<longleftrightarrow> q = p \<or> prefix (p @ [slash]) q"

section \<open>Documented behaviour\<close>

definition fs_queries :: "'w fs_ops \<Rightarrow> ('w \<Rightarrow> view) \<Rightarrow> bool" where
  "fs_queries fs nd \<longleftrightarrow>
     (\<forall>p w. fs_exists fs p w = (follow (nd w) p \<noteq> None))
   \<and> (\<forall>p w. fs_is_directory fs p w = (follow (nd w) p = Some Dir))
   \<and> (\<forall>p w bs. follow (nd w) p = Some (File bs) \<longrightarrow>
        fs_read fs p w = Some bs \<and> fs_file_size fs p w = (Return (length bs), w))
   \<and> (\<forall>p w. follow (nd w) p = None \<longrightarrow> fs_read fs p w = None)
   \<and> (\<forall>p w. nd w p = Some Dir \<longrightarrow>
        (\<exists>qs. fs_directory fs p w = (Return qs, w) \<and> distinct qs \<and> set qs = children (nd w) p))
   \<and> (\<forall>p w. nd w p = None \<longrightarrow> fs_directory fs p w = (Throw Filesystem_error, w))"

definition fs_directories :: "'w fs_ops \<Rightarrow> ('w \<Rightarrow> view) \<Rightarrow> bool" where
  "fs_directories fs nd \<longleftrightarrow>
     (\<forall>p w r w'. fs_create_directory fs p w = (r, w') \<longrightarrow>
        r \<noteq> Stuck \<and> nd w' = (if r = Return True then (nd w)(p \<mapsto> Dir) else nd w)
        \<and> (r = Return True \<longrightarrow> nd w p = None \<and> parent_ok (nd w) p))
   \<and> (\<forall>p w r w'. fs_create_directories fs p w = (r, w') \<longrightarrow>
        r \<noteq> Stuck \<and> (r = Return True \<longrightarrow> nd w' p = Some Dir)
        \<and> (\<forall>q. nd w q \<noteq> None \<longrightarrow> nd w' q = nd w q)
        \<and> (\<forall>q. nd w q = None \<longrightarrow> nd w' q \<noteq> None \<longrightarrow> nd w' q = Some Dir \<and> below q p))"

definition fs_removal :: "'w fs_ops \<Rightarrow> ('w \<Rightarrow> view) \<Rightarrow> bool" where
  "fs_removal fs nd \<longleftrightarrow>
     (\<forall>p w r w'. fs_remove fs p w = (r, w') \<longrightarrow>
        (case r of
           Return b \<Rightarrow> b = (nd w p \<noteq> None) \<and> nd w' = (nd w)(p := None)
         | Throw e \<Rightarrow> e = Filesystem_error \<and> nd w' = nd w
         | Stuck \<Rightarrow> False))
   \<and> (\<forall>p w r w'. fs_remove_all fs p w = (r, w') \<longrightarrow>
        (case r of
           Return n \<Rightarrow> (n = 0) = (nd w p = None)
             \<and> nd w' = (\<lambda>q. if below p q then None else nd w q)
         | Throw e \<Rightarrow> e = Filesystem_error \<and> (\<forall>q. \<not> below p q \<or> q = p \<longrightarrow> nd w' q = nd w q)
             \<and> (\<forall>q. nd w' q \<noteq> None \<longrightarrow> nd w' q = nd w q)
         | Stuck \<Rightarrow> False))"

definition fs_writing :: "'w fs_ops \<Rightarrow> ('w \<Rightarrow> view) \<Rightarrow> bool" where
  "fs_writing fs nd \<longleftrightarrow>
     (\<forall>t p w r w'. fs_create_symlink fs t p w = (r, w') \<longrightarrow>
        (case r of
           Return _ \<Rightarrow> parent_ok (nd w) p \<and> nd w p = None \<and> nd w' = (nd w)(p \<mapsto> Symlink t)
         | Throw e \<Rightarrow> e = Filesystem_error \<and> nd w' = nd w
         | Stuck \<Rightarrow> False))
   \<and> (\<forall>p w b w'. fs_open_write fs p w = (b, w') \<longrightarrow> (\<forall>t. nd w p \<noteq> Some (Symlink t)) \<longrightarrow>
        nd w' = (if b then (nd w)(p \<mapsto> File []) else nd w) \<and> (b \<longrightarrow> parent_ok (nd w) p \<and> nd w p \<noteq> Some Dir))
   \<and> (\<forall>p w bs old. nd w p = Some (File old) \<longrightarrow>
        (\<exists>n. nd (fs_append fs p bs w) = (nd w)(p \<mapsto> File (old @ take n bs))))"

definition fs_faulty :: "'w fs_ops \<Rightarrow> ('w \<Rightarrow> view) \<Rightarrow> bool" where
  "fs_faulty fs nd \<longleftrightarrow> fs_queries fs nd \<and> fs_directories fs nd \<and> fs_removal fs nd \<and> fs_writing fs nd"

definition fs_full_writes :: "'w fs_ops \<Rightarrow> ('w \<Rightarrow> view) \<Rightarrow> bool" where
  "fs_full_writes fs nd \<longleftrightarrow>
     (\<forall>p w bs old. nd w p = Some (File old) \<longrightarrow> nd (fs_append fs p bs w) = (nd w)(p \<mapsto> File (old @ bs)))"

definition fs_spec :: "'w fs_ops \<Rightarrow> ('w \<Rightarrow> view) \<Rightarrow> bool" where
  "fs_spec fs nd \<longleftrightarrow> fs_faulty fs nd \<and> fs_full_writes fs nd"

subsection \<open>Consequences in the form proofs use\<close>

lemma faulty_exists_iff: "fs_faulty fs nd \<Longrightarrow> fs_exists fs p w = (follow (nd w) p \<noteq> None)"
  by (simp add: fs_faulty_def fs_queries_def)

lemma faulty_is_directory_iff: "fs_faulty fs nd \<Longrightarrow> fs_is_directory fs p w = (follow (nd w) p = Some Dir)"
  by (simp add: fs_faulty_def fs_queries_def)

lemma faulty_read_file: "fs_faulty fs nd \<Longrightarrow> follow (nd w) p = Some (File bs) \<Longrightarrow> fs_read fs p w = Some bs"
  by (simp add: fs_faulty_def fs_queries_def)

lemma faulty_read_missing: "fs_faulty fs nd \<Longrightarrow> follow (nd w) p = None \<Longrightarrow> fs_read fs p w = None"
  by (simp add: fs_faulty_def fs_queries_def)

lemma faulty_file_size_file:
  "fs_faulty fs nd \<Longrightarrow> follow (nd w) p = Some (File bs) \<Longrightarrow> fs_file_size fs p w = (Return (length bs), w)"
  by (simp add: fs_faulty_def fs_queries_def)

lemma faulty_directory_dir:
  assumes "fs_faulty fs nd" and "nd w p = Some Dir"
  obtains qs where "fs_directory fs p w = (Return qs, w)" and "distinct qs" and "set qs = children (nd w) p"
  using assms unfolding fs_faulty_def fs_queries_def by metis

lemma faulty_directory_missing:
  "fs_faulty fs nd \<Longrightarrow> nd w p = None \<Longrightarrow> fs_directory fs p w = (Throw Filesystem_error, w)"
  by (simp add: fs_faulty_def fs_queries_def)

lemma faulty_create_directory_effect:
  assumes "fs_faulty fs nd" and "fs_create_directory fs p w = (r, w')"
  shows "r \<noteq> Stuck" and "nd w' = (if r = Return True then (nd w)(p \<mapsto> Dir) else nd w)"
    and "r = Return True \<Longrightarrow> nd w p = None \<and> parent_ok (nd w) p"
  using assms unfolding fs_faulty_def fs_directories_def by metis+

lemma faulty_create_directories_effect:
  assumes "fs_faulty fs nd" and "fs_create_directories fs p w = (r, w')"
  shows "r \<noteq> Stuck" and "r = Return True \<Longrightarrow> nd w' p = Some Dir"
    and "nd w q \<noteq> None \<Longrightarrow> nd w' q = nd w q"
    and "nd w q = None \<Longrightarrow> nd w' q \<noteq> None \<Longrightarrow> nd w' q = Some Dir \<and> below q p"
  using assms unfolding fs_faulty_def fs_directories_def by metis+

lemma faulty_remove_effect:
  assumes "fs_faulty fs nd" and "fs_remove fs p w = (r, w')"
  shows "(\<exists>b. r = Return b \<and> b = (nd w p \<noteq> None) \<and> nd w' = (nd w)(p := None))
       \<or> (r = Throw Filesystem_error \<and> nd w' = nd w)"
proof -
  from assms have "case r of
           Return b \<Rightarrow> b = (nd w p \<noteq> None) \<and> nd w' = (nd w)(p := None)
         | Throw e \<Rightarrow> e = Filesystem_error \<and> nd w' = nd w
         | Stuck \<Rightarrow> False"
    unfolding fs_faulty_def fs_removal_def by blast
  then show ?thesis by (cases r) auto
qed

lemma faulty_remove_all_effect:
  assumes "fs_faulty fs nd" and "fs_remove_all fs p w = (r, w')"
  shows "(\<exists>n. r = Return n \<and> (n = 0) = (nd w p = None) \<and> nd w' = (\<lambda>q. if below p q then None else nd w q))
       \<or> (r = Throw Filesystem_error \<and> (\<forall>q. \<not> below p q \<or> q = p \<longrightarrow> nd w' q = nd w q)
          \<and> (\<forall>q. nd w' q \<noteq> None \<longrightarrow> nd w' q = nd w q))"
proof -
  from assms have "case r of
           Return n \<Rightarrow> (n = 0) = (nd w p = None)
             \<and> nd w' = (\<lambda>q. if below p q then None else nd w q)
         | Throw e \<Rightarrow> e = Filesystem_error \<and> (\<forall>q. \<not> below p q \<or> q = p \<longrightarrow> nd w' q = nd w q)
             \<and> (\<forall>q. nd w' q \<noteq> None \<longrightarrow> nd w' q = nd w q)
         | Stuck \<Rightarrow> False"
    unfolding fs_faulty_def fs_removal_def by blast
  then show ?thesis by (cases r) auto
qed

lemma faulty_create_symlink_effect:
  assumes "fs_faulty fs nd" and "fs_create_symlink fs t p w = (r, w')"
  shows "(r = Return () \<and> parent_ok (nd w) p \<and> nd w p = None \<and> nd w' = (nd w)(p \<mapsto> Symlink t))
       \<or> (r = Throw Filesystem_error \<and> nd w' = nd w)"
proof -
  from assms have "case r of
           Return _ \<Rightarrow> parent_ok (nd w) p \<and> nd w p = None \<and> nd w' = (nd w)(p \<mapsto> Symlink t)
         | Throw e \<Rightarrow> e = Filesystem_error \<and> nd w' = nd w
         | Stuck \<Rightarrow> False"
    unfolding fs_faulty_def fs_writing_def by blast
  then show ?thesis by (cases r) auto
qed

lemma faulty_open_write_effect:
  assumes "fs_faulty fs nd" and "fs_open_write fs p w = (b, w')" and "\<And>t. nd w p \<noteq> Some (Symlink t)"
  shows "nd w' = (if b then (nd w)(p \<mapsto> File []) else nd w)"
    and "b \<Longrightarrow> parent_ok (nd w) p \<and> nd w p \<noteq> Some Dir"
  using assms unfolding fs_faulty_def fs_writing_def by metis+

lemma faulty_append_effect:
  assumes "fs_faulty fs nd" and "nd w p = Some (File old)"
  obtains n where "nd (fs_append fs p bs w) = (nd w)(p \<mapsto> File (old @ take n bs))"
  using assms unfolding fs_faulty_def fs_writing_def by blast

lemma full_append_effect:
  "fs_full_writes fs nd \<Longrightarrow> nd w p = Some (File old) \<Longrightarrow> nd (fs_append fs p bs w) = (nd w)(p \<mapsto> File (old @ bs))"
  unfolding fs_full_writes_def by blast

text \<open>The same for a file system without short writes.\<close>

lemma fs_spec_faulty: "fs_spec fs nd \<Longrightarrow> fs_faulty fs nd"
  by (simp add: fs_spec_def)

lemma fs_append_effect:
  "fs_spec fs nd \<Longrightarrow> nd w p = Some (File old) \<Longrightarrow> nd (fs_append fs p bs w) = (nd w)(p \<mapsto> File (old @ bs))"
  unfolding fs_spec_def by (elim conjE) (rule full_append_effect)

lemmas fs_exists_iff = faulty_exists_iff [OF fs_spec_faulty]
lemmas fs_is_directory_iff = faulty_is_directory_iff [OF fs_spec_faulty]
lemmas fs_read_file = faulty_read_file [OF fs_spec_faulty]
lemmas fs_read_missing = faulty_read_missing [OF fs_spec_faulty]
lemmas fs_file_size_file = faulty_file_size_file [OF fs_spec_faulty]
lemmas fs_directory_dir = faulty_directory_dir [OF fs_spec_faulty]
lemmas fs_directory_missing = faulty_directory_missing [OF fs_spec_faulty]
lemmas fs_create_directory_effect = faulty_create_directory_effect [OF fs_spec_faulty]
lemmas fs_create_directories_effect = faulty_create_directories_effect [OF fs_spec_faulty]
lemmas fs_remove_effect = faulty_remove_effect [OF fs_spec_faulty]
lemmas fs_remove_all_effect = faulty_remove_all_effect [OF fs_spec_faulty]
lemmas fs_create_symlink_effect = faulty_create_symlink_effect [OF fs_spec_faulty]
lemmas fs_open_write_effect = faulty_open_write_effect [OF fs_spec_faulty]

lemma remove_filename_snoc [simp]: "slash \<notin> set n \<Longrightarrow> remove_filename (p @ slash # n) = p"
proof -
  assume "slash \<notin> set n"
  then have "dropWhile (\<lambda>c. c \<noteq> slash) (rev n @ slash # rev p) = slash # rev p"
    by (subst dropWhile_append2) auto
  then show ?thesis by (simp add: remove_filename_def)
qed

lemma filename_snoc [simp]: "slash \<notin> set n \<Longrightarrow> filename (p @ slash # n) = n"
  by (simp add: filename_def)

lemma below_refl [simp]: "below p p"
  by (simp add: below_def)

lemma below_append [simp]: "below p (p @ slash # q)"
  by (simp add: below_def)

lemma not_below_apart: "apart a b \<Longrightarrow> \<not> below (a @ x) (b @ y)"
  using apart_append_neq [of a b x y] apart_not_prefix [of a b "x @ [slash]" y]
  by (auto simp: below_def)

lemma follow_File: "m p = Some (File bs) \<Longrightarrow> follow m p = Some (File bs)"
  by (simp add: follow_def)

lemma follow_Dir: "m p = Some Dir \<Longrightarrow> follow m p = Some Dir"
  by (simp add: follow_def)

lemma follow_missing: "m p = None \<Longrightarrow> follow m p = None"
  by (simp add: follow_def)

lemma follow_Symlink: "m p = Some (Symlink t) \<Longrightarrow> m t = Some (File bs) \<Longrightarrow> follow m p = Some (File bs)"
  by (simp add: follow_def)

section \<open>Directories made on demand\<close>

text \<open>\<open>if(!fs::exists(p)) if(!fs::create_directory(p)) return false;\<close> answers whether to go on.\<close>

definition require_directory :: "'w fs_ops \<Rightarrow> string \<Rightarrow> ('w, bool) io" where
  "require_directory fs p = (\<lambda>w. if \<not> fs_exists fs p w then fs_create_directory fs p w else (Return True, w))"

text \<open>The same with \<open>fs::create_directories\<close>.\<close>

definition require_directories :: "'w fs_ops \<Rightarrow> string \<Rightarrow> ('w, bool) io" where
  "require_directories fs p = (\<lambda>w. if \<not> fs_exists fs p w then fs_create_directories fs p w else (Return True, w))"

text \<open>What making directories can change: it only fills in missing ancestors.\<close>

definition dirs_added :: "view \<Rightarrow> view \<Rightarrow> string \<Rightarrow> bool" where
  "dirs_added m m' p \<longleftrightarrow> (\<forall>q. m q \<noteq> None \<longrightarrow> m' q = m q)
     \<and> (\<forall>q. m q = None \<longrightarrow> m' q \<noteq> None \<longrightarrow> m' q = Some Dir \<and> below q p)"

lemma dirs_added_cases: "dirs_added m m' p \<Longrightarrow> m' q = m q \<or> (m q = None \<and> m' q = Some Dir \<and> below q p)"
  by (cases "m q"; cases "m' q") (auto simp: dirs_added_def)

lemma dirs_added_keep: "dirs_added m m' p \<Longrightarrow> m q = Some n \<Longrightarrow> m' q = Some n"
  by (simp add: dirs_added_def)

lemma dirs_added_new: "dirs_added m m' p \<Longrightarrow> m' q = Some n \<Longrightarrow> n \<noteq> Dir \<Longrightarrow> m q = Some n"
  using dirs_added_cases [of m m' p q] by auto

lemma faulty_require_directories_effect:
  assumes "fs_faulty fs nd" and "require_directories fs p w = (r, w')"
  shows "r \<noteq> Stuck" and "dirs_added (nd w) (nd w') p" and "r = Return True \<Longrightarrow> follow (nd w') p \<noteq> None"
proof -
  have "r \<noteq> Stuck \<and> dirs_added (nd w) (nd w') p \<and> (r = Return True \<longrightarrow> follow (nd w') p \<noteq> None)"
  proof (cases "fs_exists fs p w")
    case True
    with assms show ?thesis
      by (auto simp: require_directories_def faulty_exists_iff dirs_added_def)
  next
    case False
    with assms(2) have eq: "fs_create_directories fs p w = (r, w')"
      by (simp add: require_directories_def)
    note eff = faulty_create_directories_effect [OF assms(1) eq]
    have "dirs_added (nd w) (nd w') p"
      unfolding dirs_added_def using eff(3,4) by blast
    with eff(1,2) show ?thesis by (auto simp: follow_Dir)
  qed
  then show "r \<noteq> Stuck" and "dirs_added (nd w) (nd w') p"
    and "r = Return True \<Longrightarrow> follow (nd w') p \<noteq> None" by blast+
qed

lemmas require_directories_effect = faulty_require_directories_effect [OF fs_spec_faulty]

section \<open>An executable instance\<close>

record posix =
  px_nodes :: "(string \<times> node) list"
  px_denied :: "string list" \<comment> \<open>paths at which nothing can be created or opened for writing\<close>

definition posix_nd :: "posix \<Rightarrow> view" where
  "posix_nd w = map_of (px_nodes w)"

definition px_set :: "string \<Rightarrow> node \<Rightarrow> posix \<Rightarrow> posix" where
  "px_set p n w = w\<lparr>px_nodes := (p, n) # filter (\<lambda>x. fst x \<noteq> p) (px_nodes w)\<rparr>"

definition px_exists :: "string \<Rightarrow> posix \<Rightarrow> bool" where
  "px_exists p w = (follow (posix_nd w) p \<noteq> None)"

definition px_is_directory :: "string \<Rightarrow> posix \<Rightarrow> bool" where
  "px_is_directory p w = (follow (posix_nd w) p = Some Dir)"

definition px_creatable :: "string \<Rightarrow> posix \<Rightarrow> bool" where
  "px_creatable p w \<longleftrightarrow> posix_nd w p = None \<and> parent_ok (posix_nd w) p \<and> p \<notin> set (px_denied w)"

definition px_create_directory :: "string \<Rightarrow> (posix, bool) io" where
  "px_create_directory p w =
     (if px_creatable p w then (Return True, px_set p Dir w)
      else if posix_nd w p = Some Dir then (Return False, w)
      else (Throw Filesystem_error, w))"

fun px_mkdirs :: "string list \<Rightarrow> (posix, unit) io" where
  "px_mkdirs [] w = (Return (), w)"
| "px_mkdirs (q # qs) w =
     (case posix_nd w q of
        Some Dir \<Rightarrow> px_mkdirs qs w
      | Some _ \<Rightarrow> (Throw Filesystem_error, w)
      | None \<Rightarrow> if q \<in> set (px_denied w) then (Throw Filesystem_error, w) else px_mkdirs qs (px_set q Dir w))"

fun px_prefixes :: "string \<Rightarrow> string \<Rightarrow> string list" where
  "px_prefixes seen [] = []"
| "px_prefixes seen (c # cs) =
     (if c = slash \<and> seen \<noteq> [] then rev seen # px_prefixes (c # seen) cs else px_prefixes (c # seen) cs)"

definition px_ancestors :: "string \<Rightarrow> string list" where
  "px_ancestors p = px_prefixes [] p @ [p]"

definition px_create_directories :: "string \<Rightarrow> (posix, bool) io" where
  "px_create_directories p w =
     (if posix_nd w p = Some Dir then (Return False, w)
      else io_bind (px_mkdirs (px_ancestors p)) (\<lambda>_. io_return True) w)"

definition px_create_symlink :: "string \<Rightarrow> string \<Rightarrow> (posix, unit) io" where
  "px_create_symlink t p w =
     (if px_creatable p w then (Return (), px_set p (Symlink t) w) else (Throw Filesystem_error, w))"

definition px_is_child :: "string \<Rightarrow> string \<Rightarrow> bool" where
  "px_is_child p q \<longleftrightarrow> prefix (p @ [slash]) q \<and> drop (Suc (length p)) q \<noteq> []
     \<and> slash \<notin> set (drop (Suc (length p)) q)"

definition px_directory :: "string \<Rightarrow> (posix, string list) io" where
  "px_directory p w =
     (if posix_nd w p = Some Dir then (Return (remdups (filter (px_is_child p) (map fst (px_nodes w)))), w)
      else (Throw Filesystem_error, w))"

definition px_remove :: "string \<Rightarrow> (posix, bool) io" where
  "px_remove p w =
     (if posix_nd w p = None then (Return False, w)
      else if posix_nd w p = Some Dir \<and> (\<exists>q \<in> fst ` set (px_nodes w). px_is_child p q)
      then (Throw Filesystem_error, w)
      else (Return True, w\<lparr>px_nodes := filter (\<lambda>x. fst x \<noteq> p) (px_nodes w)\<rparr>))"

definition px_remove_all :: "string \<Rightarrow> (posix, nat) io" where
  "px_remove_all p w =
     (Return (if posix_nd w p = None then 0 else length (filter (below p) (remdups (map fst (px_nodes w))))),
      w\<lparr>px_nodes := filter (\<lambda>x. \<not> below p (fst x)) (px_nodes w)\<rparr>)"

definition px_file_size :: "string \<Rightarrow> (posix, nat) io" where
  "px_file_size p w = (case follow (posix_nd w) p of
       Some (File bs) \<Rightarrow> (Return (length bs), w) | _ \<Rightarrow> (Throw Filesystem_error, w))"

definition px_read :: "string \<Rightarrow> posix \<Rightarrow> string option" where
  "px_read p w = (case follow (posix_nd w) p of Some (File bs) \<Rightarrow> Some bs | _ \<Rightarrow> None)"

definition px_open_write :: "string \<Rightarrow> posix \<Rightarrow> bool \<times> posix" where
  "px_open_write p w =
     (let q = (case posix_nd w p of Some (Symlink t) \<Rightarrow> t | _ \<Rightarrow> p) in
      if posix_nd w q \<noteq> Some Dir \<and> parent_ok (posix_nd w) q \<and> q \<notin> set (px_denied w)
      then (True, px_set q (File []) w) else (False, w))"

definition px_append :: "string \<Rightarrow> string \<Rightarrow> posix \<Rightarrow> posix" where
  "px_append p bs w = (case posix_nd w p of Some (File old) \<Rightarrow> px_set p (File (old @ bs)) w | _ \<Rightarrow> w)"

definition posix_ops :: "posix fs_ops" where
  "posix_ops = \<lparr>fs_exists = px_exists, fs_is_directory = px_is_directory,
     fs_create_directory = px_create_directory, fs_create_directories = px_create_directories,
     fs_create_symlink = px_create_symlink, fs_remove = px_remove, fs_remove_all = px_remove_all,
     fs_file_size = px_file_size, fs_directory = px_directory, fs_read = px_read,
     fs_open_write = px_open_write, fs_append = px_append\<rparr>"

lemmas px_defs = posix_ops_def px_exists_def px_is_directory_def px_create_directory_def
  px_create_directories_def px_create_symlink_def px_remove_def px_remove_all_def px_file_size_def
  px_directory_def px_read_def px_open_write_def px_append_def px_creatable_def

lemma posix_nd_set [simp]: "posix_nd (px_set p n w) = (posix_nd w)(p \<mapsto> n)"
  by (auto simp: posix_nd_def px_set_def map_of_filter_neq)

lemma px_is_child_iff: "px_is_child p q \<longleftrightarrow> (\<exists>n. n \<noteq> [] \<and> slash \<notin> set n \<and> q = p @ slash # n)"
  by (auto simp: px_is_child_def prefix_def)

lemma children_posix: "children (posix_nd w) p = set (filter (px_is_child p) (map fst (px_nodes w)))"
  by (auto simp: children_def px_is_child_iff posix_nd_def map_of_eq_None_iff)

lemma px_prefixes_below: "q \<in> set (px_prefixes seen cs) \<Longrightarrow> below q (rev seen @ cs)"
proof (induction seen cs rule: px_prefixes.induct)
  case (2 seen c cs)
  then show ?case by (auto split: if_splits simp: below_def)
qed simp

lemma px_ancestors_below: "q \<in> set (px_ancestors p) \<Longrightarrow> below q p"
  using px_prefixes_below [of q "[]" p] by (auto simp: px_ancestors_def)

lemma px_mkdirs_effect:
  assumes "px_mkdirs qs w = (r, w')"
  shows "r \<noteq> Stuck \<and> (r = Return () \<longrightarrow> (\<forall>q \<in> set qs. posix_nd w' q = Some Dir))
       \<and> (\<forall>q. posix_nd w q \<noteq> None \<longrightarrow> posix_nd w' q = posix_nd w q)
       \<and> (\<forall>q. posix_nd w q = None \<longrightarrow> posix_nd w' q \<noteq> None \<longrightarrow> posix_nd w' q = Some Dir \<and> q \<in> set qs)"
  using assms
proof (induction qs w rule: px_mkdirs.induct)
  case (2 q qs w)
  show ?case
  proof (cases "posix_nd w q")
    case None
    then show ?thesis
      using 2 by (cases "q \<in> set (px_denied w)") (auto split: if_splits)
  next
    case (Some n)
    with 2 show ?thesis by (cases n) auto
  qed
qed auto

lemma posix_fs_faulty: "fs_faulty posix_ops posix_nd"
  unfolding fs_faulty_def
proof (intro conjI)
  show "fs_queries posix_ops posix_nd"
    by (auto simp: fs_queries_def px_defs children_posix)
  show "fs_directories posix_ops posix_nd"
    unfolding fs_directories_def
  proof (intro conjI allI impI)
    fix p w r w' assume "fs_create_directories posix_ops p w = (r, w')"
    then have eq: "px_create_directories p w = (r, w')" by (simp add: posix_ops_def)
    show "r \<noteq> Stuck" using eq
      by (auto simp: px_create_directories_def io_bind_def dest: px_mkdirs_effect split: io_splits)
    show "posix_nd w' p = Some Dir" if "r = Return True" using that eq
      by (auto simp: px_create_directories_def io_bind_def px_ancestors_def dest!: px_mkdirs_effect split: io_splits)
    fix q
    show "posix_nd w' q = posix_nd w q" if "posix_nd w q \<noteq> None" using that eq
      by (auto simp: px_create_directories_def io_bind_def dest!: px_mkdirs_effect split: io_splits)
    assume new: "posix_nd w q = None" "posix_nd w' q \<noteq> None"
    have "posix_nd w' q = Some Dir \<and> q \<in> set (px_ancestors p)"
    proof (cases "px_mkdirs (px_ancestors p) w")
      case (Pair r1 w1)
      with eq new have "w' = w1"
        by (auto simp: px_create_directories_def io_bind_def split: io_splits)
      with px_mkdirs_effect [OF Pair] new show ?thesis by auto
    qed
    then show "posix_nd w' q = Some Dir" "below q p"
      by (auto dest: px_ancestors_below)
  qed (auto simp: px_defs split: if_splits)
  show "fs_removal posix_ops posix_nd"
    by (auto simp: fs_removal_def px_defs posix_nd_def map_of_filter_neq map_of_filter_fst [of "\<lambda>x. \<not> below _ x"]
        fun_eq_iff map_of_eq_None_iff filter_empty_conv split: if_splits outcome.splits)
      (force dest: map_of_SomeD simp: below_def)+
  have "posix_nd (fs_append posix_ops p bs w) = (posix_nd w)(p \<mapsto> File (old @ take (length bs) bs))"
    if "posix_nd w p = Some (File old)" for p bs w old
    using that by (simp add: px_defs)
  then have append: "\<forall>p w bs old. posix_nd w p = Some (File old) \<longrightarrow>
      (\<exists>n. posix_nd (fs_append posix_ops p bs w) = (posix_nd w)(p \<mapsto> File (old @ take n bs)))"
    by blast
  show "fs_writing posix_ops posix_nd"
    unfolding fs_writing_def
    by (intro conjI append)
      (auto simp: px_defs Let_def split: if_splits outcome.splits option.splits node.splits)
qed

lemma posix_fs_spec: "fs_spec posix_ops posix_nd"
  using posix_fs_faulty by (simp add: fs_spec_def fs_full_writes_def px_defs)

text \<open>The machine that stores at most \<open>n\<close> bytes of a write.\<close>

definition short_ops :: "nat \<Rightarrow> posix fs_ops" where
  "short_ops n = posix_ops\<lparr>fs_append := \<lambda>p bs. px_append p (take n bs)\<rparr>"

lemma short_fs_faulty: "fs_faulty (short_ops n) posix_nd"
proof -
  have "\<exists>m. posix_nd (fs_append (short_ops n) p bs w) = (posix_nd w)(p \<mapsto> File (old @ take m bs))"
    if "posix_nd w p = Some (File old)" for p bs w old
    using that by (intro exI [of _ n]) (simp add: short_ops_def px_append_def)
  with posix_fs_faulty show ?thesis
    by (simp add: fs_faulty_def fs_queries_def fs_directories_def fs_removal_def fs_writing_def short_ops_def)
qed

end
