(* ===== verification/KeyValue.thy ===== *)
theory KeyValue
  imports Crypto Filesystem
begin

text \<open>
  The key-value interface of the local storage plugins (\<open>src/daemon/plugins/localstorage.h\<close>,
  \<open>src/daemon/module_manager.h\<close>) and the key and path helpers both file-based plugins contain.

  A result (\<open>KV_ResMap\<close>) is a \<open>std::map<std::string,std::string>\<close>: a list of pairs sorted by key
  (bytewise) with unique keys. The locale \<open>kv_backend\<close> states what the object database and the RPC
  handlers rely on: a store maps each key to a set of values, \<open>put\<close> adds one, \<open>get\<close> answers with one
  of them, \<open>remove\<close> drops them all.
\<close>

section \<open>Result maps\<close>

type_synonym kv_res = "(string \<times> string) list"

text \<open>\<open>std::map::insert\<close>: keeps an existing entry.\<close>

fun kv_insert :: "string \<Rightarrow> string \<Rightarrow> kv_res \<Rightarrow> kv_res" where
  "kv_insert k v [] = [(k, v)]"
| "kv_insert k v ((k', v') # m) =
     (if k < k' then (k, v) # (k', v') # m
      else if k = k' then (k', v') # m
      else (k', v') # kv_insert k v m)"

text \<open>\<open>std::map::operator[]\<close>: creates an empty string under a missing key.\<close>

definition kv_index :: "kv_res \<Rightarrow> string \<Rightarrow> string \<times> kv_res" where
  "kv_index m k = (case map_of m k of Some v \<Rightarrow> (v, m) | None \<Rightarrow> ([], kv_insert k [] m))"

lemma map_of_kv_insert: "map_of (kv_insert k v m) = (\<lambda>x. if x = k \<and> map_of m k = None then Some v else map_of m x)"
  if "sorted (map fst m)"
  using that
proof (induction m)
  case (Cons p m)
  obtain k' v' where p: "p = (k', v')" by (cases p)
  have "map_of m k = None" if "k < k'"
    using that Cons.prems p by (force simp: map_of_eq_None_iff)
  with Cons show ?case by (auto simp: p fun_eq_iff)
qed (auto simp: fun_eq_iff)

section \<open>Keys and paths\<close>

text \<open>\<open>Blockstore::hash_to_path\<close>: \<open>std::string::insert\<close> throws \<open>out_of_range\<close> beyond the end.\<close>

definition hash_to_path :: "string \<Rightarrow> string outcome" where
  "hash_to_path inp =
     (if length inp < 4 then Throw Out_of_range
      else Return (take 2 inp @ slash # take 2 (drop 2 inp) @ slash # drop 4 inp))"

text \<open>\<open>FFStore::hash_to_path\<close>, the same two insertions.\<close>

definition ff_hash_to_path :: "string \<Rightarrow> string outcome" where
  "ff_hash_to_path inp =
     (let res = inp in
      if length res < 4 then Throw Out_of_range
      else let res4 = take 4 res @ slash # drop 4 res in Return (take 2 res4 @ slash # drop 2 res4))"

text \<open>\<open>Blockstore::validate_key\<close>: anything shorter than a rendered digest is hashed.\<close>

definition validate_key :: "(string \<Rightarrow> string) \<Rightarrow> string \<Rightarrow> string" where
  "validate_key H key = (if length key < 128 then toHex (H key) else key)"

definition ff_validate_key :: "(string \<Rightarrow> string) \<Rightarrow> string \<Rightarrow> string" where
  "ff_validate_key H key = (if length key < 128 then toHex (H key) else key)"

text \<open>The path of a key that is long enough.\<close>

definition hpath :: "string \<Rightarrow> string" where
  "hpath k = take 2 k @ slash # take 2 (drop 2 k) @ slash # drop 4 k"

lemma hash_to_path_ok: "4 \<le> length k \<Longrightarrow> hash_to_path k = Return (hpath k)"
  by (simp add: hash_to_path_def hpath_def)

lemma ff_hash_to_path_eq: "ff_hash_to_path k = hash_to_path k"
proof (cases "length k < 4")
  case False
  then have "take 4 k = take 2 k @ take 2 (drop 2 k)"
    by (metis One_nat_def Suc_1 numeral_Bit0 take_add)
  with False show ?thesis
    by (simp add: ff_hash_to_path_def hash_to_path_def)
qed (simp add: ff_hash_to_path_def hash_to_path_def)

lemma ff_validate_key_eq [simp]: "ff_validate_key = validate_key"
  by (simp add: fun_eq_iff ff_validate_key_def validate_key_def)

lemma length_validate_key: "sha512_size H \<Longrightarrow> 128 \<le> length (validate_key H k)"
  by (simp add: validate_key_def)

lemma hash_to_path_validated:
  "sha512_size H \<Longrightarrow> hash_to_path (validate_key H k) = Return (hpath (validate_key H k))"
  using length_validate_key [of H k] by (simp add: hash_to_path_ok)

lemma hash_to_path_hash: "sha512_size H \<Longrightarrow> hash_to_path (toHex (H v)) = Return (hpath (toHex (H v)))"
  by (simp add: hash_to_path_ok)

text \<open>A key is admissible when it cannot leave its directory: hashed, or free of separators.\<close>

definition key_ok :: "string \<Rightarrow> bool" where
  "key_ok k \<longleftrightarrow> length k < 128 \<or> slash \<notin> set k"

lemma key_ok_no_slash [simp]: "key_ok k \<Longrightarrow> slash \<notin> set (validate_key H k)"
  by (auto simp: key_ok_def validate_key_def)

lemma hpath_inj:
  assumes "hpath a = hpath b" and "4 \<le> length a" and "4 \<le> length b"
  shows "a = b"
proof -
  have "length (take 2 a) = length (take 2 b)" "length (take 2 (drop 2 a)) = length (take 2 (drop 2 b))"
    using assms by simp_all
  with assms(1) have "take 2 a = take 2 b" "take 2 (drop 2 a) = take 2 (drop 2 b)" "drop 4 a = drop 4 b"
    by (auto simp: hpath_def)
  moreover have "c = take 2 c @ take 2 (drop 2 c) @ drop 4 c" for c :: string
    by (metis append_take_drop_id drop_drop numeral_Bit0)
  ultimately show ?thesis by metis
qed

lemma count_slash_0 [simp]: "slash \<notin> set xs \<Longrightarrow> count_list xs slash = 0"
  by (simp add: count_list_0_iff)

lemma count_slash_hpath [simp]:
  assumes "slash \<notin> set k"
  shows "count_list (hpath k) slash = 2"
proof -
  have "slash \<notin> set (take 2 k)" "slash \<notin> set (take 2 (drop 2 k))" "slash \<notin> set (drop 4 k)"
    using assms by (auto dest: in_set_takeD in_set_dropD)
  then show ?thesis by (simp add: hpath_def)
qed

lemma remove_filename_hpath:
  assumes "slash \<notin> set k"
  shows "remove_filename (d @ hpath k) = d @ take 2 k @ slash # take 2 (drop 2 k)"
proof -
  have "slash \<notin> set (drop 4 k)" using assms by (auto dest: in_set_dropD)
  then have "remove_filename ((d @ take 2 k @ slash # take 2 (drop 2 k)) @ slash # drop 4 k)
      = d @ take 2 k @ slash # take 2 (drop 2 k)"
    by (rule remove_filename_snoc)
  then show ?thesis by (simp add: hpath_def)
qed

section \<open>The interface\<close>

locale kv_backend =
  fixes put :: "string \<Rightarrow> string \<Rightarrow> ('w, bool) io"
    and get :: "string \<Rightarrow> ('w, bool \<times> kv_res) io"
    and remove :: "string \<Rightarrow> ('w, bool) io"
    and inv :: "'w \<Rightarrow> bool"
    and vals :: "'w \<Rightarrow> string \<Rightarrow> string set"
    and file_as :: "string \<Rightarrow> string"
    and storable :: "'w \<Rightarrow> string \<Rightarrow> bool"
    and clash :: "string \<Rightarrow> string \<Rightarrow> bool"
  assumes put_inv: "inv w \<Longrightarrow> key_ok k \<Longrightarrow> storable w v \<Longrightarrow> put k v w = (r, w') \<Longrightarrow> inv w'"
    and put_vals: "inv w \<Longrightarrow> key_ok k \<Longrightarrow> storable w v \<Longrightarrow> put k v w = (Return True, w') \<Longrightarrow>
      vals w' k = insert v (vals w k)"
    and put_frame: "inv w \<Longrightarrow> key_ok k \<Longrightarrow> key_ok k' \<Longrightarrow> storable w v \<Longrightarrow> \<not> clash k k' \<Longrightarrow>
      put k v w = (r, w') \<Longrightarrow> vals w' k' = vals w k'"
    and put_fail: "inv w \<Longrightarrow> key_ok k \<Longrightarrow> storable w v \<Longrightarrow> put k v w = (r, w') \<Longrightarrow> r \<noteq> Return True \<Longrightarrow>
      vals w' k = vals w k"
    and put_storable: "inv w \<Longrightarrow> key_ok k \<Longrightarrow> storable w v \<Longrightarrow> put k v w = (r, w') \<Longrightarrow> storable w' v"
    and get_some: "inv w \<Longrightarrow> key_ok k \<Longrightarrow> vals w k \<noteq> {} \<Longrightarrow>
      \<exists>v \<in> vals w k. get k w = (Return (True, [(file_as v, v)]), w)"
    and get_none: "inv w \<Longrightarrow> key_ok k \<Longrightarrow> vals w k = {} \<Longrightarrow>
      get k w = (Return (False, []), w) \<or> get k w = (Stuck, w)"
    and remove_inv: "inv w \<Longrightarrow> key_ok k \<Longrightarrow> remove k w = (r, w') \<Longrightarrow> inv w'"
    and remove_vals: "inv w \<Longrightarrow> key_ok k \<Longrightarrow> remove k w = (Return True, w') \<Longrightarrow>
      vals w' k = {} \<and> get k w' = (Return (False, []), w')"
    and remove_frame: "inv w \<Longrightarrow> key_ok k \<Longrightarrow> key_ok k' \<Longrightarrow> \<not> clash k k' \<Longrightarrow>
      remove k w = (r, w') \<Longrightarrow> vals w' k' = vals w k'"
    and remove_storable: "inv w \<Longrightarrow> key_ok k \<Longrightarrow> remove k w = (r, w') \<Longrightarrow> storable w' v = storable w v"
begin

text \<open>A value put under an empty key is what the next request for that key returns.\<close>

lemma put_then_get:
  assumes "inv w" and "key_ok k" and "storable w v" and "vals w k = {}"
    and "put k v w = (Return True, w')"
  shows "get k w' = (Return (True, [(file_as v, v)]), w')"
proof -
  from assms have "inv w'" and "vals w' k = {v}"
    by (auto dest: put_inv put_vals)
  with assms(2) get_some [of w' k] show ?thesis by auto
qed

text \<open>Replacing a value the way \<open>Object::save\<close> does, remove and then put.\<close>

lemma remove_put_get:
  assumes "inv w" and "key_ok k" and "storable w v" and "remove k w = (Return True, w1)"
    and "put k v w1 = (Return True, w2)"
  shows "inv w2 \<and> vals w2 k = {v} \<and> get k w2 = (Return (True, [(file_as v, v)]), w2)"
proof -
  from assms(1,2,4) have "inv w1" "vals w1 k = {}"
    by (auto dest: remove_inv remove_vals)
  with assms(2,3,5) remove_storable [OF assms(1,2,4), of v] show ?thesis
    using put_inv put_vals put_then_get by fastforce
qed

end

end
