(* ===== verification/Objects.thy ===== *)
theory Objects
  imports Crypto Prelude
begin

text \<open>
  Versioned objects, \<open>src/daemon/db.h\<close> and the parts of \<open>src/daemon/db.cc\<close> that do not touch storage.
  An object keeps its current content (\<open>head\<close>), the id of its current revision (\<open>master\<close>) and the
  list of its revisions, each a patch against the content before it; a revision is named by the
  hash of its patch text.

  Parameters: \<open>H\<close> (SHA-512) and \<open>dmp\<close> (the diff-match-patch library: the text of the patch from one
  string to another, and the application of a patch text). That a patch applied to the text it was made from
  gives the text it was made for is not assumed in general, as it fails in the library for texts with bytes
  beyond ASCII (\<open>PatchText\<close>): the theorems say for which texts they need it, with \<open>dmp_restores\<close>.
\<close>

section \<open>Data\<close>

text \<open>
  Times are whole seconds since the epoch: every time of the program comes from \<open>second_clock\<close>. \<open>None\<close> is
  \<open>not_a_date_time\<close>.
\<close>

type_synonym ptime = "int option"

record needs_ObjID =
  oid :: string
  db_id :: int
  db_type :: string
  content :: string
  time :: ptime

record diff = needs_ObjID +
  diff_snapshot :: string
  diff_prev :: string

record snapshot = needs_ObjID +
  snap_diffs :: "diff list"
  snap_based :: string

record object =
  obj_id :: string
  obj_master :: string
  obj_db_id :: int
  obj_db_type :: string
  obj_snapshots :: "snapshot list"
  obj_diffs :: "diff list"
  obj_head :: string

text \<open>\<open>Object()\<close>.\<close>

definition new_Object :: object where
  "new_Object = \<lparr>obj_id = [], obj_master = [], obj_db_id = 0, obj_db_type = [], obj_snapshots = [],
     obj_diffs = [], obj_head = []\<rparr>"

record dmp_ops =
  dmp_patch :: "string \<Rightarrow> string \<Rightarrow> string" \<comment> \<open>\<open>patch_toText(patch_make(a, b))\<close>\<close>
  dmp_apply :: "string \<Rightarrow> string \<Rightarrow> string outcome" \<comment> \<open>\<open>patch_apply(patch_fromText(p), t).first\<close>\<close>

text \<open>The patches made from each of the given texts for the next, starting with \<open>base\<close>, apply to where they were made.\<close>

fun dmp_restores :: "dmp_ops \<Rightarrow> string \<Rightarrow> string list \<Rightarrow> bool" where
  "dmp_restores d base [] \<longleftrightarrow> True"
| "dmp_restores d base (c # cs) \<longleftrightarrow> dmp_apply d (dmp_patch d base c) base = Return c \<and> dmp_restores d c cs"

section \<open>Identifiers and constructors\<close>

definition create_content_id :: "(string \<Rightarrow> string) \<Rightarrow> 'a needs_ObjID_scheme \<Rightarrow> bool \<times> 'a needs_ObjID_scheme" where
  "create_content_id H x = (True, x\<lparr>oid := toHex (H (content x))\<rparr>)"

text \<open>\<open>to_iso\<close> renders a time, \<open>rnd\<close> is the decimal text of the next \<open>random()\<close>.\<close>

definition create_random_id ::
  "(string \<Rightarrow> string) \<Rightarrow> (ptime \<Rightarrow> string) \<Rightarrow> string \<Rightarrow> 'a needs_ObjID_scheme \<Rightarrow> bool \<times> 'a needs_ObjID_scheme" where
  "create_random_id H to_iso rnd x = (True, x\<lparr>oid := toHex (H (to_iso (time x) @ content x @ rnd))\<rparr>)"

definition new_Diff :: "(string \<Rightarrow> string) \<Rightarrow> ptime \<Rightarrow> string \<Rightarrow> string \<Rightarrow> diff" where
  "new_Diff H now c p = snd (create_content_id H
     \<lparr>oid = [], db_id = 0, db_type = [], content = c, time = now, diff_snapshot = [], diff_prev = p\<rparr>)"

definition new_Snapshot :: "(string \<Rightarrow> string) \<Rightarrow> ptime \<Rightarrow> string \<Rightarrow> string \<Rightarrow> snapshot" where
  "new_Snapshot H now b c = snd (create_content_id H
     \<lparr>oid = [], db_id = 0, db_type = [], content = c, time = now, snap_diffs = [], snap_based = b\<rparr>)"

text \<open>The id \<open>Object::create(String)\<close> gives an object.\<close>

definition object_content_id :: "(string \<Rightarrow> string) \<Rightarrow> string \<Rightarrow> string" where
  "object_content_id H inp = toHex (H (''OBJECT'' @ H inp))"

section \<open>Serialisation\<close>

text \<open>
  The \<open>serialize\<close> members name the fields an archive carries. Loading what was saved assigns those
  fields; the others keep the value they have, or the default in a freshly created difference.
\<close>

definition diff_reloaded :: "diff \<Rightarrow> diff" where
  "diff_reloaded x = \<lparr>oid = oid x, db_id = 0, db_type = [], content = content x, time = time x,
     diff_snapshot = diff_snapshot x, diff_prev = diff_prev x\<rparr>"

definition object_reloaded :: "object \<Rightarrow> object \<Rightarrow> object" where
  "object_reloaded saved into = into\<lparr>obj_id := obj_id saved, obj_master := obj_master saved,
     obj_diffs := map diff_reloaded (obj_diffs saved), obj_head := obj_head saved\<rparr>"

section \<open>Reading revisions\<close>

definition object_get :: "object \<Rightarrow> string" where
  "object_get obj = obj_head obj"

fun object_get_loop :: "dmp_ops \<Rightarrow> string \<Rightarrow> diff list \<Rightarrow> string \<Rightarrow> string outcome" where
  "object_get_loop d revision [] res = Return res"
| "object_get_loop d revision (x # xs) res =
     (case dmp_apply d (content x) res of
        Return res' \<Rightarrow> if oid x = revision then Return res' else object_get_loop d revision xs res'
      | Throw e \<Rightarrow> Throw e
      | Stuck \<Rightarrow> Stuck)"

definition object_get_rev :: "dmp_ops \<Rightarrow> object \<Rightarrow> string \<Rightarrow> string outcome" where
  "object_get_rev d obj revision = object_get_loop d revision (obj_diffs obj) []"

definition object_has_diff :: "object \<Rightarrow> string \<Rightarrow> bool" where
  "object_has_diff obj i \<longleftrightarrow> list_ex (\<lambda>x. oid x = i) (obj_diffs obj)"

text \<open>\<open>Object::create_from_diffs\<close> is not implemented in the source.\<close>

definition object_create_from_diffs :: "object \<Rightarrow> bool" where
  "object_create_from_diffs obj = False"

section \<open>Histories\<close>

text \<open>
  A chain of differences leads from a base text through the given contents: every patch is made
  from one content for the next, carries the hash of its text as id and names its predecessor.
\<close>

fun chain :: "(string \<Rightarrow> string) \<Rightarrow> dmp_ops \<Rightarrow> string \<Rightarrow> string \<Rightarrow> string list \<Rightarrow> diff list \<Rightarrow> bool" where
  "chain H d base prev [] [] \<longleftrightarrow> True"
| "chain H d base prev (c # cs) (x # xs) \<longleftrightarrow>
     content x = dmp_patch d base c \<and> oid x = toHex (H (content x)) \<and> diff_prev x = prev
     \<and> chain H d c (oid x) cs xs"
| "chain H d base prev _ _ \<longleftrightarrow> False"

definition obj_history :: "(string \<Rightarrow> string) \<Rightarrow> dmp_ops \<Rightarrow> string list \<Rightarrow> object \<Rightarrow> bool" where
  "obj_history H d cs obj \<longleftrightarrow> cs \<noteq> [] \<and> chain H d [] [] cs (obj_diffs obj)
     \<and> obj_head obj = last cs \<and> obj_master obj = oid (last (obj_diffs obj))"

lemma new_Diff_simps [simp]:
  "content (new_Diff H now c p) = c" "oid (new_Diff H now c p) = toHex (H c)" "diff_prev (new_Diff H now c p) = p"
  by (simp_all add: new_Diff_def create_content_id_def)

lemma diff_reloaded_simps [simp]:
  "content (diff_reloaded x) = content x" "oid (diff_reloaded x) = oid x" "diff_prev (diff_reloaded x) = diff_prev x"
  by (simp_all add: diff_reloaded_def)

lemma object_reloaded_simps [simp]:
  "obj_id (object_reloaded s i) = obj_id s" "obj_master (object_reloaded s i) = obj_master s"
  "obj_head (object_reloaded s i) = obj_head s" "obj_diffs (object_reloaded s i) = map diff_reloaded (obj_diffs s)"
  by (simp_all add: object_reloaded_def)

lemma chain_length: "chain H d base prev cs xs \<Longrightarrow> length xs = length cs"
  by (induction H d base prev cs xs rule: chain.induct) auto

lemma chain_reloaded [simp]: "chain H d base prev cs (map diff_reloaded xs) = chain H d base prev cs xs"
  by (induction H d base prev cs xs rule: chain.induct) auto

lemma chain_snoc:
  assumes "chain H d base prev cs xs"
  shows "chain H d base prev (cs @ [c]) (xs @ [x]) \<longleftrightarrow>
    content x = dmp_patch d (if cs = [] then base else last cs) c \<and> oid x = toHex (H (content x))
    \<and> diff_prev x = (if xs = [] then prev else oid (last xs))"
  using assms
proof (induction H d base prev cs xs rule: chain.induct)
  case (2 H d base prev c' cs x' xs)
  then show ?case using chain_length [of H d c' "oid x'" cs xs] by (cases cs; cases xs) auto
qed auto

lemma obj_history_reloaded [simp]: "obj_history H d cs (object_reloaded s i) = obj_history H d cs s"
proof (cases "obj_diffs s = []")
  case True
  then show ?thesis by (cases cs) (auto simp: obj_history_def)
qed (simp add: obj_history_def last_map)

lemma chain_get:
  assumes "dmp_restores d base (take (Suc i) cs)" and "chain H d base prev cs xs" and "i < length cs" and "oid (xs ! i) = rv"
    and "\<And>j. j < i \<Longrightarrow> oid (xs ! j) \<noteq> rv"
  shows "object_get_loop d rv xs base = Return (cs ! i)"
  using assms
proof (induction cs arbitrary: base prev xs i)
  case (Cons c cs)
  then obtain x xs' where xs: "xs = x # xs'" by (cases xs) auto
  have step: "dmp_apply d (content x) base = Return c"
    using Cons.prems(1,2) by (simp add: xs)
  show ?case
  proof (cases i)
    case 0
    with Cons.prems step show ?thesis by (simp add: xs)
  next
    case (Suc i')
    have "oid x \<noteq> rv" using Cons.prems(5) [of 0] by (simp add: xs Suc)
    moreover have "object_get_loop d rv xs' c = Return (cs ! i')"
    proof (rule Cons.IH)
      show "chain H d c (oid x) cs xs'" using Cons.prems(2) unfolding xs chain.simps by blast
      show "oid (xs' ! j) \<noteq> rv" if "j < i'" for j using Cons.prems(5) [of "Suc j"] that by (simp add: xs Suc)
    qed (use Cons.prems in \<open>simp_all add: xs Suc\<close>)
    ultimately show ?thesis by (simp add: xs Suc step)
  qed
qed simp

text \<open>Conversely, when all revisions read back, each patch applied to the content it was made from.\<close>

lemma chain_get_restores:
  assumes "chain H d base prev cs xs" and "distinct (map oid xs)"
    and "\<And>i. i < length cs \<Longrightarrow> object_get_loop d (oid (xs ! i)) xs base = Return (cs ! i)"
  shows "dmp_restores d base cs"
  using assms
proof (induction cs arbitrary: base prev xs)
  case (Cons c cs)
  then obtain x xs' where xs: "xs = x # xs'" by (cases xs) auto
  from Cons.prems(3) [of 0] have step: "dmp_apply d (content x) base = Return c"
    by (auto simp: xs split: outcome.splits)
  have "dmp_restores d c cs"
  proof (rule Cons.IH)
    show ch: "chain H d c (oid x) cs xs'" using Cons.prems(1) unfolding xs chain.simps by blast
    show "distinct (map oid xs')" using Cons.prems(2) by (simp add: xs)
    fix i assume i: "i < length cs"
    with chain_length [OF ch] Cons.prems(2) have "oid x \<noteq> oid (xs' ! i)" by (auto simp: xs)
    with Cons.prems(3) [of "Suc i"] i step show "object_get_loop d (oid (xs' ! i)) xs' c = Return (cs ! i)"
      by (simp add: xs)
  qed
  with step Cons.prems(1) show ?case by (simp add: xs)
qed simp

lemma obj_history_head: "obj_history H d cs obj \<Longrightarrow> object_get obj = last cs"
  by (simp add: obj_history_def object_get_def)

text \<open>The revision an update appends.\<close>

definition object_revised :: "(string \<Rightarrow> string) \<Rightarrow> dmp_ops \<Rightarrow> ptime \<Rightarrow> string \<Rightarrow> object \<Rightarrow> object" where
  "object_revised H d now new obj =
     (let ddiff = new_Diff H now (dmp_patch d (object_get obj) new) (obj_master obj) in
      obj\<lparr>obj_diffs := obj_diffs obj @ [ddiff], obj_master := oid ddiff, obj_head := new\<rparr>)"

lemma obj_history_revised:
  assumes "obj_history H d cs obj"
  shows "obj_history H d (cs @ [new]) (object_revised H d now new obj)"
proof -
  from assms have "obj_diffs obj \<noteq> []"
    using chain_length [of H d "[]" "[]" cs "obj_diffs obj"] by (auto simp: obj_history_def)
  with assms show ?thesis
    by (simp add: obj_history_def object_revised_def chain_snoc object_get_def Let_def)
qed

text \<open>A small line of patches for concrete examples: the common prefix is kept, the rest replaced.\<close>

fun common_prefix :: "string \<Rightarrow> string \<Rightarrow> nat" where
  "common_prefix (a # as) (b # bs) = (if a = b then Suc (common_prefix as bs) else 0)"
| "common_prefix _ _ = 0"

definition prefix_dmp :: dmp_ops where
  "prefix_dmp = \<lparr>
     dmp_patch = (\<lambda>a b. let n = common_prefix a b in
       replicate n (CHR ''='') @ replicate (length a - n) (CHR ''-'') @ CHR ''+'' # drop n b),
     dmp_apply = (\<lambda>p t. let n = length (takeWhile (\<lambda>c. c = CHR ''='') p);
         q = drop n p; m = length (takeWhile (\<lambda>c. c = CHR ''-'') q) in
       if drop m q = [] then Throw (Thrown_string ''Invalid patch string'')
       else Return (take n t @ tl (drop m q) @ drop (n + m) t))\<rparr>"

lemma common_prefix_take: "take (common_prefix a b) a = take (common_prefix a b) b"
  by (induction a b rule: common_prefix.induct) auto

lemma common_prefix_le: "common_prefix a b \<le> length a"
  by (induction a b rule: common_prefix.induct) auto

lemma takeWhile_replicate_sep: "x \<noteq> y \<Longrightarrow> takeWhile (\<lambda>c. c = x) (replicate n x @ y # ys) = replicate n x"
  by (induction n) auto

lemma prefix_dmp_applies: "dmp_apply prefix_dmp (dmp_patch prefix_dmp a b) a = Return b"
proof -
  define n where "n = common_prefix a b"
  have m: "n + (length a - n) = length a" using common_prefix_le [of a b] by (simp add: n_def)
  have "takeWhile (\<lambda>c. c = CHR ''='') (replicate n (CHR ''='') @ replicate (length a - n) (CHR ''-'') @ CHR ''+'' # drop n b)
      = replicate n (CHR ''='')"
    by (cases "length a - n") (simp_all add: takeWhile_replicate_sep)
  then show ?thesis
    using common_prefix_take [of a b] m
    by (simp add: prefix_dmp_def Let_def takeWhile_replicate_sep flip: n_def)
qed

lemma prefix_dmp_restores: "dmp_restores prefix_dmp base cs"
  by (induction cs arbitrary: base) (simp_all add: prefix_dmp_applies)

section \<open>Properties\<close>

text \<open>
  C31: Reading revisions back. Replaying the patches of an intact history up to the first one that carries a
  revision's id gives exactly the content the object had at that revision, provided that each patch up to there
  applies to the content it was made from; \<open>has_diff\<close> knows the revision. The proviso cannot be dropped: when
  the ids are distinct and all revisions read back, every patch of the history does apply so.
\<close>

theorem object_revision_content:
  assumes "obj_history H d cs obj"
  shows "(\<forall>i < length cs. dmp_restores d [] (take (Suc i) cs) \<and> (\<forall>j < i. oid (obj_diffs obj ! j) \<noteq> oid (obj_diffs obj ! i))
      \<longrightarrow> object_get_rev d obj (oid (obj_diffs obj ! i)) = Return (cs ! i) \<and> object_has_diff obj (oid (obj_diffs obj ! i)))
    \<and> (distinct (map oid (obj_diffs obj))
        \<and> (\<forall>i < length cs. object_get_rev d obj (oid (obj_diffs obj ! i)) = Return (cs ! i)) \<longrightarrow> dmp_restores d [] cs)"
proof (intro conjI allI impI)
  have ch: "chain H d [] [] cs (obj_diffs obj)" using assms by (simp add: obj_history_def)
  show "dmp_restores d [] cs" if "distinct (map oid (obj_diffs obj))
      \<and> (\<forall>i < length cs. object_get_rev d obj (oid (obj_diffs obj ! i)) = Return (cs ! i))"
    using chain_get_restores [OF ch] that by (simp add: object_get_rev_def)
  fix i assume i: "i < length cs"
    and "dmp_restores d [] (take (Suc i) cs) \<and> (\<forall>j < i. oid (obj_diffs obj ! j) \<noteq> oid (obj_diffs obj ! i))"
  then show "object_get_rev d obj (oid (obj_diffs obj ! i)) = Return (cs ! i)"
    using chain_get [OF _ ch i refl] by (simp add: object_get_rev_def)
  have "obj_diffs obj ! i \<in> set (obj_diffs obj)" using i chain_length [OF ch] by (metis nth_mem)
  then show "object_has_diff obj (oid (obj_diffs obj ! i))" by (auto simp: object_has_diff_def list_ex_iff)
qed

text \<open>Three revisions of one text.\<close>

definition obj_abc :: object where
  "obj_abc = object_revised pad64 prefix_dmp (Some 3) ''cab'' (object_revised pad64 prefix_dmp (Some 2) ''abc''
     (object_revised pad64 prefix_dmp (Some 1) ''ab'' new_Object))"

lemma obj_abc_history: "obj_history pad64 prefix_dmp [''ab'', ''abc'', ''cab''] obj_abc"
proof -
  have "obj_history pad64 prefix_dmp [''ab''] (object_revised pad64 prefix_dmp (Some 1) ''ab'' new_Object)"
    by code_simp
  from obj_history_revised [OF obj_history_revised [OF this]] show ?thesis
    by (simp add: obj_abc_def)
qed

theorem object_revision_content_witness:
  "object_get_rev prefix_dmp obj_abc (oid (obj_diffs obj_abc ! 1)) = Return ''abc''"
proof -
  have "oid (obj_diffs obj_abc ! j) \<noteq> oid (obj_diffs obj_abc ! 1)" if "j < 1" for j
  proof -
    have "oid (obj_diffs obj_abc ! 0) \<noteq> oid (obj_diffs obj_abc ! 1)" by code_simp
    with that show ?thesis by simp
  qed
  with object_revision_content [OF obj_abc_history, THEN conjunct1, rule_format, of 1]
  show ?thesis by (simp add: prefix_dmp_restores prefix_dmp_applies)
qed

end
