(* ===== verification/Modules.thy ===== *)
theory Modules
  imports KeyValue Objects
begin

text \<open>
  The module manager, \<open>src/daemon/module_manager.{h,cc}\<close>, and the interface of a local storage
  plugin, \<open>src/daemon/plugins/localstorage.h\<close>. The manager reaches the plugins in two ways: signals,
  which call every connected slot and combine the answers with \<open>res_check\<close>, and loops over the
  plain-text plugins, which stop at the first that answers true.

  A plugin is the record of its virtual functions. A result passed by reference is threaded through:
  an operation receives its value before the call and returns the value after it. A shared pointer is
  an \<open>option\<close>, \<open>None\<close> being the null pointer; passed by value, the callee can change what it points
  to, never whether it is null.
\<close>

section \<open>The plugin interface\<close>

datatype storage_type = PLAIN | BINARY

record block =
  blk_data :: string
  blk_size :: nat

record 'w localstorage =
  ls_getName :: string
  ls_getType :: storage_type
  ls_db_store_snapshot :: "snapshot option \<Rightarrow> ('w, bool \<times> snapshot option) io"
  ls_db_store_diff :: "diff option \<Rightarrow> ('w, bool \<times> diff option) io"
  ls_db_store_obj :: "object option \<Rightarrow> ('w, bool \<times> object option) io"
  ls_db_remove :: "string \<Rightarrow> ('w, bool) io"
  ls_db_get_snapshot :: "string \<Rightarrow> snapshot option \<Rightarrow> ('w, bool \<times> snapshot option) io"
  ls_db_get_diff :: "string \<Rightarrow> diff option \<Rightarrow> ('w, bool \<times> diff option) io"
  ls_db_get_obj :: "string \<Rightarrow> object option \<Rightarrow> ('w, bool \<times> object option) io"
  ls_kv_put :: "string \<Rightarrow> string \<Rightarrow> ('w, bool) io"
  ls_kv_get :: "string \<Rightarrow> kv_res option \<Rightarrow> ('w, bool \<times> kv_res option) io"
  ls_kv_get_unique :: "string \<Rightarrow> string \<Rightarrow> ('w, bool \<times> string) io"
  ls_kv_remove :: "string \<Rightarrow> ('w, bool) io"
  ls_store_file :: "string \<Rightarrow> string \<Rightarrow> ('w, bool \<times> string) io"
  ls_get_file :: "string \<Rightarrow> string \<Rightarrow> ('w, bool \<times> string) io"
  ls_remove_file :: "string \<Rightarrow> ('w, bool) io"

text \<open>
  The default of \<open>kv_get_unique\<close>: the result map of the plugin's \<open>kv_get\<close>, indexed with the key
  itself; \<open>operator[]\<close> makes up an empty string when the key is not in it.
\<close>

definition default_kv_get_unique ::
  "(string \<Rightarrow> kv_res option \<Rightarrow> ('w, bool \<times> kv_res option) io) \<Rightarrow> string \<Rightarrow> string \<Rightarrow> ('w, bool \<times> string) io" where
  "default_kv_get_unique get key res =
     io_bind (get key None) (\<lambda>(ok, r).
     if \<not> ok then io_return (False, res)
     else case r of None \<Rightarrow> io_stuck | Some m \<Rightarrow> io_return (True, fst (kv_index m key)))"

text \<open>The class \<open>LocalStorage\<close> itself: what a plugin that overrides nothing does.\<close>

definition ls_default :: "'w localstorage" where
  "ls_default = \<lparr>ls_getName = ''generic LocalStorage plugin'', ls_getType = PLAIN,
     ls_db_store_snapshot = (\<lambda>s. io_return (False, s)), ls_db_store_diff = (\<lambda>s. io_return (False, s)),
     ls_db_store_obj = (\<lambda>s. io_return (False, s)), ls_db_remove = (\<lambda>i. io_return False),
     ls_db_get_snapshot = (\<lambda>i s. io_return (False, s)), ls_db_get_diff = (\<lambda>i s. io_return (False, s)),
     ls_db_get_obj = (\<lambda>i s. io_return (False, s)),
     ls_kv_put = (\<lambda>k v. io_return False), ls_kv_get = (\<lambda>k r. io_return (False, r)),
     ls_kv_get_unique = default_kv_get_unique (\<lambda>k r. io_return (False, r)),
     ls_kv_remove = (\<lambda>k. io_return False), ls_store_file = (\<lambda>p r. io_return (False, r)),
     ls_get_file = (\<lambda>i r. io_return (False, r)), ls_remove_file = (\<lambda>i. io_return False)\<rparr>"

section \<open>Signals\<close>

text \<open>
  The combiner. Every slot is called, in the order of connection, also after one has answered true;
  a slot that throws ends the loop. The value passed by reference goes from slot to slot.
\<close>

fun res_check_loop :: "('s \<Rightarrow> ('w, bool \<times> 's) io) list \<Rightarrow> bool \<Rightarrow> 's \<Rightarrow> ('w, bool \<times> 's) io" where
  "res_check_loop [] state s = io_return (state, s)"
| "res_check_loop (f # rest) state s =
     io_bind (f s) (\<lambda>(b, s'). res_check_loop rest (if b then True else state) s')"

definition res_check :: "('s \<Rightarrow> ('w, bool \<times> 's) io) list \<Rightarrow> 's \<Rightarrow> ('w, bool \<times> 's) io" where
  "res_check slots s = (if slots = [] then io_return (False, s) else res_check_loop slots False s)"

text \<open>A slot without a reference argument.\<close>

definition plain_slot :: "('w, bool) io \<Rightarrow> unit \<Rightarrow> ('w, bool \<times> unit) io" where
  "plain_slot m = (\<lambda>_. io_bind m (\<lambda>b. io_return (b, ())))"

section \<open>The manager\<close>

record 'w module_manager =
  sig_kv_put :: "(string \<Rightarrow> string \<Rightarrow> ('w, bool) io) list"
  sig_kv_get :: "(string \<Rightarrow> kv_res option \<Rightarrow> ('w, bool \<times> kv_res option) io) list"
  sig_kv_remove :: "(string \<Rightarrow> ('w, bool) io) list"
  sig_get_block :: "(string \<Rightarrow> block option \<Rightarrow> ('w, bool \<times> block option) io) list"
  sig_store_file :: "(string \<Rightarrow> string \<Rightarrow> ('w, bool \<times> string) io) list"
  sig_get_file :: "(string \<Rightarrow> string \<Rightarrow> ('w, bool \<times> string) io) list"
  sig_remove_file :: "(string \<Rightarrow> ('w, bool) io) list"
  mm_localstorages :: "'w localstorage list"

definition mm_new :: "'w module_manager" where
  "mm_new = \<lparr>sig_kv_put = [], sig_kv_get = [], sig_kv_remove = [], sig_get_block = [], sig_store_file = [],
     sig_get_file = [], sig_remove_file = [], mm_localstorages = []\<rparr>"

definition mm_kv_put :: "'w module_manager \<Rightarrow> string \<Rightarrow> string \<Rightarrow> ('w, bool) io" where
  "mm_kv_put mm key v = io_bind (res_check (map (\<lambda>f. plain_slot (f key v)) (sig_kv_put mm)) ()) (\<lambda>(b, _). io_return b)"

definition mm_kv_get :: "'w module_manager \<Rightarrow> string \<Rightarrow> kv_res option \<Rightarrow> ('w, bool \<times> kv_res option) io" where
  "mm_kv_get mm key res = res_check (map (\<lambda>f. f key) (sig_kv_get mm)) res"

definition mm_kv_remove :: "'w module_manager \<Rightarrow> string \<Rightarrow> ('w, bool) io" where
  "mm_kv_remove mm key = io_bind (res_check (map (\<lambda>f. plain_slot (f key)) (sig_kv_remove mm)) ()) (\<lambda>(b, _). io_return b)"

definition mm_get_block :: "'w module_manager \<Rightarrow> string \<Rightarrow> block option \<Rightarrow> ('w, bool \<times> block option) io" where
  "mm_get_block mm i res = res_check (map (\<lambda>f. f i) (sig_get_block mm)) res"

definition mm_store_file :: "'w module_manager \<Rightarrow> string \<Rightarrow> string \<Rightarrow> ('w, bool \<times> string) io" where
  "mm_store_file mm path res = res_check (map (\<lambda>f. f path) (sig_store_file mm)) res"

definition mm_get_file :: "'w module_manager \<Rightarrow> string \<Rightarrow> string \<Rightarrow> ('w, bool \<times> string) io" where
  "mm_get_file mm i res = res_check (map (\<lambda>f. f i) (sig_get_file mm)) res"

definition mm_remove_file :: "'w module_manager \<Rightarrow> string \<Rightarrow> ('w, bool) io" where
  "mm_remove_file mm i = io_bind (res_check (map (\<lambda>f. plain_slot (f i)) (sig_remove_file mm)) ()) (\<lambda>(b, _). io_return b)"

text \<open>The loops over the plugins: the first that answers true ends the loop.\<close>

fun first_true :: "('s \<Rightarrow> ('w, bool \<times> 's) io) list \<Rightarrow> 's \<Rightarrow> ('w, bool \<times> 's) io" where
  "first_true [] s = io_return (False, s)"
| "first_true (f # rest) s = io_bind (f s) (\<lambda>(b, s'). if b then io_return (True, s') else first_true rest s')"

definition plain_plugins :: "'w module_manager \<Rightarrow> 'w localstorage list" where
  "plain_plugins mm = filter (\<lambda>p. ls_getType p = PLAIN) (mm_localstorages mm)"

definition mm_kv_get_unique :: "'w module_manager \<Rightarrow> string \<Rightarrow> string \<Rightarrow> ('w, bool \<times> string) io" where
  "mm_kv_get_unique mm key = first_true (map (\<lambda>p. ls_kv_get_unique p key) (mm_localstorages mm))"

definition mm_kv_get_stats :: "'w module_manager \<Rightarrow> string \<Rightarrow> 's \<Rightarrow> ('w, bool \<times> 's) io" where
  "mm_kv_get_stats mm key res = io_return (False, res)"

definition mm_kv_get_unsuccessful :: "'w module_manager \<Rightarrow> int \<Rightarrow> 's \<Rightarrow> ('w, bool \<times> 's) io" where
  "mm_kv_get_unsuccessful mm n res = io_return (False, res)"

definition mm_kv_get_unchecked_since :: "'w module_manager \<Rightarrow> int \<Rightarrow> 's \<Rightarrow> ('w, bool \<times> 's) io" where
  "mm_kv_get_unchecked_since mm t res = io_return (False, res)"

definition mm_db_store_snapshot :: "'w module_manager \<Rightarrow> snapshot option \<Rightarrow> ('w, bool \<times> snapshot option) io" where
  "mm_db_store_snapshot mm = first_true (map ls_db_store_snapshot (plain_plugins mm))"

definition mm_db_store_diff :: "'w module_manager \<Rightarrow> diff option \<Rightarrow> ('w, bool \<times> diff option) io" where
  "mm_db_store_diff mm = first_true (map ls_db_store_diff (plain_plugins mm))"

definition mm_db_store_obj :: "'w module_manager \<Rightarrow> object option \<Rightarrow> ('w, bool \<times> object option) io" where
  "mm_db_store_obj mm = first_true (map ls_db_store_obj (plain_plugins mm))"

definition mm_db_get_snapshot ::
  "'w module_manager \<Rightarrow> string \<Rightarrow> snapshot option \<Rightarrow> ('w, bool \<times> snapshot option) io" where
  "mm_db_get_snapshot mm i = first_true (map (\<lambda>p. ls_db_get_snapshot p i) (plain_plugins mm))"

definition mm_db_get_diff :: "'w module_manager \<Rightarrow> string \<Rightarrow> diff option \<Rightarrow> ('w, bool \<times> diff option) io" where
  "mm_db_get_diff mm i = first_true (map (\<lambda>p. ls_db_get_diff p i) (plain_plugins mm))"

definition mm_db_get_obj :: "'w module_manager \<Rightarrow> string \<Rightarrow> object option \<Rightarrow> ('w, bool \<times> object option) io" where
  "mm_db_get_obj mm i = first_true (map (\<lambda>p. ls_db_get_obj p i) (plain_plugins mm))"

definition mm_db_remove :: "'w module_manager \<Rightarrow> string \<Rightarrow> ('w, bool) io" where
  "mm_db_remove mm i =
     io_bind (first_true (map (\<lambda>p. plain_slot (ls_db_remove p i)) (plain_plugins mm)) ()) (\<lambda>(b, _). io_return b)"

fun find_plugin :: "string \<Rightarrow> 'w localstorage list \<Rightarrow> 'w localstorage option" where
  "find_plugin name [] = None"
| "find_plugin name (p # ps) = (if ls_getName p = name then Some p else find_plugin name ps)"

definition mm_get_ls_plugin :: "'w module_manager \<Rightarrow> string \<Rightarrow> 'w localstorage option" where
  "mm_get_ls_plugin mm name = find_plugin name (mm_localstorages mm)"

section \<open>Facts on the combiner\<close>

lemma res_check_single [simp]: "res_check [f] s = f s"
  by (auto simp: res_check_def fun_eq_iff io_simps split: prod.splits outcome.splits)

lemma mm_kv_put_single: "sig_kv_put mm = [f] \<Longrightarrow> mm_kv_put mm key v = f key v"
  by (auto simp: mm_kv_put_def plain_slot_def fun_eq_iff io_simps split: prod.splits outcome.splits)

lemma mm_kv_remove_single: "sig_kv_remove mm = [f] \<Longrightarrow> mm_kv_remove mm key = f key"
  by (auto simp: mm_kv_remove_def plain_slot_def fun_eq_iff io_simps split: prod.splits outcome.splits)

text \<open>The answers of the slots one after the other, up to the first that does not return.\<close>

fun all_slots :: "('s \<Rightarrow> ('w, bool \<times> 's) io) list \<Rightarrow> 's \<Rightarrow> ('w, bool list \<times> 's) io" where
  "all_slots [] s = io_return ([], s)"
| "all_slots (f # rest) s =
     io_bind (f s) (\<lambda>(b, s'). io_bind (all_slots rest s') (\<lambda>(bs, s''). io_return (b # bs, s'')))"

lemma res_check_loop_all:
  "res_check_loop fs state s = io_bind (all_slots fs s) (\<lambda>(bs, s'). io_return (state \<or> True \<in> set bs, s'))"
proof (induction fs arbitrary: state s)
  case (Cons f fs)
  show ?case
    by (rule ext) (auto simp: Cons.IH io_simps split: prod.splits outcome.splits)
qed (auto simp: fun_eq_iff)

lemma res_check_all: "res_check fs s = io_bind (all_slots fs s) (\<lambda>(bs, s'). io_return (True \<in> set bs, s'))"
  by (cases fs) (auto simp: res_check_def res_check_loop_all)

section \<open>Properties\<close>

text \<open>
  C35: A signal calls all its slots once each, in the order of connection, whatever they answer,
  handing the by-reference result on from slot to slot; it answers true exactly when at least one
  slot did, false without slots, and the first slot that throws ends the call with its exception.
\<close>

theorem signal_semantics:
  "res_check fs s w = (case all_slots fs s w of
       (Return (bs, s'), w') \<Rightarrow> (Return (True \<in> set bs, s'), w')
     | (Throw e, w') \<Rightarrow> (Throw e, w')
     | (Stuck, w') \<Rightarrow> (Stuck, w'))"
  by (auto simp: res_check_all io_simps split: prod.splits outcome.splits)

end
