(* ===== verification/FFStore.thy ===== *)
theory FFStore
  imports KeyValue
begin

text \<open>
  The flat file storage plugin, \<open>src/modules/localstorage/flatfilestorage/ffstore.cc\<close>: the plugin
  that serves the daemon's key-value signals. A value is written once below \<open>_data_dir\<close> under the
  path of its hash; a key is a directory below \<open>_link_dir\<close> that holds one symbolic link per value,
  named by the value's hash.

  Parameters: \<open>H\<close> (SHA-512) and \<open>fs\<close> (the file system operations). The plugin's fields are a record.
  A \<open>bool\<close>-returning member function is an \<open>io\<close> operation; a non-\<open>void\<close> function whose end is reached
  without a \<open>return\<close> is stuck.
\<close>

section \<open>State and operations\<close>

record ffstore =
  ff_path :: string
  ff_link_dir :: string
  ff_data_dir :: string

text \<open>
  \<open>FFStore::initialise\<close> after the three \<open>connect\<close> calls: the configuration \<open>cfg\<close> is empty when
  \<open>get_config\<close> failed, which is only logged. The fields are assigned as the function goes.
\<close>

definition ff_initialise ::
  "'w fs_ops \<Rightarrow> string \<Rightarrow> (string \<rightharpoonup> string) \<Rightarrow> ffstore \<Rightarrow> ('w, bool \<times> ffstore) io" where
  "ff_initialise fs datadir cfg st =
     (let st1 = st\<lparr>ff_path := datadir @ ''/ffstore''\<rparr> in
      io_bind (require_directory fs (ff_path st1)) (\<lambda>ok1.
      if \<not> ok1 then io_return (False, st1)
      else
      let st2 = st1\<lparr>ff_path := ff_path st1 @ ''/''\<rparr>;
          st3 = st2\<lparr>ff_link_dir := (case cfg ''linkdir'' of Some d \<Rightarrow> d | None \<Rightarrow> ff_path st2 @ ''link'')\<rparr> in
      io_bind (require_directory fs (ff_link_dir st3)) (\<lambda>ok2.
      if \<not> ok2 then io_return (False, st3)
      else
      let st4 = st3\<lparr>ff_link_dir := ff_link_dir st3 @ ''/''\<rparr>;
          st5 = st4\<lparr>ff_data_dir := (case cfg ''datadir'' of Some d \<Rightarrow> d | None \<Rightarrow> ff_path st4 @ ''raw'')\<rparr> in
      io_bind (require_directory fs (ff_data_dir st5)) (\<lambda>ok3.
      if \<not> ok3 then io_return (False, st5)
      else io_return (True, st5\<lparr>ff_data_dir := ff_data_dir st5 @ ''/''\<rparr>)))))"

definition ff_store_block :: "(string \<Rightarrow> string) \<Rightarrow> 'w fs_ops \<Rightarrow> ffstore \<Rightarrow> string \<Rightarrow> ('w, bool) io" where
  "ff_store_block H fs st content =
     (let hash = toHex (H content) in
      io_bind (io_of (ff_hash_to_path hash)) (\<lambda>hp.
      let file = ff_data_dir st @ hp in
      io_bind (require_directories fs (remove_filename file)) (\<lambda>ok.
      if \<not> ok then io_return False
      else (\<lambda>w. case fs_open_write fs file w of
                (False, w1) \<Rightarrow> (Return False, w1)
              | (True, w1) \<Rightarrow> (Return True, fs_append fs file content w1)))))"

definition ff_kv_put :: "(string \<Rightarrow> string) \<Rightarrow> 'w fs_ops \<Rightarrow> ffstore \<Rightarrow> string \<Rightarrow> string \<Rightarrow> ('w, bool) io" where
  "ff_kv_put H fs st key0 value =
     (let key = ff_validate_key H key0; hash = toHex (H value) in
      io_bind (ff_store_block H fs st value) (\<lambda>stored.
      if \<not> stored then io_return False
      else io_bind (io_of (ff_hash_to_path key)) (\<lambda>kp.
      io_bind (require_directories fs (remove_filename (ff_link_dir st @ kp @ ''/x''))) (\<lambda>ok.
      if \<not> ok then io_return False
      else
      let symlink = ff_link_dir st @ kp @ ''/'' @ hash in
      (\<lambda>w. if \<not> fs_exists fs symlink w
           then io_bind (io_of (ff_hash_to_path hash)) (\<lambda>hp.
                io_bind (fs_create_symlink fs (ff_data_dir st @ hp) symlink) (\<lambda>_.
                io_return True)) w
           else (Return True, w))))))"

text \<open>
  The body of the \<open>BOOST_FOREACH\<close> of \<open>kv_get\<close> returns in its first iteration, so only the first
  entry is looked at; an empty directory falls off the end of the function. The size is a \<open>uint\<close>.
\<close>

definition ff_kv_get_first :: "'w fs_ops \<Rightarrow> string list \<Rightarrow> kv_res \<Rightarrow> ('w, bool \<times> kv_res) io" where
  "ff_kv_get_first fs ps res =
     (case ps of
        [] \<Rightarrow> io_stuck
      | p # _ \<Rightarrow> (\<lambda>w. case fs_read fs p w of
            None \<Rightarrow> (Return (False, res), w)
          | Some bytes \<Rightarrow>
              io_bind (fs_file_size fs p) (\<lambda>n.
              let size = n mod 2 ^ 32; cont = take size bytes in
              io_return (True, kv_insert (filename p) cont res)) w))"

definition ff_kv_get :: "(string \<Rightarrow> string) \<Rightarrow> 'w fs_ops \<Rightarrow> ffstore \<Rightarrow> string \<Rightarrow> ('w, bool \<times> kv_res) io" where
  "ff_kv_get H fs st key0 =
     (let key = ff_validate_key H key0; res = [] in
      io_catch
        (io_bind (io_of (ff_hash_to_path key)) (\<lambda>kp.
         let mid_d = ff_link_dir st @ kp in
         (\<lambda>w. if \<not> fs_is_directory fs mid_d w then (Return (False, res), w)
              else io_bind (fs_directory fs mid_d) (\<lambda>ps. ff_kv_get_first fs ps res) w)))
        (\<lambda>e. if e = Filesystem_error then Some (io_return (False, res)) else None))"

fun ff_remove_entries :: "'w fs_ops \<Rightarrow> string list \<Rightarrow> ('w, bool) io" where
  "ff_remove_entries fs [] = io_return True"
| "ff_remove_entries fs (p # ps) =
     io_bind (fs_remove fs p) (\<lambda>b. if \<not> b then io_return False else ff_remove_entries fs ps)"

definition ff_kv_remove :: "(string \<Rightarrow> string) \<Rightarrow> 'w fs_ops \<Rightarrow> ffstore \<Rightarrow> string \<Rightarrow> ('w, bool) io" where
  "ff_kv_remove H fs st key0 =
     (let key = ff_validate_key H key0 in
      io_bind (io_of (ff_hash_to_path key)) (\<lambda>kp.
      let dir = ff_link_dir st @ kp in
      io_bind (fs_remove_all fs dir) (\<lambda>n.
      if n = 0 then
        io_bind (fs_directory fs dir) (\<lambda>ps.
        io_bind (ff_remove_entries fs ps) (\<lambda>ok.
        if \<not> ok then io_return False
        else io_bind (fs_remove fs dir) (\<lambda>b. io_return b)))
      else io_return True)))"

section \<open>Invariant\<close>

text \<open>
  The store's integrity. Below the data directory there are directories and files, and a file's path
  is the path of its content's hash; below the link directory there are directories and links, and
  a link sits in the directory of some key, is named by a hash and leads to the file of that hash.
\<close>

definition ff_wf :: "ffstore \<Rightarrow> bool" where
  "ff_wf st \<longleftrightarrow> apart (ff_link_dir st) (ff_data_dir st)"

definition raw_ok :: "(string \<Rightarrow> string) \<Rightarrow> string \<Rightarrow> view \<Rightarrow> bool" where
  "raw_ok H d m \<longleftrightarrow> (\<forall>p n. m (d @ p) = Some n \<longrightarrow>
     (case n of Dir \<Rightarrow> True | Symlink _ \<Rightarrow> False
      | File c \<Rightarrow> p = hpath (toHex (H c)) \<and> length c < 2 ^ 32))"

definition link_node_ok :: "(string \<Rightarrow> string) \<Rightarrow> string \<Rightarrow> view \<Rightarrow> string \<Rightarrow> string \<Rightarrow> bool" where
  "link_node_ok H d m h t \<longleftrightarrow> (\<exists>c. h = toHex (H c) \<and> t = d @ hpath h \<and> m t = Some (File c))"

definition links_ok :: "(string \<Rightarrow> string) \<Rightarrow> string \<Rightarrow> string \<Rightarrow> view \<Rightarrow> bool" where
  "links_ok H l d m \<longleftrightarrow> (\<forall>p n. m (l @ p) = Some n \<longrightarrow>
     (case n of
        Dir \<Rightarrow> count_list p slash \<le> 2
      | File _ \<Rightarrow> False
      | Symlink t \<Rightarrow> \<exists>k h. p = hpath k @ slash # h \<and> slash \<notin> set k \<and> link_node_ok H d m h t))"

text \<open>What has an entry is a directory.\<close>

definition keys_ok :: "string \<Rightarrow> view \<Rightarrow> bool" where
  "keys_ok l m \<longleftrightarrow> (\<forall>k h. slash \<notin> set k \<longrightarrow> slash \<notin> set h \<longrightarrow> m (l @ hpath k @ slash # h) \<noteq> None \<longrightarrow>
     m (l @ hpath k) = Some Dir)"

text \<open>
  An intact store on any file system, and on one without short writes. Only the latter keeps a store
  intact: \<open>store_block\<close> does not look at the stream after writing.
\<close>

definition ff_intact :: "(string \<Rightarrow> string) \<Rightarrow> 'w fs_ops \<Rightarrow> ('w \<Rightarrow> view) \<Rightarrow> ffstore \<Rightarrow> 'w \<Rightarrow> bool" where
  "ff_intact H fs nd st w \<longleftrightarrow> sha512_size H \<and> fs_faulty fs nd \<and> ff_wf st
     \<and> raw_ok H (ff_data_dir st) (nd w) \<and> links_ok H (ff_link_dir st) (ff_data_dir st) (nd w)
     \<and> keys_ok (ff_link_dir st) (nd w)"

definition ff_inv :: "(string \<Rightarrow> string) \<Rightarrow> 'w fs_ops \<Rightarrow> ('w \<Rightarrow> view) \<Rightarrow> ffstore \<Rightarrow> 'w \<Rightarrow> bool" where
  "ff_inv H fs nd st w \<longleftrightarrow> ff_intact H fs nd st w \<and> fs_full_writes fs nd"

definition key_dir :: "(string \<Rightarrow> string) \<Rightarrow> ffstore \<Rightarrow> string \<Rightarrow> string" where
  "key_dir H st k = ff_link_dir st @ hpath (validate_key H k)"

definition raw_file :: "(string \<Rightarrow> string) \<Rightarrow> ffstore \<Rightarrow> string \<Rightarrow> string" where
  "raw_file H st v = ff_data_dir st @ hpath (toHex (H v))"

text \<open>The abstraction: the values linked from the directory of a key.\<close>

definition ff_vals :: "(string \<Rightarrow> string) \<Rightarrow> ('w \<Rightarrow> view) \<Rightarrow> ffstore \<Rightarrow> 'w \<Rightarrow> string \<Rightarrow> string set" where
  "ff_vals H nd st w k = {v. nd w (key_dir H st k @ slash # toHex (H v)) = Some (Symlink (raw_file H st v))
     \<and> nd w (raw_file H st v) = Some (File v)}"

text \<open>A value fits the \<open>uint\<close> of \<open>kv_get\<close> and collides with nothing stored.\<close>

definition ff_storable :: "(string \<Rightarrow> string) \<Rightarrow> ('w \<Rightarrow> view) \<Rightarrow> ffstore \<Rightarrow> 'w \<Rightarrow> string \<Rightarrow> bool" where
  "ff_storable H nd st w v \<longleftrightarrow> length v < 2 ^ 32 \<and> (\<forall>u. nd w (raw_file H st v) = Some (File u) \<longrightarrow> u = v)"

text \<open>The file of a value holds a proper prefix of it: what a short write leaves.\<close>

definition ff_short :: "(string \<Rightarrow> string) \<Rightarrow> ('w \<Rightarrow> view) \<Rightarrow> ffstore \<Rightarrow> 'w \<Rightarrow> string \<Rightarrow> bool" where
  "ff_short H nd st w v \<longleftrightarrow> (\<exists>n < length v. nd w (raw_file H st v) = Some (File (take n v)))"

definition ff_clash :: "(string \<Rightarrow> string) \<Rightarrow> string \<Rightarrow> string \<Rightarrow> bool" where
  "ff_clash H k k' \<longleftrightarrow> validate_key H k = validate_key H k'"

section \<open>Lemmas on the invariant\<close>

lemma below_cancel [simp]: "below (l @ x) (l @ y) \<longleftrightarrow> below x y"
  by (simp add: below_def)

lemma below_count: "below x y \<Longrightarrow> count_list x slash \<le> count_list y slash"
  by (auto simp: below_def prefix_def)

lemma hpath_entry_eq:
  assumes "slash \<notin> set h" and "slash \<notin> set h'"
  shows "hpath a @ slash # h = hpath b @ slash # h' \<longleftrightarrow> hpath a = hpath b \<and> h = h'"
  using assms by (rule snoc_sep_iff)

lemma below_entry:
  assumes "below (hpath a) (hpath b @ slash # h)" and "slash \<notin> set a" and "slash \<notin> set b"
    and "slash \<notin> set h"
  shows "hpath a = hpath b"
proof -
  have "hpath a \<noteq> hpath b @ slash # h"
  proof
    assume "hpath a = hpath b @ slash # h"
    then have "count_list (hpath a) slash = count_list (hpath b @ slash # h) slash" by simp
    with assms show False by simp
  qed
  with assms(1) obtain z where z: "hpath b @ slash # h = hpath a @ slash # z"
    by (auto simp: below_def prefix_def)
  then have "count_list (hpath b @ slash # h) slash = count_list (hpath a @ slash # z) slash" by simp
  with assms have "count_list z slash = 0" by simp
  then have "slash \<notin> set z" by (simp add: count_list_0_iff)
  with z assms(4) show ?thesis by (simp add: snoc_sep_iff)
qed

lemma below_hpath:
  assumes "below (hpath a) (hpath b)" and "slash \<notin> set a" and "slash \<notin> set b"
  shows "hpath a = hpath b"
proof (rule ccontr)
  assume "hpath a \<noteq> hpath b"
  with assms(1) have "prefix (hpath a @ [slash]) (hpath b)" by (simp add: below_def)
  then obtain z where "hpath b = hpath a @ slash # z" by (auto simp: prefix_def)
  then have "count_list (hpath b) slash = count_list (hpath a @ slash # z) slash" by simp
  with assms show False by simp
qed

lemma raw_ok_File: "raw_ok H d m \<Longrightarrow> m (d @ p) = Some (File c) \<Longrightarrow> p = hpath (toHex (H c)) \<and> length c < 2 ^ 32"
  by (force simp: raw_ok_def)

lemma raw_ok_Symlink: "raw_ok H d m \<Longrightarrow> m (d @ p) \<noteq> Some (Symlink t)"
  by (force simp: raw_ok_def)

text \<open>A view whose nodes below the data directory come from an intact one, or are directories.\<close>

lemma raw_ok_sub:
  assumes "raw_ok H d m" and "\<And>p n. m' (d @ p) = Some n \<Longrightarrow> m (d @ p) = Some n \<or> n = Dir"
  shows "raw_ok H d m'"
  unfolding raw_ok_def
proof (intro allI impI)
  fix p n assume "m' (d @ p) = Some n"
  from assms(2) [OF this] assms(1) show "case n of Dir \<Rightarrow> True | Symlink _ \<Rightarrow> False
      | File c \<Rightarrow> p = hpath (toHex (H c)) \<and> length c < 2 ^ 32"
    by (auto simp: raw_ok_def)
qed

lemma raw_ok_dirs: "raw_ok H d m \<Longrightarrow> dirs_added m m' p \<Longrightarrow> raw_ok H d m'"
  by (erule raw_ok_sub) (use dirs_added_new in blast)

lemma raw_file_inj: "raw_file H st u = raw_file H st v \<Longrightarrow> sha512_size H \<Longrightarrow> toHex (H u) = toHex (H v)"
  by (auto simp: raw_file_def intro: hpath_inj)

lemma link_node_ok_mono:
  "link_node_ok H d m h t \<Longrightarrow> (\<And>q c. m q = Some (File c) \<Longrightarrow> m' q = Some (File c)) \<Longrightarrow> link_node_ok H d m' h t"
  by (auto simp: link_node_ok_def)

text \<open>
  A view whose nodes below the link directory come from an intact one, or are shallow directories,
  or are proper links.
\<close>

lemma links_ok_sub:
  assumes "links_ok H l d m"
    and sub: "\<And>p n. m' (l @ p) = Some n \<Longrightarrow> m (l @ p) = Some n \<or> (n = Dir \<and> count_list p slash \<le> 2)
      \<or> (\<exists>k h t. n = Symlink t \<and> p = hpath k @ slash # h \<and> slash \<notin> set k \<and> link_node_ok H d m' h t)"
    and keep: "\<And>h t. link_node_ok H d m h t \<Longrightarrow> link_node_ok H d m' h t"
  shows "links_ok H l d m'"
  unfolding links_ok_def
proof (intro allI impI)
  fix p n assume "m' (l @ p) = Some n"
  from sub [OF this] show "case n of Dir \<Rightarrow> count_list p slash \<le> 2 | File _ \<Rightarrow> False
      | Symlink t \<Rightarrow> \<exists>k h. p = hpath k @ slash # h \<and> slash \<notin> set k \<and> link_node_ok H d m' h t"
  proof (elim disjE)
    assume "m (l @ p) = Some n"
    with assms(1) have "case n of Dir \<Rightarrow> count_list p slash \<le> 2 | File _ \<Rightarrow> False
      | Symlink t \<Rightarrow> \<exists>k h. p = hpath k @ slash # h \<and> slash \<notin> set k \<and> link_node_ok H d m h t"
      by (simp add: links_ok_def)
    then show ?thesis using keep by (cases n) (simp_all, blast)
  next
    assume "\<exists>k h t. n = Symlink t \<and> p = hpath k @ slash # h \<and> slash \<notin> set k \<and> link_node_ok H d m' h t"
    then show ?thesis by (elim exE conjE) (simp only: node.case, blast)
  qed simp
qed

lemma links_ok_dirs:
  assumes "links_ok H l d m" and "dirs_added m m' p"
    and "\<And>x. below (l @ x) p \<Longrightarrow> count_list x slash \<le> 2"
  shows "links_ok H l d m'"
  using assms(1)
proof (rule links_ok_sub)
  show "m (l @ q) = Some n \<or> (n = Dir \<and> count_list q slash \<le> 2)
      \<or> (\<exists>k h t. n = Symlink t \<and> q = hpath k @ slash # h \<and> slash \<notin> set k \<and> link_node_ok H d m' h t)"
    if "m' (l @ q) = Some n" for q n
    using that dirs_added_cases [OF assms(2), of "l @ q"] assms(3) by auto
  show "link_node_ok H d m' h t" if "link_node_ok H d m h t" for h t
    using that by (rule link_node_ok_mono) (rule dirs_added_keep [OF assms(2)])
qed

lemma links_ok_Dir: "links_ok H l d m \<Longrightarrow> m (l @ p) = Some Dir \<Longrightarrow> count_list p slash \<le> 2"
  by (force simp: links_ok_def)

lemma links_ok_File: "links_ok H l d m \<Longrightarrow> m (l @ p) \<noteq> Some (File c)"
  by (force simp: links_ok_def)

lemma links_ok_Symlink:
  assumes "links_ok H l d m" and "m (l @ p) = Some (Symlink t)"
  obtains k h where "p = hpath k @ slash # h" and "slash \<notin> set k" and "link_node_ok H d m h t"
  using assms by (force simp: links_ok_def)

text \<open>An entry of a key's directory is a link to the file it is named after.\<close>

lemma links_ok_entry:
  assumes "links_ok H l d m" and "m (l @ hpath k @ slash # h) = Some n"
    and "slash \<notin> set k" and "slash \<notin> set h"
  obtains c where "n = Symlink (d @ hpath h)" and "h = toHex (H c)" and "m (d @ hpath h) = Some (File c)"
proof (cases n)
  case (Symlink t)
  with assms(1,2) obtain k' h' where p: "hpath k @ slash # h = hpath k' @ slash # h'"
    and ok: "link_node_ok H d m h' t"
    by (auto elim: links_ok_Symlink)
  from ok have "slash \<notin> set h'" by (auto simp: link_node_ok_def)
  with p assms(4) have "h' = h" by (simp add: snoc_sep_iff)
  with ok Symlink show ?thesis by (auto simp: link_node_ok_def intro: that)
next
  case Dir
  with assms(1,2) have "count_list (hpath k @ slash # h) slash \<le> 2" by (auto dest: links_ok_Dir)
  with assms(3,4) show ?thesis by simp
qed (use assms(1,2) links_ok_File in auto)

lemma links_ok_key:
  assumes "links_ok H l d m" and "slash \<notin> set k"
  shows "m (l @ hpath k) = None \<or> m (l @ hpath k) = Some Dir"
proof (cases "m (l @ hpath k)")
  case (Some n)
  show ?thesis
  proof (cases n)
    case (Symlink t)
    with Some assms(1) obtain k' h' where "hpath k = hpath k' @ slash # h'" and "slash \<notin> set k'"
      by (auto elim: links_ok_Symlink)
    then have "count_list (hpath k) slash = count_list (hpath k' @ slash # h') slash" by simp
    with assms(2) \<open>slash \<notin> set k'\<close> show ?thesis by simp
  qed (use Some assms(1) links_ok_File in auto)
qed simp


text \<open>
  Two worlds with the same entries in the directory of a key, the second keeping every file of the
  first, hold the same values under that key.
\<close>

lemma ff_vals_keep:
  assumes inv: "ff_intact H fs nd st w" and k: "key_ok k"
    and same: "\<And>h. slash \<notin> set h \<Longrightarrow> nd w' (key_dir H st k @ slash # h) = nd w (key_dir H st k @ slash # h)"
    and files: "\<And>p c. nd w (ff_data_dir st @ p) = Some (File c) \<Longrightarrow> nd w' (ff_data_dir st @ p) = Some (File c)"
  shows "ff_vals H nd st w' k = ff_vals H nd st w k"
proof -
  have "v \<in> ff_vals H nd st w' k \<longleftrightarrow> v \<in> ff_vals H nd st w k" for v
  proof (cases "nd w (key_dir H st k @ slash # toHex (H v)) = Some (Symlink (raw_file H st v))")
    case True
    from inv have "links_ok H (ff_link_dir st) (ff_data_dir st) (nd w)" by (simp add: ff_intact_def)
    moreover from True have "nd w (ff_link_dir st @ hpath (validate_key H k) @ slash # toHex (H v))
        = Some (Symlink (raw_file H st v))" by (simp add: key_dir_def)
    ultimately obtain c where "nd w (raw_file H st v) = Some (File c)"
      using k by (auto simp: raw_file_def elim: links_ok_entry)
    moreover from this files have "nd w' (raw_file H st v) = Some (File c)"
      by (simp add: raw_file_def)
    ultimately show ?thesis using True same by (simp add: ff_vals_def)
  next
    case False
    then show ?thesis using same by (simp add: ff_vals_def)
  qed
  then show ?thesis by blast
qed

section \<open>Storing a block\<close>

lemma ff_hash_to_path_hash [simp]:
  "sha512_size H \<Longrightarrow> ff_hash_to_path (toHex (H v)) = Return (hpath (toHex (H v)))"
  by (simp add: ff_hash_to_path_eq hash_to_path_hash)

lemma ff_hash_to_path_validated [simp]:
  "sha512_size H \<Longrightarrow> ff_hash_to_path (validate_key H k) = Return (hpath (validate_key H k))"
  by (simp add: ff_hash_to_path_eq hash_to_path_validated)

lemma ff_store_block_effect:
  assumes inv: "ff_intact H fs nd st w" and run: "ff_store_block H fs st v w = (r, w')"
  obtains m n where "dirs_added (nd w) m (remove_filename (raw_file H st v))" and "r \<noteq> Stuck"
    and "nd w' = (if r = Return True then m(raw_file H st v \<mapsto> File (take n v)) else m)"
    and "fs_full_writes fs nd \<Longrightarrow> take n v = v"
proof -
  let ?f = "raw_file H st v"
  from inv have H: "sha512_size H" and fs: "fs_faulty fs nd" by (auto simp: ff_intact_def)
  obtain r1 w1 where dirs: "require_directories fs (remove_filename ?f) w = (r1, w1)"
    by fastforce
  note eff = faulty_require_directories_effect [OF fs dirs]
  show ?thesis
  proof (cases "r1 = Return True")
    case False
    with run H dirs eff(1) have "r \<noteq> Return True" "r \<noteq> Stuck" "w' = w1"
      by (auto simp: ff_store_block_def raw_file_def Let_def io_simps split: outcome.splits if_splits)
    with eff show ?thesis by (intro that [of "nd w1" "length v"]) auto
  next
    case True
    obtain b w2 where opened: "fs_open_write fs ?f w1 = (b, w2)" by fastforce
    have "raw_ok H (ff_data_dir st) (nd w1)"
      using inv eff(2) by (auto simp: ff_intact_def intro: raw_ok_dirs)
    then have "nd w1 ?f \<noteq> Some (Symlink t)" for t
      unfolding raw_file_def by (rule raw_ok_Symlink)
    note wr = faulty_open_write_effect [OF fs opened this]
    from run H dirs True opened have r: "r = Return b" "w' = (if b then fs_append fs ?f v w2 else w2)"
      by (auto simp: ff_store_block_def raw_file_def Let_def io_simps split: bool.splits)
    show ?thesis
    proof (cases b)
      case True
      with wr(1) have w2: "nd w2 = (nd w1)(?f \<mapsto> File [])" by simp
      then obtain n where n: "nd (fs_append fs ?f v w2) = (nd w2)(?f \<mapsto> File (take n v))"
        using faulty_append_effect [OF fs, of w2 ?f "[]" v] by auto
      have "take n v = v" if "fs_full_writes fs nd"
        using full_append_effect [OF that, of w2 ?f "[]" v] w2 n by (auto dest: fun_cong [where x = ?f])
      with True w2 n r eff(2) show ?thesis by (intro that [of "nd w1" n]) auto
    next
      case False
      with r wr(1) eff(2) show ?thesis by (intro that [of "nd w1" "length v"]) auto
    qed
  qed
qed

text \<open>
  Storing an admissible value so that it is in its file keeps every file and every link; a failure does so too.
\<close>

lemma ff_store_block_keeps:
  assumes inv: "ff_intact H fs nd st w" and v: "ff_storable H nd st w v"
    and run: "ff_store_block H fs st v w = (r, w')"
    and full: "r = Return True \<longrightarrow> nd w' (raw_file H st v) = Some (File v)"
  shows "ff_intact H fs nd st w'" and "\<And>p. nd w' (ff_link_dir st @ p) = nd w (ff_link_dir st @ p)"
    and "\<And>q c. nd w q = Some (File c) \<Longrightarrow> nd w' q = Some (File c)"
    and "r \<noteq> Stuck" and "ff_storable H nd st w' v"
proof -
  let ?f = "raw_file H st v" and ?l = "ff_link_dir st" and ?d = "ff_data_dir st"
  from inv have H: "sha512_size H" and fs: "fs_faulty fs nd" and ap: "apart ?l ?d"
    and raw: "raw_ok H ?d (nd w)" and links: "links_ok H ?l ?d (nd w)"
    by (auto simp: ff_intact_def ff_wf_def)
  obtain m n where m: "dirs_added (nd w) m (remove_filename ?f)"
    and r: "r \<noteq> Stuck" and wn: "nd w' = (if r = Return True then m(?f \<mapsto> File (take n v)) else m)"
    using inv run by (rule ff_store_block_effect)
  with full have w': "nd w' = (if r = Return True then m(?f \<mapsto> File v) else m)" by auto
  have dir: "remove_filename ?f = ?d @ take 2 (toHex (H v)) @ slash # take 2 (drop 2 (toHex (H v)))"
    unfolding raw_file_def by (rule remove_filename_hpath) simp
  show link: "nd w' (?l @ p) = nd w (?l @ p)" for p
  proof -
    have "?l @ p \<noteq> ?f" using ap by (simp add: raw_file_def apart_append_neq)
    moreover have "m (?l @ p) = nd w (?l @ p)"
      using dirs_added_cases [OF m, of "?l @ p"] not_below_apart [OF ap] by (auto simp: dir)
    ultimately show ?thesis by (simp add: w')
  qed
  show files: "nd w' q = Some (File c)" if "nd w q = Some (File c)" for q c
    using that v dirs_added_keep [OF m that] by (auto simp: w' ff_storable_def)
  show "r \<noteq> Stuck" by (rule r)
  have "nd w ?f = Some (File u)" if "m ?f = Some (File u)" for u
    using dirs_added_new [OF m that] by simp
  with v show "ff_storable H nd st w' v" by (auto simp: ff_storable_def w')
  have "raw_ok H ?d m" using raw m by (rule raw_ok_dirs)
  then have "raw_ok H ?d (nd w')"
    using v by (auto simp: w' raw_ok_def raw_file_def ff_storable_def)
  moreover have "links_ok H ?l ?d (nd w')"
    using links by (rule links_ok_sub) (auto simp: link intro: link_node_ok_mono files)
  moreover have "keys_ok ?l (nd w')"
    using inv by (simp add: ff_intact_def keys_ok_def link)
  ultimately show "ff_intact H fs nd st w'"
    using inv by (simp add: ff_intact_def)
qed

section \<open>Putting a value\<close>

lemma below_key_dir:
  "key_ok k \<Longrightarrow> below (ff_link_dir st @ x) (key_dir H st k) \<Longrightarrow> count_list x slash \<le> 2"
  using below_count [of x "hpath (validate_key H k)"] by (simp add: key_dir_def)

text \<open>Making the directory of a key leaves every key's entries alone.\<close>

lemma ff_key_dirs:
  assumes inv: "ff_intact H fs nd st w" and k: "key_ok k" and dirs: "dirs_added (nd w) (nd w') (key_dir H st k)"
  shows "ff_intact H fs nd st w'"
    and "\<And>k' h. key_ok k' \<Longrightarrow> slash \<notin> set h \<Longrightarrow>
      nd w' (key_dir H st k' @ slash # h) = nd w (key_dir H st k' @ slash # h)"
proof -
  let ?l = "ff_link_dir st"
  have entry: "nd w' (?l @ hpath a @ slash # h) = nd w (?l @ hpath a @ slash # h)" if "slash \<notin> set a" for a h
  proof -
    have "\<not> below (?l @ hpath a @ slash # h) (key_dir H st k)"
      using that below_key_dir [OF k, of st "hpath a @ slash # h" H] by auto
    with dirs_added_cases [OF dirs, of "?l @ hpath a @ slash # h"] show ?thesis by blast
  qed
  have "raw_ok H (ff_data_dir st) (nd w')"
    using inv by (auto simp: ff_intact_def intro: raw_ok_dirs [OF _ dirs])
  moreover have "links_ok H ?l (ff_data_dir st) (nd w')"
    using inv by (auto simp: ff_intact_def intro: links_ok_dirs [OF _ dirs] below_key_dir [OF k])
  moreover have "keys_ok ?l (nd w')"
    using inv dirs_added_keep [OF dirs] by (auto simp: ff_intact_def keys_ok_def entry)
  ultimately show "ff_intact H fs nd st w'"
    using inv by (simp add: ff_intact_def)
  fix k' h assume "key_ok k'" and "slash \<notin> set (h :: string)"
  then show "nd w' (key_dir H st k' @ slash # h) = nd w (key_dir H st k' @ slash # h)"
    by (simp add: key_dir_def entry)
qed

text \<open>Linking a stored value from the directory of a key.\<close>

lemma ff_link_added:
  assumes inv: "ff_intact H fs nd st w" and k: "key_ok k" and dir: "nd w (key_dir H st k) = Some Dir"
    and raw: "nd w (raw_file H st v) = Some (File v)"
    and w': "nd w' = (nd w)(key_dir H st k @ slash # toHex (H v) \<mapsto> Symlink (raw_file H st v))"
  shows "ff_intact H fs nd st w'" and "\<And>q c. nd w (ff_data_dir st @ q) = Some (File c) \<Longrightarrow> nd w' (ff_data_dir st @ q) = Some (File c)"
proof -
  let ?l = "ff_link_dir st" and ?d = "ff_data_dir st"
  from inv have ap: "apart ?l ?d" and rok: "raw_ok H ?d (nd w)" and links: "links_ok H ?l ?d (nd w)"
    by (auto simp: ff_intact_def ff_wf_def)
  have data: "nd w' (?d @ q) = nd w (?d @ q)" for q
    using apart_append_neq [OF ap, symmetric] by (simp add: w' key_dir_def)
  then show "nd w (?d @ q) = Some (File c) \<Longrightarrow> nd w' (?d @ q) = Some (File c)" for q c by simp
  have target: "link_node_ok H ?d (nd w') h t" if "link_node_ok H ?d (nd w) h t" for h t
    using that data by (auto simp: link_node_ok_def)
  have new: "link_node_ok H ?d (nd w') (toHex (H v)) (raw_file H st v)"
    using raw data by (auto simp: link_node_ok_def raw_file_def)
  have "links_ok H ?l ?d (nd w')"
    using links _ target
  proof (rule links_ok_sub)
    fix p n assume n: "nd w' (?l @ p) = Some n"
    show "nd w (?l @ p) = Some n \<or> (n = Dir \<and> count_list p slash \<le> 2)
      \<or> (\<exists>k h t. n = Symlink t \<and> p = hpath k @ slash # h \<and> slash \<notin> set k \<and> link_node_ok H ?d (nd w') h t)"
    proof (cases "p = hpath (validate_key H k) @ slash # toHex (H v)")
      case True
      with n have "n = Symlink (raw_file H st v)" by (simp add: w' key_dir_def)
      with True new key_ok_no_slash [OF k, of H] show ?thesis by blast
    next
      case False
      with n show ?thesis by (simp add: w' key_dir_def)
    qed
  qed
  moreover have "raw_ok H ?d (nd w')"
    using rok by (rule raw_ok_sub) (simp add: data)
  moreover have "nd w' (?l @ hpath a) = nd w (?l @ hpath a)" if "slash \<notin> set a" for a
  proof -
    have "count_list (hpath a) slash \<noteq> count_list (hpath (validate_key H k) @ slash # toHex (H v)) slash"
      using that k by simp
    then have "hpath a \<noteq> hpath (validate_key H k) @ slash # toHex (H v)" by metis
    then show ?thesis by (simp add: w' key_dir_def)
  qed
  then have "keys_ok ?l (nd w')"
    using inv dir by (auto simp: ff_intact_def keys_ok_def w' key_dir_def hpath_entry_eq)
  ultimately show "ff_intact H fs nd st w'" using inv by (simp add: ff_intact_def)
qed

text \<open>A link that is not there is a node that is not there.\<close>

lemma ff_link_present:
  assumes inv: "ff_intact H fs nd st w" and k: "key_ok k" and raw: "nd w (raw_file H st v) = Some (File v)"
  shows "fs_exists fs (key_dir H st k @ slash # toHex (H v)) w \<longleftrightarrow>
      nd w (key_dir H st k @ slash # toHex (H v)) = Some (Symlink (raw_file H st v))"
proof (cases "nd w (key_dir H st k @ slash # toHex (H v))")
  case None
  with inv show ?thesis by (auto simp: ff_intact_def faulty_exists_iff follow_missing)
next
  case (Some n)
  with inv k have "n = Symlink (raw_file H st v)"
    by (auto simp: key_dir_def raw_file_def ff_intact_def elim!: links_ok_entry)
  with Some inv raw show ?thesis by (auto simp: ff_intact_def faulty_exists_iff follow_Symlink)
qed

lemma ff_key_dir_cases:
  assumes "ff_intact H fs nd st w" and "key_ok k"
  shows "nd w (key_dir H st k) = None \<or> nd w (key_dir H st k) = Some Dir"
  using assms links_ok_key [of H "ff_link_dir st" "ff_data_dir st" "nd w" "validate_key H k"]
  by (simp add: ff_intact_def key_dir_def)

text \<open>What \<open>kv_put\<close> does after the block is stored, whatever that left: it keeps all files and all other entries.\<close>

lemma ff_dirs_entry:
  assumes "key_ok k" and "key_ok k'" and "dirs_added m m' (key_dir H st k)"
  shows "m' (key_dir H st k' @ slash # h) = m (key_dir H st k' @ slash # h)"
proof -
  have "\<not> below (key_dir H st k' @ slash # h) (key_dir H st k)"
    using below_key_dir [OF assms(1), of st "hpath (validate_key H k') @ slash # h" H] assms(2) by (auto simp: key_dir_def)
  with dirs_added_cases [OF assms(3), of "key_dir H st k' @ slash # h"] show ?thesis by blast
qed

lemma ff_entry_eq:
  "slash \<notin> set h \<Longrightarrow> slash \<notin> set h' \<Longrightarrow> key_dir H st k' @ slash # h = key_dir H st k @ slash # h' \<Longrightarrow> h = h'"
  using hpath_entry_eq [of h h' "validate_key H k'" "validate_key H k"] by (simp add: key_dir_def)

lemma ff_kv_put_nodes:
  assumes fs: "fs_faulty fs nd" and H: "sha512_size H" and k: "key_ok k"
    and sb: "ff_store_block H fs st v w = (Return True, w1)" and run: "ff_kv_put H fs st k v w = (r, w')"
  shows "r \<noteq> Stuck" and "nd w' q = Some (File c) \<longleftrightarrow> nd w1 q = Some (File c)"
    and "key_ok k' \<Longrightarrow> slash \<notin> set h \<Longrightarrow> h \<noteq> toHex (H v) \<Longrightarrow> nd w' (key_dir H st k' @ slash # h) = nd w1 (key_dir H st k' @ slash # h)"
proof -
  let ?link = "key_dir H st k @ slash # toHex (H v)"
  obtain r2 w2 where d: "require_directories fs (key_dir H st k) w1 = (r2, w2)" by fastforce
  note rd = faulty_require_directories_effect [OF fs d]
  have rf: "remove_filename (ff_link_dir st @ hpath (validate_key H k) @ ''/x'') = key_dir H st k"
    using remove_filename_snoc [of "''x''" "key_dir H st k"] by (simp add: key_dir_def)
  have two: "nd w2 q = Some (File c) \<longleftrightarrow> nd w1 q = Some (File c)" for q c
    using dirs_added_keep [OF rd(2), of q "File c"] dirs_added_new [OF rd(2), of q "File c"] by auto
  note entry2 = ff_dirs_entry [OF k _ rd(2)]
  have "r \<noteq> Stuck \<and> (nd w' = nd w2 \<or> nd w2 ?link = None \<and> nd w' = (nd w2)(?link \<mapsto> Symlink (raw_file H st v)))"
  proof (cases "r2 = Return True \<and> \<not> fs_exists fs ?link w2")
    case False
    with run sb d rd(1) show ?thesis
      by (auto simp: ff_kv_put_def Let_def io_simps H rf key_dir_def raw_file_def split: outcome.splits if_splits)
  next
    case True
    obtain r3 w3 where c: "fs_create_symlink fs (raw_file H st v) ?link w2 = (r3, w3)" by fastforce
    from run sb d True c have "(r, w') = (case r3 of Return _ \<Rightarrow> (Return True, w3) | Throw e \<Rightarrow> (Throw e, w3) | Stuck \<Rightarrow> (Stuck, w3))"
      by (auto simp: ff_kv_put_def Let_def io_simps H rf key_dir_def raw_file_def split: outcome.splits)
    with faulty_create_symlink_effect [OF fs c] show ?thesis by auto
  qed
  then show "r \<noteq> Stuck" and "nd w' q = Some (File c) \<longleftrightarrow> nd w1 q = Some (File c)"
    and "key_ok k' \<Longrightarrow> slash \<notin> set h \<Longrightarrow> h \<noteq> toHex (H v) \<Longrightarrow> nd w' (key_dir H st k' @ slash # h) = nd w1 (key_dir H st k' @ slash # h)"
    using two [of q c] entry2 [of k' h] ff_entry_eq [of h "toHex (H v)" H st k' k] by (auto split: if_splits)
qed

text \<open>A block whose file holds less than the value after \<open>kv_put\<close> was cut short when it was stored.\<close>

lemma ff_kv_put_full:
  assumes inv: "ff_intact H fs nd st w" and k: "key_ok k" and full: "\<not> ff_short H nd st w' v"
    and sb: "ff_store_block H fs st v w = (r1, w1)" and run: "ff_kv_put H fs st k v w = (r, w')"
    and ok: "r1 = Return True"
  shows "nd w1 (raw_file H st v) = Some (File v)"
proof -
  obtain m n where "nd w1 = (if r1 = Return True then m(raw_file H st v \<mapsto> File (take n v)) else m)"
    using inv sb by (rule ff_store_block_effect)
  with ok have w1: "nd w1 (raw_file H st v) = Some (File (take n v))" by simp
  with ff_kv_put_nodes(2) [OF _ _ k sb [unfolded ok] run] inv have "nd w' (raw_file H st v) = Some (File (take n v))"
    by (auto simp: ff_intact_def)
  with full have "length v \<le> n" by (auto simp: ff_short_def not_less)
  with w1 show ?thesis by simp
qed

text \<open>The three ways a \<open>kv_put\<close> can go after the block is stored in full.\<close>

lemma ff_kv_put_effect:
  assumes inv: "ff_intact H fs nd st w" and k: "key_ok k" and v: "ff_storable H nd st w v"
    and run: "ff_kv_put H fs st k v w = (r, w')" and full: "\<not> ff_short H nd st w' v"
  obtains w1 where "ff_intact H fs nd st w1" and "r \<noteq> Stuck" and "ff_storable H nd st w1 v"
    and "\<And>k'. key_ok k' \<Longrightarrow> ff_vals H nd st w1 k' = ff_vals H nd st w k'"
    and "nd w' = nd w1 \<and> r \<noteq> Return True
       \<or> r = Return True \<and> nd w1 (raw_file H st v) = Some (File v) \<and> nd w1 (key_dir H st k) = Some Dir
         \<and> nd w' = (nd w1)(key_dir H st k @ slash # toHex (H v) \<mapsto> Symlink (raw_file H st v))"
proof -
  let ?link = "key_dir H st k @ slash # toHex (H v)"
  from inv have H: "sha512_size H" and fs: "fs_faulty fs nd" by (auto simp: ff_intact_def)
  obtain r1 w1 where s: "ff_store_block H fs st v w = (r1, w1)" by fastforce
  have "r1 = Return True \<longrightarrow> nd w1 (raw_file H st v) = Some (File v)"
    using ff_kv_put_full [OF inv k full s run] by blast
  note sb = ff_store_block_keeps [OF inv v s this]
  have vals1: "ff_vals H nd st w1 k' = ff_vals H nd st w k'" if "key_ok k'" for k'
    using inv that by (rule ff_vals_keep) (auto simp: key_dir_def sb(2) sb(3))
  show ?thesis
  proof (cases "r1 = Return True")
    case False
    with run s sb(4) have "w' = w1" "r \<noteq> Return True" "r \<noteq> Stuck"
      by (auto simp: ff_kv_put_def Let_def io_simps split: outcome.splits)
    with sb(1,5) vals1 show ?thesis by (intro that) auto
  next
    case True
    obtain r2 w2 where d: "require_directories fs (key_dir H st k) w1 = (r2, w2)" by fastforce
    note rd = faulty_require_directories_effect [OF fs d]
    note kd = ff_key_dirs [OF sb(1) k rd(2)]
    have vals2: "ff_vals H nd st w2 k' = ff_vals H nd st w k'" if "key_ok k'" for k'
      using ff_vals_keep [OF sb(1) that, where w' = w2] kd(2) [OF that] vals1 [OF that] rd(2)
      by (auto intro: dirs_added_keep)
    have raw: "nd w2 (raw_file H st v) = Some (File v)"
      using ff_kv_put_full [OF inv k full s run True] rd(2) by (auto intro: dirs_added_keep)
    with v have sto: "ff_storable H nd st w2 v" by (simp add: ff_storable_def)
    have rf: "remove_filename (ff_link_dir st @ hpath (validate_key H k) @ ''/x'') = key_dir H st k"
      using remove_filename_snoc [of "''x''" "key_dir H st k"] by (simp add: key_dir_def)
    show ?thesis
    proof (cases "r2 = Return True")
      case False
      with run s True d rd(1) have "w' = w2" "r \<noteq> Return True" "r \<noteq> Stuck"
        by (auto simp: ff_kv_put_def Let_def io_simps H rf split: outcome.splits)
      with kd(1) vals2 sto show ?thesis by (intro that [of w2]) auto
    next
      case ok: True
      with rd(3) ff_key_dir_cases [OF kd(1) k] have dir: "nd w2 (key_dir H st k) = Some Dir"
        by (auto simp: follow_missing)
      have step: "(r, w') = (if \<not> fs_exists fs ?link w2
          then io_bind (fs_create_symlink fs (raw_file H st v) ?link) (\<lambda>_. io_return True) w2 else (Return True, w2))"
        using run s True d ok by (auto simp: ff_kv_put_def Let_def io_simps H rf key_dir_def raw_file_def)
      show ?thesis
      proof (cases "fs_exists fs ?link w2")
        case True
        with ff_link_present [OF kd(1) k raw] step raw have "nd w' = (nd w2)(?link \<mapsto> Symlink (raw_file H st v))"
          "r = Return True" by auto
        with kd(1) vals2 sto raw dir show ?thesis by (intro that [of w2]) auto
      next
        case False
        obtain r3 w3 where c: "fs_create_symlink fs (raw_file H st v) ?link w2 = (r3, w3)" by fastforce
        from faulty_create_symlink_effect [OF fs c] step False c kd(1) vals2 sto raw dir show ?thesis
          by (intro that [of w2]) (auto simp: io_simps)
      qed
    qed
  qed
qed


lemma ff_kv_put_inv:
  "ff_intact H fs nd st w \<Longrightarrow> key_ok k \<Longrightarrow> ff_storable H nd st w v \<Longrightarrow> ff_kv_put H fs st k v w = (r, w') \<Longrightarrow>
   \<not> ff_short H nd st w' v \<Longrightarrow> ff_intact H fs nd st w'"
proof (erule ff_kv_put_effect, assumption+, elim disjE conjE)
  fix w1 assume "ff_intact H fs nd st w1" and "nd w' = nd w1"
  then show "ff_intact H fs nd st w'" by (simp add: ff_intact_def)
qed (rule ff_link_added(1))

lemma ff_kv_put_storable:
  assumes inv: "ff_intact H fs nd st w" and k: "key_ok k" and v: "ff_storable H nd st w v"
    and run: "ff_kv_put H fs st k v w = (r, w')" and full: "\<not> ff_short H nd st w' v"
  shows "ff_storable H nd st w' v"
  using assms
proof (rule ff_kv_put_effect)
  fix w1 assume w1: "ff_storable H nd st w1 v" and w': "nd w' = nd w1 \<and> r \<noteq> Return True
       \<or> r = Return True \<and> nd w1 (raw_file H st v) = Some (File v) \<and> nd w1 (key_dir H st k) = Some Dir
         \<and> nd w' = (nd w1)(key_dir H st k @ slash # toHex (H v) \<mapsto> Symlink (raw_file H st v))"
  from w' show ?thesis using w1 by (auto simp: ff_storable_def split: if_splits)
qed

lemma ff_vals_link:
  assumes inv: "ff_intact H fs nd st w" and k: "key_ok k" and k': "key_ok k'" and kd: "nd w (key_dir H st k) = Some Dir"
    and raw: "nd w (raw_file H st v) = Some (File v)"
    and w': "nd w' = (nd w)(key_dir H st k @ slash # toHex (H v) \<mapsto> Symlink (raw_file H st v))"
  shows "ff_vals H nd st w' k' = (if ff_clash H k k' then insert v (ff_vals H nd st w k') else ff_vals H nd st w k')"
proof (cases "ff_clash H k k'")
  case False
  from inv have "4 \<le> length (validate_key H k)" "4 \<le> length (validate_key H k')"
    using length_validate_key [of H] by (auto simp: ff_intact_def intro: le_trans [of 4 128])
  with False have "hpath (validate_key H k) \<noteq> hpath (validate_key H k')"
    by (auto simp: ff_clash_def dest: hpath_inj)
  then have "nd w' (key_dir H st k' @ slash # h) = nd w (key_dir H st k' @ slash # h)" if "slash \<notin> set h" for h
    using that by (auto simp: w' key_dir_def snoc_sep_iff)
  with ff_vals_keep [OF inv k', where w' = w'] ff_link_added(2) [OF inv k kd raw w'] False
  show ?thesis by simp
next
  case True
  then have dir: "key_dir H st k' = key_dir H st k" by (simp add: key_dir_def ff_clash_def)
  from inv have "apart (ff_link_dir st) (ff_data_dir st)" by (simp add: ff_intact_def ff_wf_def)
  then have data: "nd w' (raw_file H st u) = nd w (raw_file H st u)" for u
    using apart_append_neq [of "ff_link_dir st" "ff_data_dir st", symmetric]
    by (simp add: w' key_dir_def raw_file_def)
  have "u \<in> ff_vals H nd st w' k' \<longleftrightarrow> u = v \<or> u \<in> ff_vals H nd st w k'" for u
  proof (cases "toHex (H u) = toHex (H v)")
    case True
    then have "raw_file H st u = raw_file H st v" by (simp add: raw_file_def)
    with True raw data show ?thesis by (auto simp: ff_vals_def dir w')
  next
    case False
    then show ?thesis using data by (auto simp: ff_vals_def dir w' snoc_sep_iff)
  qed
  with True show ?thesis by auto
qed

section \<open>Getting a value\<close>

lemma ff_kv_get_missing:
  assumes "ff_intact H fs nd st w" and "nd w (key_dir H st k) = None"
  shows "ff_kv_get H fs st k w = (Return (False, []), w)"
  using assms by (auto simp: ff_intact_def ff_kv_get_def Let_def io_simps faulty_is_directory_iff follow_missing key_dir_def)

lemma ff_children:
  assumes inv: "ff_intact H fs nd st w" and k: "key_ok k" and q: "q \<in> children (nd w) (key_dir H st k)"
  obtains c where "c \<in> ff_vals H nd st w k" and "q = key_dir H st k @ slash # toHex (H c)"
    and "follow (nd w) q = Some (File c)" and "length c < 2 ^ 32"
proof -
  from q obtain h n where h: "slash \<notin> set h" "q = key_dir H st k @ slash # h" and n: "nd w q = Some n"
    by (auto simp: children_def)
  from inv n h k obtain c where c: "n = Symlink (ff_data_dir st @ hpath h)" "h = toHex (H c)"
      "nd w (ff_data_dir st @ hpath h) = Some (File c)"
    by (auto simp: ff_intact_def key_dir_def elim!: links_ok_entry)
  moreover have "length c < 2 ^ 32"
    using inv c(3) by (auto simp: ff_intact_def dest: raw_ok_File)
  ultimately show ?thesis
    using that [of c] h n by (auto simp: ff_vals_def raw_file_def follow_Symlink)
qed

lemma ff_vals_child:
  assumes inv: "ff_intact H fs nd st w" and v: "v \<in> ff_vals H nd st w k"
  shows "key_dir H st k @ slash # toHex (H v) \<in> children (nd w) (key_dir H st k)"
proof -
  have "length (toHex (H v)) = 128" using inv by (simp add: ff_intact_def)
  then have "toHex (H v) \<noteq> []" by (metis list.size(3) zero_neq_numeral)
  with v show ?thesis by (auto simp: children_def ff_vals_def)
qed

lemma ff_kv_get_dir:
  assumes inv: "ff_intact H fs nd st w" and k: "key_ok k" and dir: "nd w (key_dir H st k) = Some Dir"
  shows "if ff_vals H nd st w k = {} then ff_kv_get H fs st k w = (Stuck, w)
    else \<exists>v \<in> ff_vals H nd st w k. ff_kv_get H fs st k w = (Return (True, [(toHex (H v), v)]), w)"
proof -
  from inv have H: "sha512_size H" and fs: "fs_faulty fs nd" by (auto simp: ff_intact_def)
  obtain qs where qs: "fs_directory fs (key_dir H st k) w = (Return qs, w)"
    "set qs = children (nd w) (key_dir H st k)"
    using fs dir by (rule faulty_directory_dir)
  have get: "ff_kv_get H fs st k w = io_catch (ff_kv_get_first fs qs [])
      (\<lambda>e. if e = Filesystem_error then Some (io_return (False, [])) else None) w"
    using H fs dir qs by (simp add: ff_kv_get_def Let_def io_simps faulty_is_directory_iff follow_Dir key_dir_def)
  show ?thesis
  proof (cases qs)
    case Nil
    with ff_vals_child [OF inv] qs(2) have "ff_vals H nd st w k = {}" by fastforce
    with Nil show ?thesis by (simp add: get ff_kv_get_first_def io_simps)
  next
    case (Cons q qs')
    then have "q \<in> children (nd w) (key_dir H st k)" using qs(2) by auto
    with inv k obtain c where c: "c \<in> ff_vals H nd st w k" "q = key_dir H st k @ slash # toHex (H c)"
      "follow (nd w) q = Some (File c)" "length c < 2 ^ 32"
      by (rule ff_children)
    then have "ff_kv_get H fs st k w = (Return (True, [(toHex (H c), c)]), w)"
      by (simp add: get Cons ff_kv_get_first_def io_simps Let_def faulty_read_file [OF fs] faulty_file_size_file [OF fs])
    with c(1) show ?thesis by auto
  qed
qed

section \<open>Removing a key\<close>

lemma ff_removed_below:
  assumes inv: "ff_intact H fs nd st w" and k: "key_ok k"
    and out: "\<And>q. \<not> below (key_dir H st k) q \<Longrightarrow> nd w' q = nd w q"
    and less: "\<And>q. nd w' q \<noteq> None \<Longrightarrow> nd w' q = nd w q"
    and all: "nd w' (key_dir H st k) = nd w (key_dir H st k) \<or> (\<forall>q. below (key_dir H st k) q \<longrightarrow> nd w' q = None)"
  shows "ff_intact H fs nd st w'"
    and "key_ok k' \<Longrightarrow> \<not> ff_clash H k k' \<Longrightarrow> ff_vals H nd st w' k' = ff_vals H nd st w k'"
proof -
  let ?l = "ff_link_dir st" and ?d = "ff_data_dir st"
  from inv have H: "sha512_size H" and ap: "apart ?l ?d"
    and rok: "raw_ok H ?d (nd w)" and links: "links_ok H ?l ?d (nd w)"
    by (auto simp: ff_intact_def ff_wf_def)
  have data: "nd w' (?d @ q) = nd w (?d @ q)" for q
    by (rule out) (simp add: key_dir_def not_below_apart [OF ap])
  have "raw_ok H ?d (nd w')" using rok by (rule raw_ok_sub) (simp add: data)
  moreover have "links_ok H ?l ?d (nd w')"
    using links by (rule links_ok_sub) (use less in \<open>auto simp: link_node_ok_def data\<close>)
  moreover have "keys_ok ?l (nd w')"
    unfolding keys_ok_def
  proof (intro allI impI)
    fix a h assume a: "slash \<notin> set (a :: string)" "slash \<notin> set (h :: string)"
      and some: "nd w' (?l @ hpath a @ slash # h) \<noteq> None"
    then have "nd w (?l @ hpath a) = Some Dir"
      using inv less [OF some] by (auto simp: ff_intact_def keys_ok_def)
    moreover have "nd w' (?l @ hpath a) = nd w (?l @ hpath a)"
    proof (cases "hpath a = hpath (validate_key H k)")
      case True
      then have "key_dir H st k = ?l @ hpath a" by (simp add: key_dir_def)
      with all some show ?thesis by (auto simp: below_append [of "?l @ hpath a", simplified])
    next
      case False
      then have "\<not> below (key_dir H st k) (?l @ hpath a)"
        using below_hpath [of "validate_key H k" a] a(1) k by (auto simp: key_dir_def)
      then show ?thesis by (rule out)
    qed
    ultimately show "nd w' (?l @ hpath a) = Some Dir" by simp
  qed
  ultimately show "ff_intact H fs nd st w'" using inv by (simp add: ff_intact_def)
  assume k': "key_ok k'" and "\<not> ff_clash H k k'"
  then have ne: "hpath (validate_key H k) \<noteq> hpath (validate_key H k')"
    using length_validate_key [OF H, of k] length_validate_key [OF H, of k']
    by (auto simp: ff_clash_def dest: hpath_inj)
  show "ff_vals H nd st w' k' = ff_vals H nd st w k'"
    using inv k'
  proof (rule ff_vals_keep)
    fix h assume "slash \<notin> set (h :: string)"
    with ne k k' have "\<not> below (key_dir H st k) (key_dir H st k' @ slash # h)"
      using below_entry [of "validate_key H k" "validate_key H k'" h] by (auto simp: key_dir_def)
    then show "nd w' (key_dir H st k' @ slash # h) = nd w (key_dir H st k' @ slash # h)" by (rule out)
  qed (simp add: data)
qed

lemma ff_kv_remove_effect:
  assumes inv: "ff_intact H fs nd st w" and k: "key_ok k" and run: "ff_kv_remove H fs st k w = (r, w')"
  shows "\<And>q. \<not> below (key_dir H st k) q \<Longrightarrow> nd w' q = nd w q" and "\<And>q. nd w' q \<noteq> None \<Longrightarrow> nd w' q = nd w q"
    and "r = Return True \<and> nd w (key_dir H st k) = Some Dir \<and> (\<forall>q. below (key_dir H st k) q \<longrightarrow> nd w' q = None)
      \<or> r = Throw Filesystem_error \<and> nd w' (key_dir H st k) = nd w (key_dir H st k)"
    and "nd w (key_dir H st k) = None \<Longrightarrow> r = Throw Filesystem_error"
proof -
  from inv have H: "sha512_size H" and fs: "fs_faulty fs nd" by (auto simp: ff_intact_def)
  obtain r1 w1 where ra: "fs_remove_all fs (key_dir H st k) w = (r1, w1)" by fastforce
  have "(\<forall>q. \<not> below (key_dir H st k) q \<longrightarrow> nd w' q = nd w q) \<and> (\<forall>q. nd w' q \<noteq> None \<longrightarrow> nd w' q = nd w q)
    \<and> (r = Return True \<and> nd w (key_dir H st k) = Some Dir \<and> (\<forall>q. below (key_dir H st k) q \<longrightarrow> nd w' q = None)
      \<or> r = Throw Filesystem_error \<and> nd w' (key_dir H st k) = nd w (key_dir H st k)) \<and> (nd w (key_dir H st k) = None \<longrightarrow> r = Throw Filesystem_error)"
    using faulty_remove_all_effect [OF fs ra]
  proof (elim disjE exE conjE)
    fix n assume n: "r1 = Return n" "(n = 0) = (nd w (key_dir H st k) = None)"
      and w1: "nd w1 = (\<lambda>q. if below (key_dir H st k) q then None else nd w q)"
    show ?thesis
    proof (cases "n = 0")
      case True
      have "fs_directory fs (key_dir H st k) w1 = (Throw Filesystem_error, w1)"
        by (rule faulty_directory_missing [OF fs]) (simp add: w1)
      with run ra n True have "r = Throw Filesystem_error" "w' = w1"
        by (auto simp: ff_kv_remove_def Let_def io_simps H key_dir_def)
      with n True show ?thesis by (auto simp: w1)
    next
      case False
      with run ra n have "r = Return True" "w' = w1"
        by (auto simp: ff_kv_remove_def Let_def io_simps H key_dir_def)
      with False n ff_key_dir_cases [OF inv k] show ?thesis by (auto simp: w1)
    qed
  next
    assume "r1 = Throw Filesystem_error" and w1: "\<forall>q. \<not> below (key_dir H st k) q \<or> q = key_dir H st k \<longrightarrow> nd w1 q = nd w q"
      "\<forall>q. nd w1 q \<noteq> None \<longrightarrow> nd w1 q = nd w q"
    with run ra have "r = Throw Filesystem_error" "w' = w1"
      by (auto simp: ff_kv_remove_def Let_def io_simps H key_dir_def)
    with w1 show ?thesis by auto
  qed
  then show "\<And>q. \<not> below (key_dir H st k) q \<Longrightarrow> nd w' q = nd w q" and "\<And>q. nd w' q \<noteq> None \<Longrightarrow> nd w' q = nd w q"
    and "r = Return True \<and> nd w (key_dir H st k) = Some Dir \<and> (\<forall>q. below (key_dir H st k) q \<longrightarrow> nd w' q = None)
      \<or> r = Throw Filesystem_error \<and> nd w' (key_dir H st k) = nd w (key_dir H st k)"
    and "nd w (key_dir H st k) = None \<Longrightarrow> r = Throw Filesystem_error" by blast+
qed


section \<open>The plugin as a key-value backend\<close>

lemma ff_vals_cong: "nd w' = nd w \<Longrightarrow> ff_vals H nd st w' = ff_vals H nd st w"
  by (simp add: ff_vals_def fun_eq_iff)

lemma ff_kv_get_some:
  assumes inv: "ff_intact H fs nd st w" and k: "key_ok k" and v: "ff_vals H nd st w k \<noteq> {}"
  shows "\<exists>v \<in> ff_vals H nd st w k. ff_kv_get H fs st k w = (Return (True, [(toHex (H v), v)]), w)"
proof -
  from v obtain u where "nd w (key_dir H st k @ slash # toHex (H u)) \<noteq> None"
    by (auto simp: ff_vals_def)
  with inv k have "nd w (key_dir H st k) = Some Dir"
    unfolding ff_intact_def keys_ok_def key_dir_def by (metis append_assoc key_ok_no_slash slash_not_hex(1))
  with ff_kv_get_dir [OF inv k] v show ?thesis by auto
qed

lemma ff_kv_get_none:
  assumes inv: "ff_intact H fs nd st w" and k: "key_ok k" and v: "ff_vals H nd st w k = {}"
  shows "ff_kv_get H fs st k w = ((if nd w (key_dir H st k) = None then Return (False, []) else Stuck), w)"
  using ff_key_dir_cases [OF inv k] ff_kv_get_missing [OF inv, of k] ff_kv_get_dir [OF inv k] v by auto

lemma ff_kv_put_fail:
  assumes "ff_intact H fs nd st w" and "key_ok k" and "ff_storable H nd st w v"
    and "ff_kv_put H fs st k v w = (r, w')" and "\<not> ff_short H nd st w' v"
  shows "r \<noteq> Stuck" and "r \<noteq> Return True \<Longrightarrow> ff_vals H nd st w' k = ff_vals H nd st w k"
proof -
  have "r \<noteq> Stuck \<and> (r \<noteq> Return True \<longrightarrow> ff_vals H nd st w' k = ff_vals H nd st w k)"
    using assms by (rule ff_kv_put_effect) (use assms(2) in \<open>elim disjE conjE, simp_all add: ff_vals_cong [of nd w']\<close>)
  then show "r \<noteq> Stuck" and "r \<noteq> Return True \<Longrightarrow> ff_vals H nd st w' k = ff_vals H nd st w k" by auto
qed

lemma ff_kv_put_frame:
  assumes "ff_intact H fs nd st w" and "key_ok k" and "ff_storable H nd st w v"
    and "ff_kv_put H fs st k v w = (r, w')" and "\<not> ff_short H nd st w' v" and "key_ok k'" and "\<not> ff_clash H k k'"
  shows "ff_vals H nd st w' k' = ff_vals H nd st w k'"
  using assms(1-5)
  by (rule ff_kv_put_effect) (use assms in \<open>elim disjE conjE, simp_all add: ff_vals_cong [of nd w'] ff_vals_link\<close>)

lemma ff_kv_put_vals:
  assumes "ff_intact H fs nd st w" and "key_ok k" and "ff_storable H nd st w v"
    and "ff_kv_put H fs st k v w = (Return True, w')" and "\<not> ff_short H nd st w' v"
  shows "ff_vals H nd st w' k = insert v (ff_vals H nd st w k)"
  using assms by (rule ff_kv_put_effect) (use assms(2) in \<open>auto simp: ff_vals_link ff_clash_def\<close>)

lemma ff_kv_remove_intact:
  assumes a: "ff_intact H fs nd st w" "key_ok k" "ff_kv_remove H fs st k w = (r, w')"
  shows "ff_intact H fs nd st w'" and "nd w' (raw_file H st v) = nd w (raw_file H st v)"
    and "key_ok k' \<Longrightarrow> \<not> ff_clash H k k' \<Longrightarrow> ff_vals H nd st w' k' = ff_vals H nd st w k'"
    and "r = Return True \<Longrightarrow> ff_vals H nd st w' k = {} \<and> ff_kv_get H fs st k w' = (Return (False, []), w')"
proof -
  note eff = ff_kv_remove_effect [OF a]
  show inv': "ff_intact H fs nd st w'"
    using a(1,2) eff(1,2) by (rule ff_removed_below(1)) (use eff(3) in auto)
  have "apart (ff_link_dir st) (ff_data_dir st)" using a(1) by (simp add: ff_intact_def ff_wf_def)
  then show "nd w' (raw_file H st v) = nd w (raw_file H st v)"
    by (intro eff(1)) (simp add: raw_file_def key_dir_def not_below_apart)
  show "ff_vals H nd st w' k' = ff_vals H nd st w k'" if "key_ok k'" "\<not> ff_clash H k k'"
    using a(1,2) eff(1,2) _ that by (rule ff_removed_below(2)) (use eff(3) in auto)
  assume "r = Return True"
  with eff(3) have gone: "\<And>q. below (key_dir H st k) q \<Longrightarrow> nd w' q = None" by auto
  then have "ff_vals H nd st w' k = {}" by (auto simp: ff_vals_def)
  with ff_kv_get_missing [OF inv'] gone
  show "ff_vals H nd st w' k = {} \<and> ff_kv_get H fs st k w' = (Return (False, []), w')" by simp
qed

text \<open>A short write: the value is gone everywhere, everything else is as it was.\<close>

lemma ff_kv_put_short:
  assumes inv: "ff_intact H fs nd st w" and k: "key_ok k" and v: "ff_storable H nd st w v"
    and run: "ff_kv_put H fs st k v w = (r, w')" and short: "ff_short H nd st w' v"
  shows "r \<noteq> Stuck" and "v \<notin> ff_vals H nd st w' k'"
    and "key_ok k' \<Longrightarrow> toHex (H u) \<noteq> toHex (H v) \<Longrightarrow> u \<in> ff_vals H nd st w' k' \<longleftrightarrow> u \<in> ff_vals H nd st w k'"
proof -
  let ?f = "raw_file H st v"
  from inv have H: "sha512_size H" and fs: "fs_faulty fs nd" and ap: "apart (ff_link_dir st) (ff_data_dir st)"
    by (auto simp: ff_intact_def ff_wf_def)
  obtain r1 w1 where s: "ff_store_block H fs st v w = (r1, w1)" by fastforce
  obtain m n where m: "dirs_added (nd w) m (remove_filename ?f)" and r1: "r1 \<noteq> Stuck"
    and w1: "nd w1 = (if r1 = Return True then m(?f \<mapsto> File (take n v)) else m)"
    using inv s by (rule ff_store_block_effect)
  have ok: "r1 = Return True"
  proof (rule ccontr)
    assume "r1 \<noteq> Return True"
    moreover from this run s r1 have "w' = w1" by (auto simp: ff_kv_put_def Let_def io_simps split: outcome.splits)
    ultimately obtain j where "j < length v" "m ?f = Some (File (take j v))" using short w1 by (auto simp: ff_short_def)
    with dirs_added_new [OF m, of ?f] v have "take j v = v" by (simp add: ff_storable_def)
    from arg_cong [OF this, of length] \<open>j < length v\<close> show False by simp
  qed
  note nodes = ff_kv_put_nodes [OF fs H k s [unfolded ok] run]
  show "r \<noteq> Stuck" by (rule nodes(1))
  from short obtain j where j: "j < length v" "nd w' ?f = Some (File (take j v))" by (auto simp: ff_short_def)
  then have "take j v \<noteq> v" by (auto dest: arg_cong [of _ _ length])
  with j(2) show "v \<notin> ff_vals H nd st w' k'" by (simp add: ff_vals_def)
  assume k': "key_ok k'" and u: "toHex (H u) \<noteq> toHex (H v)"
  have dir: "remove_filename ?f = ff_data_dir st @ take 2 (toHex (H v)) @ slash # take 2 (drop 2 (toHex (H v)))"
    unfolding raw_file_def by (rule remove_filename_hpath) simp
  have "nd w1 (key_dir H st k' @ slash # toHex (H u)) = m (key_dir H st k' @ slash # toHex (H u))"
    using w1 apart_append_neq [OF ap] by (simp add: key_dir_def raw_file_def)
  also have "\<dots> = nd w (key_dir H st k' @ slash # toHex (H u))"
    using dirs_added_cases [OF m, of "key_dir H st k' @ slash # toHex (H u)"] not_below_apart [OF ap]
    by (auto simp: dir key_dir_def)
  finally have link: "nd w' (key_dir H st k' @ slash # toHex (H u)) = nd w (key_dir H st k' @ slash # toHex (H u))"
    using nodes(3) [OF k' _ u] by simp
  have "raw_file H st u \<noteq> ?f" using raw_file_inj [OF _ H] u by blast
  then have "nd w' (raw_file H st u) = Some (File u) \<longleftrightarrow> nd w (raw_file H st u) = Some (File u)"
    using w1 ok dirs_added_keep [OF m, of "raw_file H st u" "File u"] dirs_added_new [OF m, of "raw_file H st u" "File u"]
    by (auto simp: nodes(2))
  with link show "u \<in> ff_vals H nd st w' k' \<longleftrightarrow> u \<in> ff_vals H nd st w k'" by (simp add: ff_vals_def)
qed

text \<open>Without short writes no value is cut short, and a store stays intact.\<close>

lemma ff_inv_intact: "ff_inv H fs nd st w \<Longrightarrow> ff_intact H fs nd st w"
  by (simp add: ff_inv_def)

lemma ff_not_short:
  assumes inv: "ff_inv H fs nd st w" and k: "key_ok k" and v: "ff_storable H nd st w v"
    and run: "ff_kv_put H fs st k v w = (r, w')"
  shows "\<not> ff_short H nd st w' v"
proof -
  note int = ff_inv_intact [OF inv]
  obtain r1 w1 where s: "ff_store_block H fs st v w = (r1, w1)" by fastforce
  obtain m n where m: "dirs_added (nd w) m (remove_filename (raw_file H st v))" and r1: "r1 \<noteq> Stuck"
    and w1: "nd w1 = (if r1 = Return True then m(raw_file H st v \<mapsto> File (take n v)) else m)"
    and n: "fs_full_writes fs nd \<longrightarrow> take n v = v"
    using int s by (rule ff_store_block_effect) blast
  have "nd w' (raw_file H st v) = Some (File c) \<Longrightarrow> c = v" for c
  proof (cases "r1 = Return True")
    case True
    assume "nd w' (raw_file H st v) = Some (File c)"
    with True ff_kv_put_nodes(2) [OF _ _ k s [unfolded True] run] int have "nd w1 (raw_file H st v) = Some (File c)"
      by (auto simp: ff_intact_def)
    with True w1 n inv show ?thesis by (simp add: ff_inv_def)
  next
    case False
    assume c: "nd w' (raw_file H st v) = Some (File c)"
    from False run s r1 have "w' = w1"
      by (auto simp: ff_kv_put_def Let_def io_simps split: outcome.splits)
    with c False w1 dirs_added_new [OF m, of "raw_file H st v" "File c"] v show ?thesis by (simp add: ff_storable_def)
  qed
  then show ?thesis by (fastforce simp: ff_short_def)
qed

interpretation ff: kv_backend "ff_kv_put H fs st" "ff_kv_get H fs st" "ff_kv_remove H fs st"
  "ff_inv H fs nd st" "ff_vals H nd st" "\<lambda>v. toHex (H v)" "ff_storable H nd st" "ff_clash H" for H fs nd st
proof
  fix w k v r w' assume a: "ff_inv H fs nd st w" "key_ok k" "ff_storable H nd st w v" "ff_kv_put H fs st k v w = (r, w')"
  note full = ff_inv_intact [OF a(1)] a(2-4) ff_not_short [OF a]
  show "ff_inv H fs nd st w'" using ff_kv_put_inv [OF full] a(1) by (simp add: ff_inv_def)
  show "ff_storable H nd st w' v" by (rule ff_kv_put_storable [OF full])
  show "r \<noteq> Return True \<Longrightarrow> ff_vals H nd st w' k = ff_vals H nd st w k" by (rule ff_kv_put_fail(2) [OF full])
next
  fix w k k' v r w' assume a: "ff_inv H fs nd st w" "key_ok k" "key_ok k'" "ff_storable H nd st w v"
    "\<not> ff_clash H k k'" "ff_kv_put H fs st k v w = (r, w')"
  show "ff_vals H nd st w' k' = ff_vals H nd st w k'"
    by (rule ff_kv_put_frame [OF ff_inv_intact [OF a(1)] a(2,4,6) ff_not_short [OF a(1,2,4,6)] a(3,5)])
next
  fix w k v w' assume a: "ff_inv H fs nd st w" "key_ok k" "ff_storable H nd st w v" "ff_kv_put H fs st k v w = (Return True, w')"
  show "ff_vals H nd st w' k = insert v (ff_vals H nd st w k)"
    by (rule ff_kv_put_vals [OF ff_inv_intact [OF a(1)] a(2-4) ff_not_short [OF a]])
next
  fix w k r w' assume a: "ff_inv H fs nd st w" "key_ok k" "ff_kv_remove H fs st k w = (r, w')"
  note eff = ff_kv_remove_intact [OF ff_inv_intact [OF a(1)] a(2,3)]
  show "ff_inv H fs nd st w'" using eff(1) a(1) by (simp add: ff_inv_def)
  show "ff_storable H nd st w' v = ff_storable H nd st w v" for v by (simp add: ff_storable_def eff(2))
  show "ff_vals H nd st w' k' = ff_vals H nd st w k'" if "key_ok k'" "\<not> ff_clash H k k'" for k'
    using that by (rule eff(3))
next
  fix w k w' assume a: "ff_inv H fs nd st w" "key_ok k" "ff_kv_remove H fs st k w = (Return True, w')"
  show "ff_vals H nd st w' k = {} \<and> ff_kv_get H fs st k w' = (Return (False, []), w')"
    using ff_kv_remove_intact(4) [OF ff_inv_intact [OF a(1)] a(2,3)] by simp
next
  fix w k assume a: "ff_inv H fs nd st w" "key_ok k" "ff_vals H nd st w k = {}"
  show "ff_kv_get H fs st k w = (Return (False, []), w) \<or> ff_kv_get H fs st k w = (Stuck, w)"
    using ff_kv_get_none [OF ff_inv_intact [OF a(1)] a(2,3)] by simp
qed (rule ff_kv_get_some, rule ff_inv_intact)


section \<open>Starting the plugin\<close>

lemma ff_inv_fresh:
  assumes "sha512_size H" and "fs_spec fs nd" and "ff_wf st"
    and "\<And>p. nd w (ff_link_dir st @ p) = None" and "\<And>p. nd w (ff_data_dir st @ p) = None"
  shows "ff_inv H fs nd st w" and "ff_vals H nd st w k = {}"
  using assms by (simp_all add: ff_inv_def ff_intact_def fs_spec_def raw_ok_def links_ok_def keys_ok_def ff_vals_def raw_file_def)

lemma require_directory_effect:
  assumes "fs_spec fs nd" and "require_directory fs p w = (Return True, w')"
  shows "nd w' q = nd w q \<or> q = p"
  using assms fs_create_directory_effect(2) [of fs nd p w "Return True" w']
  by (auto simp: require_directory_def split: if_splits)

lemma ff_initialise_effect:
  assumes fs: "fs_spec fs nd" and run: "ff_initialise fs dd (\<lambda>_. None) st w = (Return (True, st'), w')"
  shows "st' = \<lparr>ff_path = dd @ ''/ffstore/'', ff_link_dir = dd @ ''/ffstore/link/'', ff_data_dir = dd @ ''/ffstore/raw/''\<rparr>"
    and "\<And>q. nd w' q = nd w q \<or> q \<in> {dd @ ''/ffstore'', dd @ ''/ffstore/link'', dd @ ''/ffstore/raw''}"
proof -
  from run obtain w1 w2 where
      r1: "require_directory fs (dd @ ''/ffstore'') w = (Return True, w1)"
    and r2: "require_directory fs (dd @ ''/ffstore/link'') w1 = (Return True, w2)"
    and r3: "require_directory fs (dd @ ''/ffstore/raw'') w2 = (Return True, w')"
    and st: "st' = \<lparr>ff_path = dd @ ''/ffstore/'', ff_link_dir = dd @ ''/ffstore/link/'',
      ff_data_dir = dd @ ''/ffstore/raw/''\<rparr>"
    by (auto simp: ff_initialise_def Let_def elim!: io_bind_returnE split: if_splits)
  from st show "st' = \<lparr>ff_path = dd @ ''/ffstore/'', ff_link_dir = dd @ ''/ffstore/link/'',
      ff_data_dir = dd @ ''/ffstore/raw/''\<rparr>" .
  show "nd w' q = nd w q \<or> q \<in> {dd @ ''/ffstore'', dd @ ''/ffstore/link'', dd @ ''/ffstore/raw''}" for q
    using require_directory_effect [OF fs r1, of q] require_directory_effect [OF fs r2, of q]
      require_directory_effect [OF fs r3, of q] by (simp only: insert_iff) metis
qed

text \<open>Nothing below the two directories yet: an intact, empty store.\<close>

lemma ff_initialise_inv:
  assumes "sha512_size H" and "fs_spec fs nd" and "\<And>p. nd w (dd @ ''/ffstore/'' @ p) = None"
    and "ff_initialise fs dd (\<lambda>_. None) st w = (Return (True, st'), w')"
  shows "ff_inv H fs nd st' w' \<and> ff_vals H nd st' w' k = {}"
proof -
  note eff = ff_initialise_effect [OF assms(2,4)]
  have "nd w' (dd @ ''/ffstore/link/'' @ p) = None" for p
    using eff(2) [of "dd @ ''/ffstore/link/'' @ p"] assms(3) [of "''link/'' @ p"] by auto
  moreover have "nd w' (dd @ ''/ffstore/raw/'' @ p) = None" for p
    using eff(2) [of "dd @ ''/ffstore/raw/'' @ p"] assms(3) [of "''raw/'' @ p"] by auto
  moreover have "ff_wf st'"
    by (simp add: eff(1) ff_wf_def apart_def)
  ultimately show ?thesis
    using ff_inv_fresh [OF assms(1,2), of st' w'] by (simp add: eff(1))
qed

lemma ff_initialise_raw_empty:
  assumes "fs_spec fs nd" and "\<And>p. nd w (dd @ ''/ffstore/'' @ p) = None"
    and "ff_initialise fs dd (\<lambda>_. None) st w = (Return (True, st'), w')"
  shows "nd w' (ff_data_dir st' @ p) = None"
proof -
  note eff = ff_initialise_effect [OF assms(1,3)]
  show ?thesis using eff(2) [of "dd @ ''/ffstore/raw/'' @ p"] assms(2) [of "''raw/'' @ p"] by (auto simp: eff(1))
qed

section \<open>Properties\<close>

text \<open>
  C39: A successful start on a data directory without a flat file store, with the default
  configuration, establishes the store's integrity invariant with no value under any key.
\<close>

theorem ff_initialise_establishes:
  assumes "sha512_size H" and "fs_spec fs nd" and "\<And>p. nd w (dd @ ''/ffstore/'' @ p) = None"
    and "ff_initialise fs dd (\<lambda>_. None) st w = (Return (True, st'), w')"
  shows "ff_inv H fs nd st' w' \<and> ff_vals H nd st' w' k = {}"
  using assms by (rule ff_initialise_inv)

text \<open>
  C1: \<open>kv_put\<close> refines adding a value to the set of its key, on a file system that may fail at any step and may
  store less than is written. The call is never stuck. If the value arrives in its file in full, or storing it
  failed, the store stays intact, the values of keys with another hash are untouched, and the value has been
  added when the call returns true and nothing otherwise. If the write comes up short, which \<open>store_block\<close> does
  not notice, the value is lost under every key it was stored under before, and all values with another hash
  are untouched. Without short writes the second case does not arise.
\<close>

theorem ff_kv_put_refines:
  assumes "ff_intact H fs nd st w" and "key_ok k" and "ff_storable H nd st w v"
    and "ff_kv_put H fs st k v w = (r, w')"
  shows "r \<noteq> Stuck \<and> (fs_full_writes fs nd \<longrightarrow> \<not> ff_short H nd st w' v)
    \<and> (if ff_short H nd st w' v
        then \<forall>k'. key_ok k' \<longrightarrow> v \<notin> ff_vals H nd st w' k'
          \<and> (\<forall>u. toHex (H u) \<noteq> toHex (H v) \<longrightarrow> u \<in> ff_vals H nd st w' k' \<longleftrightarrow> u \<in> ff_vals H nd st w k')
        else ff_intact H fs nd st w'
          \<and> ff_vals H nd st w' k = (if r = Return True then insert v (ff_vals H nd st w k) else ff_vals H nd st w k)
          \<and> (\<forall>k'. key_ok k' \<and> \<not> ff_clash H k k' \<longrightarrow> ff_vals H nd st w' k' = ff_vals H nd st w k'))"
proof (cases "ff_short H nd st w' v")
  case True
  with ff_kv_put_short [OF assms] ff_not_short [OF _ assms(2-4)] assms(1) show ?thesis by (auto simp: ff_inv_def)
next
  case False
  note full = assms False
  show ?thesis
    using False ff_kv_put_fail [OF full] ff_kv_put_inv [OF full] ff_kv_put_vals [OF assms(1-3)] ff_kv_put_frame [OF full] assms(4)
    by auto
qed

text \<open>
  C6: \<open>kv_get\<close> never changes the store and answers with exactly one of the values of the key, filed
  under the hash of its content (so a reader can check the content against the name). A key
  without a directory is answered false with an empty result; a key whose directory is empty makes
  the function run off its end.
\<close>

theorem ff_kv_get_spec:
  assumes "ff_inv H fs nd st w" and "key_ok k"
  shows "if ff_vals H nd st w k = {}
    then ff_kv_get H fs st k w = ((if nd w (key_dir H st k) = None then Return (False, []) else Stuck), w)
    else \<exists>v \<in> ff_vals H nd st w k. ff_kv_get H fs st k w = (Return (True, [(toHex (H v), v)]), w)"
  using ff_kv_get_some [OF ff_inv_intact [OF assms(1)] assms(2)] ff_kv_get_none [OF ff_inv_intact [OF assms(1)] assms(2)] by auto

text \<open>
  C7: A value put under a key that had none is what the next \<open>kv_get\<close> of that key returns, filed
  under its hash.
\<close>

theorem ff_put_get:
  assumes "ff_inv H fs nd st w" and "key_ok k" and "ff_storable H nd st w v" and "ff_vals H nd st w k = {}"
    and "ff_kv_put H fs st k v w = (Return True, w')"
  shows "ff_kv_get H fs st k w' = (Return (True, [(toHex (H v), v)]), w')"
  using assms by (rule ff.put_then_get)

text \<open>
  C8: \<open>kv_remove\<close> either returns true, and then the key has no value and \<open>kv_get\<close> answers false,
  or throws a \<open>filesystem_error\<close>; it never returns false. Removing a key that is not stored always
  throws. The invariant and the values of other keys survive in every case, and the values
  themselves stay in the data directory.
\<close>

theorem ff_kv_remove_spec:
  assumes "ff_inv H fs nd st w" and "key_ok k" and "ff_kv_remove H fs st k w = (r, w')"
  shows "ff_inv H fs nd st w'
    \<and> (r = Return True \<and> ff_vals H nd st w' k = {} \<and> ff_kv_get H fs st k w' = (Return (False, []), w')
       \<or> r = Throw Filesystem_error)
    \<and> (nd w (key_dir H st k) = None \<longrightarrow> r = Throw Filesystem_error)
    \<and> (\<forall>k'. key_ok k' \<and> \<not> ff_clash H k k' \<longrightarrow> ff_vals H nd st w' k' = ff_vals H nd st w k')
    \<and> (\<forall>v. nd w' (raw_file H st v) = nd w (raw_file H st v))"
proof -
  note int = ff_inv_intact [OF assms(1)] assms(2,3)
  from ff_kv_remove_effect(3,4) [OF int] ff_kv_remove_intact [OF int] assms(1) show ?thesis
    by (auto simp: ff_inv_def)
qed


section \<open>Concrete runs\<close>

text \<open>
  An empty machine with one directory; a store started on it, with \<^const>\<open>pad64\<close> for the digest;
  and the store after \<open>kv_put\<close> of one value.
\<close>

definition ff_w0 :: posix where
  "ff_w0 = \<lparr>px_nodes = [(''/d'', Dir)], px_denied = []\<rparr>"

definition ff_w1 :: posix where
  "ff_w1 = \<lparr>px_nodes = [(''/d/ffstore/raw'', Dir), (''/d/ffstore/link'', Dir), (''/d/ffstore'', Dir), (''/d'', Dir)],
     px_denied = []\<rparr>"

definition ff_st1 :: ffstore where
  "ff_st1 = \<lparr>ff_path = ''/d/ffstore/'', ff_link_dir = ''/d/ffstore/link/'', ff_data_dir = ''/d/ffstore/raw/''\<rparr>"

definition ff_w2 :: posix where
  "ff_w2 = snd (ff_kv_put pad64 posix_ops ff_st1 ''key'' ''value'' ff_w1)"

lemma ff_start_run:
  "ff_initialise posix_ops ''/d'' (\<lambda>_. None) \<lparr>ff_path = [], ff_link_dir = [], ff_data_dir = []\<rparr> ff_w0
   = (Return (True, ff_st1), ff_w1)"
  by code_simp

lemma ff_put_run: "ff_kv_put pad64 posix_ops ff_st1 ''key'' ''value'' ff_w1 = (Return True, ff_w2)"
proof -
  have "fst (ff_kv_put pad64 posix_ops ff_st1 ''key'' ''value'' ff_w1) = Return True" by code_simp
  then show ?thesis by (simp add: ff_w2_def prod_eq_iff)
qed

lemma ff_w0_fresh: "posix_nd ff_w0 (''/d'' @ ''/ffstore/'' @ p) = None"
  by (simp add: posix_nd_def ff_w0_def)

lemma ff_w1_inv: "ff_inv pad64 posix_ops posix_nd ff_st1 ff_w1" "ff_vals pad64 posix_nd ff_st1 ff_w1 k = {}"
  by (rule ff_inv_fresh [OF pad64_size posix_fs_spec];
      simp add: ff_wf_def apart_def ff_st1_def ff_w1_def posix_nd_def)+

lemma ff_w1_storable: "length v < 2 ^ 32 \<Longrightarrow> ff_storable pad64 posix_nd ff_st1 ff_w1 v"
  by (simp add: ff_storable_def raw_file_def ff_st1_def ff_w1_def posix_nd_def)

lemma ff_w2_inv: "ff_inv pad64 posix_ops posix_nd ff_st1 ff_w2"
  and ff_w2_vals: "ff_vals pad64 posix_nd ff_st1 ff_w2 ''key'' = {''value''}"
  using ff.put_inv [OF ff_w1_inv(1) _ ff_w1_storable ff_put_run]
    ff.put_vals [OF ff_w1_inv(1) _ ff_w1_storable ff_put_run] ff_w1_inv(2)
  by (simp_all add: key_ok_def)

theorem ff_initialise_establishes_witness:
  "ff_inv pad64 posix_ops posix_nd ff_st1 ff_w1 \<and> ff_vals pad64 posix_nd ff_st1 ff_w1 ''key'' = {}"
  using ff_initialise_establishes [OF pad64_size posix_fs_spec ff_w0_fresh ff_start_run] by blast

text \<open>
  The same call on the machine that stores three bytes of a write: it answers true, the value is not stored, and
  \<open>kv_get\<close> answers true with the truncated text, filed under the hash of the whole value.
\<close>

definition ff_w2_short :: posix where
  "ff_w2_short = snd (ff_kv_put pad64 (short_ops 3) ff_st1 ''key'' ''value'' ff_w1)"

lemma ff_put_short_run: "ff_kv_put pad64 (short_ops 3) ff_st1 ''key'' ''value'' ff_w1 = (Return True, ff_w2_short)"
proof -
  have "fst (ff_kv_put pad64 (short_ops 3) ff_st1 ''key'' ''value'' ff_w1) = Return True" by code_simp
  then show ?thesis by (simp add: ff_w2_short_def prod_eq_iff)
qed

lemma ff_short_get:
  "ff_kv_get pad64 (short_ops 3) ff_st1 ''key'' ff_w2_short
   = (Return (True, [(toHex (pad64 ''value''), ''val'')]), ff_w2_short)"
proof -
  let ?d = "key_dir pad64 ff_st1 ''key''" and ?h = "toHex (pad64 ''value'')"
  have d: "posix_nd ff_w2_short ?d = Some Dir"
    and qs: "remdups (filter (px_is_child ?d) (map fst (px_nodes ff_w2_short))) = [?d @ slash # ?h]"
    and bytes: "px_read (?d @ slash # ?h) ff_w2_short = Some ''val''"
    and size: "fst (px_file_size (?d @ slash # ?h) ff_w2_short) = Return 3" by code_simp+
  from bytes size have "px_file_size (?d @ slash # ?h) ff_w2_short = (Return 3, ff_w2_short)"
    by (simp add: px_file_size_def px_read_def split: option.splits node.splits)
  moreover have "filename (?d @ slash # ?h) = ?h" by (rule filename_snoc) simp
  ultimately show ?thesis using d qs bytes
    by (simp add: ff_kv_get_def ff_kv_get_first_def Let_def io_simps short_ops_def posix_ops_def px_is_directory_def
        px_directory_def follow_Dir key_dir_def pad64_size)
qed

lemma ff_w2_short: "ff_short pad64 posix_nd ff_st1 ff_w2_short ''value''"
proof -
  have "posix_nd ff_w2_short (raw_file pad64 ff_st1 ''value'') = Some (File ''val'')" by code_simp
  then show ?thesis unfolding ff_short_def by (intro exI [of _ 3]) simp
qed

lemma ff_w1_intact_short: "ff_intact pad64 (short_ops n) posix_nd ff_st1 ff_w1"
  using ff_w1_inv(1) short_fs_faulty by (simp add: ff_inv_def ff_intact_def)

theorem ff_kv_put_refines_witness:
  "ff_kv_put pad64 posix_ops ff_st1 ''key'' ''value'' ff_w1 = (Return True, ff_w2)
   \<and> ff_vals pad64 posix_nd ff_st1 ff_w2 ''key'' = {''value''}
   \<and> ff_kv_put pad64 (short_ops 3) ff_st1 ''key'' ''value'' ff_w1 = (Return True, ff_w2_short)
   \<and> ''value'' \<notin> ff_vals pad64 posix_nd ff_st1 ff_w2_short ''key''"
proof -
  have k: "key_ok ''key''" and v: "length ''value'' < 2 ^ 32" by (simp_all add: key_ok_def)
  have full: "fs_full_writes posix_ops posix_nd" using ff_w1_inv(1) by (simp add: ff_inv_def)
  from ff_kv_put_refines [OF ff_inv_intact [OF ff_w1_inv(1)] k ff_w1_storable [OF v] ff_put_run] full
  have "ff_vals pad64 posix_nd ff_st1 ff_w2 ''key'' = {''value''}" by (simp add: ff_w1_inv(2))
  moreover from ff_kv_put_refines [OF ff_w1_intact_short k ff_w1_storable [OF v] ff_put_short_run] ff_w2_short k
  have "''value'' \<notin> ff_vals pad64 posix_nd ff_st1 ff_w2_short ''key''" by simp
  ultimately show ?thesis using ff_put_run ff_put_short_run by simp
qed

theorem ff_kv_get_spec_witness:
  "ff_kv_get pad64 posix_ops ff_st1 ''key'' ff_w2 = (Return (True, [(toHex (pad64 ''value''), ''value'')]), ff_w2)"
  using ff_kv_get_spec [OF ff_w2_inv, of "''key''"] ff_w2_vals by (simp add: key_ok_def)

theorem ff_put_get_witness:
  "ff_kv_put pad64 posix_ops ff_st1 ''key'' ''value'' ff_w1 = (Return True, ff_w2)
   \<and> ff_kv_get pad64 posix_ops ff_st1 ''key'' ff_w2 = (Return (True, [(toHex (pad64 ''value''), ''value'')]), ff_w2)"
  using ff_put_get [OF ff_w1_inv(1) _ ff_w1_storable ff_w1_inv(2) ff_put_run] ff_put_run
  by (simp add: key_ok_def)

theorem ff_kv_remove_spec_witness:
  "ff_kv_get pad64 posix_ops ff_st1 ''key'' (snd (ff_kv_remove pad64 posix_ops ff_st1 ''key'' ff_w2))
     = (Return (False, []), snd (ff_kv_remove pad64 posix_ops ff_st1 ''key'' ff_w2))
   \<and> fst (ff_kv_remove pad64 posix_ops ff_st1 ''other'' ff_w2) = Throw Filesystem_error"
proof -
  have r: "fst (ff_kv_remove pad64 posix_ops ff_st1 ''key'' ff_w2) = Return True" by code_simp
  have n: "posix_nd ff_w2 (key_dir pad64 ff_st1 ''other'') = None" by code_simp
  obtain a b where a: "ff_kv_remove pad64 posix_ops ff_st1 ''key'' ff_w2 = (a, b)" by fastforce
  obtain c d where c: "ff_kv_remove pad64 posix_ops ff_st1 ''other'' ff_w2 = (c, d)" by fastforce
  from ff_kv_remove_spec [OF ff_w2_inv _ a] r a ff_kv_remove_spec [OF ff_w2_inv _ c] c n
  show ?thesis by (auto simp: key_ok_def)
qed

end
