(* ===== verification/Database.thy ===== *)
theory Database
  imports Modules FFStore
begin

text \<open>
  The object database, \<open>src/daemon/db_manager.cc\<close>, and the members of \<open>Object\<close> in
  \<open>src/daemon/db.cc\<close> that store. An object is serialised and put under its id through the key-value
  signals of the module manager.

  Parameters besides those of the components below: \<open>ar\<close>, the text archives of Boost.Serialization,
  and \<open>clk\<close>, the local clock. \<open>archive_spec\<close> is the documented round trip: reading an archive of an
  object assigns the serialised fields.

  An object is held through a shared pointer, so an operation returns the object as it leaves it.
  The locale \<open>object_db\<close> is the client's view of a key-value backend connected to the signals;
  its interpretation at the end connects the flat file store.
\<close>

section \<open>Operations\<close>

record archive =
  oarchive :: "object \<Rightarrow> string"
  iarchive :: "string \<Rightarrow> object \<Rightarrow> bool \<times> object" \<comment> \<open>\<open>False\<close>: \<open>archive_exception\<close>, the object perhaps changed\<close>

definition archive_spec :: "archive \<Rightarrow> bool" where
  "archive_spec ar \<longleftrightarrow> (\<forall>saved into. iarchive ar (oarchive ar saved) into = (True, object_reloaded saved into))"

definition db_create_object :: "archive \<Rightarrow> 'w module_manager \<Rightarrow> object \<Rightarrow> ('w, bool) io" where
  "db_create_object ar mm obj =
     (let os = oarchive ar obj in
      io_bind (mm_kv_put mm (obj_id obj) os) (\<lambda>b. if b then io_return True else io_return False))"

definition db_delete_object :: "'w module_manager \<Rightarrow> string \<Rightarrow> ('w, bool) io" where
  "db_delete_object mm i = io_bind (mm_kv_remove mm i) (\<lambda>b. if b then io_return True else io_return False)"

text \<open>The loop of \<open>get_object_head\<close> over the entries: the first that is an archive of an object.\<close>

fun db_load_entries :: "archive \<Rightarrow> kv_res \<Rightarrow> object \<Rightarrow> bool \<times> object" where
  "db_load_entries ar [] obj = (False, obj)"
| "db_load_entries ar (entry # entries) obj =
     (case iarchive ar (snd entry) obj of
        (True, obj') \<Rightarrow> (True, obj')
      | (False, obj') \<Rightarrow> db_load_entries ar entries obj')"

definition db_get_object_head :: "archive \<Rightarrow> 'w module_manager \<Rightarrow> string \<Rightarrow> object \<Rightarrow> ('w, bool \<times> object) io" where
  "db_get_object_head ar mm i obj0 =
     (let obj = obj0\<lparr>obj_id := i\<rparr> in
      io_bind (mm_kv_get mm i None) (\<lambda>(ok, objres).
      if ok then (case objres of None \<Rightarrow> io_stuck | Some m \<Rightarrow> io_return (db_load_entries ar m obj))
      else io_return (False, obj)))"

definition object_save :: "archive \<Rightarrow> 'w module_manager \<Rightarrow> object \<Rightarrow> ('w, bool) io" where
  "object_save ar mm obj =
     io_bind (db_delete_object mm (obj_id obj)) (\<lambda>b.
     if \<not> b then io_return False
     else io_bind (db_create_object ar mm obj) (\<lambda>b'. if \<not> b' then io_return False else io_return True))"

definition object_remove :: "'w module_manager \<Rightarrow> object \<Rightarrow> ('w, bool) io" where
  "object_remove mm obj = db_delete_object mm (obj_id obj)"

definition object_load :: "archive \<Rightarrow> 'w module_manager \<Rightarrow> string \<Rightarrow> object \<Rightarrow> ('w, bool \<times> object) io" where
  "object_load ar mm i obj = db_get_object_head ar mm i obj"

text \<open>The object \<open>Object::create\<close> makes of a fresh one.\<close>

definition object_created :: "(string \<Rightarrow> string) \<Rightarrow> dmp_ops \<Rightarrow> ptime \<Rightarrow> object \<Rightarrow> string \<Rightarrow> string \<Rightarrow> object" where
  "object_created H d now obj inp custom_id =
     (let initialDiff = dmp_patch d [] inp; diff = new_Diff H now initialDiff [] in
      obj\<lparr>obj_diffs := obj_diffs obj @ [diff], obj_master := oid diff, obj_id := custom_id, obj_head := inp\<rparr>)"

text \<open>\<open>Object::create(String, const ObjID&)\<close> and \<open>Object::create(String)\<close>.\<close>

definition object_create_as ::
  "(string \<Rightarrow> string) \<Rightarrow> dmp_ops \<Rightarrow> ('w \<Rightarrow> ptime) \<Rightarrow> archive \<Rightarrow> 'w module_manager \<Rightarrow> object \<Rightarrow> string \<Rightarrow> string
    \<Rightarrow> ('w, bool \<times> object) io" where
  "object_create_as H d clk ar mm obj inp custom_id = (\<lambda>w.
     let obj1 = object_created H d (clk w) obj inp custom_id in
     io_bind (db_create_object ar mm obj1) (\<lambda>b. io_return (b, obj1)) w)"

definition object_create ::
  "(string \<Rightarrow> string) \<Rightarrow> dmp_ops \<Rightarrow> ('w \<Rightarrow> ptime) \<Rightarrow> archive \<Rightarrow> 'w module_manager \<Rightarrow> object \<Rightarrow> string
    \<Rightarrow> ('w, bool \<times> object) io" where
  "object_create H d clk ar mm obj inp =
     (let i = object_content_id H inp in object_create_as H d clk ar mm (obj\<lparr>obj_id := i\<rparr>) inp i)"

text \<open>\<open>DBManager::update_object(ObjPtr, const String&)\<close>.\<close>

definition db_update_object ::
  "(string \<Rightarrow> string) \<Rightarrow> dmp_ops \<Rightarrow> ('w \<Rightarrow> ptime) \<Rightarrow> archive \<Rightarrow> 'w module_manager \<Rightarrow> object \<Rightarrow> string
    \<Rightarrow> ('w, bool \<times> object) io" where
  "db_update_object H d clk ar mm obj diff = (\<lambda>w.
     let obj1 = object_revised H d (clk w) diff obj in
     io_bind (object_save ar mm obj1) (\<lambda>b. if b then io_return (True, obj1) else io_return (False, obj1)) w)"

text \<open>
  \<open>DBManager::update_object(const ObjID&, const String&)\<close>: the object pointer starts null and goes
  to \<open>db_get_obj\<close> by value, so it still is null when \<open>update_object(obj, diff)\<close> dereferences it.
\<close>

definition db_update_object_by_id :: "'w module_manager \<Rightarrow> string \<Rightarrow> string \<Rightarrow> ('w, bool) io" where
  "db_update_object_by_id mm i diff =
     io_bind (mm_db_get_obj mm i None) (\<lambda>(ok, _). if \<not> ok then io_return False else io_stuck)"

definition db_get_object_rev :: "dmp_ops \<Rightarrow> object \<Rightarrow> string \<Rightarrow> string \<Rightarrow> (bool \<times> string) outcome" where
  "db_get_object_rev d obj rv res =
     (if \<not> object_has_diff obj rv then Return (False, res)
      else case object_get_rev d obj rv of Return r \<Rightarrow> Return (True, r) | Throw e \<Rightarrow> Throw e | Stuck \<Rightarrow> Stuck)"

definition db_rollback_object ::
  "dmp_ops \<Rightarrow> archive \<Rightarrow> 'w module_manager \<Rightarrow> object \<Rightarrow> string \<Rightarrow> ('w, bool \<times> object) io" where
  "db_rollback_object d ar mm obj rv =
     io_bind (io_of (db_get_object_rev d obj rv [])) (\<lambda>(ok, res).
     if \<not> ok then io_return (False, obj)
     else let obj1 = obj\<lparr>obj_head := res, obj_master := rv\<rparr> in
       io_bind (object_save ar mm obj1) (\<lambda>b. if b then io_return (True, obj1) else io_return (False, obj1)))"

section \<open>The client's view of a key-value backend\<close>

text \<open>An object is stored when its archive is the only value under its id.\<close>

definition db_stored :: "('w \<Rightarrow> bool) \<Rightarrow> ('w \<Rightarrow> string \<Rightarrow> string set) \<Rightarrow> archive \<Rightarrow> object \<Rightarrow> 'w \<Rightarrow> bool" where
  "db_stored ok vals ar obj w \<longleftrightarrow> ok w \<and> key_ok (obj_id obj) \<and> vals w (obj_id obj) = {oarchive ar obj}"

locale object_db = kv_backend put get remove inv vals file_as storable clash
  for put :: "string \<Rightarrow> string \<Rightarrow> ('w, bool) io" and get remove inv vals file_as storable clash +
  fixes mm :: "'w module_manager"
  assumes put_signal: "mm_kv_put mm k v w = put k v w"
    and get_signal: "mm_kv_get mm k None w =
      (case get k w of (Return (b, m), w') \<Rightarrow> (Return (b, Some m), w') | (Throw e, w') \<Rightarrow> (Throw e, w') | (Stuck, w') \<Rightarrow> (Stuck, w'))"
    and remove_signal: "mm_kv_remove mm k w = remove k w"
begin

lemma create_returns:
  assumes "db_create_object ar mm obj w = (Return True, w')"
  shows "put (obj_id obj) (oarchive ar obj) w = (Return True, w')"
  using assms by (auto simp: db_create_object_def put_signal io_simps split: prod.splits outcome.splits if_splits)

lemma delete_returns:
  assumes "db_delete_object mm i w = (Return True, w')"
  shows "remove i w = (Return True, w')"
  using assms by (auto simp: db_delete_object_def remove_signal io_simps split: prod.splits outcome.splits if_splits)

lemma create_stored:
  assumes "inv w" and "key_ok (obj_id obj)" and "storable w (oarchive ar obj)" and "vals w (obj_id obj) = {}"
    and "db_create_object ar mm obj w = (Return True, w')"
  shows "db_stored inv vals ar obj w'"
  using put_inv [OF assms(1-3) create_returns [OF assms(5)]] put_vals [OF assms(1-3) create_returns [OF assms(5)]]
    assms(2,4) by (simp add: db_stored_def)

lemma save_stored:
  assumes "inv w" and "key_ok (obj_id obj)" and "storable w (oarchive ar obj)"
    and "object_save ar mm obj w = (Return True, w')"
  shows "db_stored inv vals ar obj w'"
proof -
  from assms(4) obtain w1 where "db_delete_object mm (obj_id obj) w = (Return True, w1)"
    and "db_create_object ar mm obj w1 = (Return True, w')"
    by (auto simp: object_save_def elim!: io_bind_returnE split: if_splits)
  then have "remove (obj_id obj) w = (Return True, w1)" and "put (obj_id obj) (oarchive ar obj) w1 = (Return True, w')"
    by (auto dest: delete_returns create_returns)
  from remove_put_get [OF assms(1-3) this] assms(2) show ?thesis by (simp add: db_stored_def)
qed

text \<open>What is stored is what is loaded, into any object.\<close>

lemma load_stored:
  assumes "archive_spec ar" and "db_stored inv vals ar obj w"
  shows "db_get_object_head ar mm (obj_id obj) into w = (Return (True, object_reloaded obj into), w)"
proof -
  have "get (obj_id obj) w = (Return (True, [(file_as (oarchive ar obj), oarchive ar obj)]), w)"
    using assms(2) get_some [of w "obj_id obj"] by (auto simp: db_stored_def)
  with assms(1) show ?thesis
    by (simp add: db_get_object_head_def Let_def get_signal io_simps archive_spec_def object_reloaded_def)
qed

lemma load_missing:
  assumes "inv w" and "key_ok i" and "remove i w0 = (Return True, w)" and "inv w0"
  shows "db_get_object_head ar mm i into w = (Return (False, into\<lparr>obj_id := i\<rparr>), w)"
  using remove_vals [OF assms(4,2,3)] by (simp add: db_get_object_head_def Let_def get_signal io_simps)


text \<open>The three ways an object gets stored.\<close>

lemma object_create_as_stored:
  assumes "inv w" and "key_ok cid" and "vals w cid = {}" and "storable w (oarchive ar obj)"
    and "object_create_as H d clk ar mm new_Object inp cid w = (Return (True, obj), w')"
  shows "db_stored inv vals ar obj w' \<and> obj_id obj = cid \<and> obj_history H d [inp] obj"
proof -
  from assms(5) have "obj_id obj = cid" and hist: "obj_history H d [inp] obj"
    and "db_create_object ar mm obj w = (Return True, w')"
    by (auto simp: object_create_as_def object_created_def Let_def obj_history_def new_Object_def elim!: io_bind_returnE)
  with create_stored [of w obj ar w'] assms(1-4) show ?thesis by simp
qed

text \<open>Storing the same object twice, the first time with any answer.\<close>

lemma create_twice_stored:
  assumes "inv w" and "key_ok (obj_id obj)" and "vals w (obj_id obj) = {}" and "storable w (oarchive ar obj)"
    and "db_create_object ar mm obj w = (Return b, w1)" and "db_create_object ar mm obj w1 = (Return True, w2)"
  shows "db_stored inv vals ar obj w2"
proof -
  obtain r where put1: "put (obj_id obj) (oarchive ar obj) w = (r, w1)"
    using assms(5) by (auto simp: db_create_object_def put_signal io_simps split: prod.splits outcome.splits if_splits)
  note put2 = create_returns [OF assms(6)]
  from put_inv [OF assms(1,2,4) put1] put_storable [OF assms(1,2,4) put1]
  have w1: "inv w1" "storable w1 (oarchive ar obj)" by auto
  have "vals w1 (obj_id obj) \<subseteq> {oarchive ar obj}"
    using put_fail [OF assms(1,2,4) put1] put_vals [OF assms(1,2,4), of w1] put1 assms(3) by (cases "r = Return True") auto
  with put_vals [OF w1(1) assms(2) w1(2) put2] put_inv [OF w1(1) assms(2) w1(2) put2] assms(2)
  show ?thesis by (auto simp: db_stored_def)
qed

lemma head_missing:
  assumes "inv w" and "key_ok i" and "vals w i = {}"
  shows "db_get_object_head ar mm i into w = (Return (False, into\<lparr>obj_id := i\<rparr>), w)
    \<or> db_get_object_head ar mm i into w = (Stuck, w)"
  using get_none [OF assms] by (auto simp: db_get_object_head_def Let_def get_signal io_simps)

lemma update_stored:
  assumes "inv w" and "key_ok (obj_id obj)" and "storable w (oarchive ar obj')" and "obj_history H d cs obj"
    and "db_update_object H d clk ar mm obj new w = (Return (True, obj'), w')"
  shows "db_stored inv vals ar obj' w' \<and> obj_id obj' = obj_id obj \<and> obj_history H d (cs @ [new]) obj'"
proof -
  from assms(5) have obj': "obj' = object_revised H d (clk w) new obj"
    and save: "object_save ar mm obj' w = (Return True, w')"
    by (auto simp: db_update_object_def Let_def elim!: io_bind_returnE split: if_splits)
  then have "obj_id obj' = obj_id obj" by (simp add: object_revised_def Let_def)
  with save_stored [OF assms(1) _ assms(3) save] assms(2) obj_history_revised [OF assms(4)] obj'
  show ?thesis by simp
qed

lemma rollback_stored:
  assumes "inv w" and "key_ok (obj_id obj)" and "storable w (oarchive ar obj')"
    and "db_rollback_object d ar mm obj rv w = (Return (True, obj'), w')"
  shows "db_stored inv vals ar obj' w' \<and> object_get_rev d obj rv = Return (obj_head obj')
    \<and> obj_id obj' = obj_id obj \<and> obj_diffs obj' = obj_diffs obj \<and> obj_master obj' = rv"
proof -
  from assms(4) obtain res where "db_get_object_rev d obj rv [] = Return (True, res)"
    and obj': "obj' = obj\<lparr>obj_head := res, obj_master := rv\<rparr>"
    and save: "object_save ar mm obj' w = (Return True, w')"
    by (auto simp: db_rollback_object_def Let_def io_of_def elim!: io_bind_returnE split: if_splits prod.splits)
  moreover from this have "object_get_rev d obj rv = Return res"
    by (auto simp: db_get_object_rev_def split: if_splits outcome.splits)
  ultimately show ?thesis
    using save_stored [OF assms(1) _ assms(3) save] assms(2) by simp
qed

end


section \<open>The database on the flat file store\<close>

text \<open>The manager after \<open>FFStore::initialise\<close> has connected the plugin's functions to the signals.\<close>

definition mm_ff :: "(string \<Rightarrow> string) \<Rightarrow> 'w fs_ops \<Rightarrow> ffstore \<Rightarrow> 'w module_manager" where
  "mm_ff H fs st = mm_new\<lparr>sig_kv_put := [ff_kv_put H fs st],
     sig_kv_get := [\<lambda>k r. io_bind (ff_kv_get H fs st k) (\<lambda>(b, m). io_return (b, Some m))],
     sig_kv_remove := [ff_kv_remove H fs st]\<rparr>"

interpretation ffdb: object_db "ff_kv_put H fs st" "ff_kv_get H fs st" "ff_kv_remove H fs st"
  "ff_inv H fs nd st" "ff_vals H nd st" "\<lambda>v. toHex (H v)" "ff_storable H nd st" "ff_clash H" "mm_ff H fs st"
  for H fs nd st
  by unfold_locales (auto simp: mm_ff_def mm_kv_put_single mm_kv_remove_single mm_kv_get_def io_simps
      split: prod.splits outcome.splits)

section \<open>Properties\<close>

text \<open>
  Create and load. When \<open>Object::create\<close> with an unused id returns true, loading that id gives an
  object with the content it was created with, whose single revision is that content.
\<close>

lemma db_create_load:
  assumes "archive_spec ar" and "ff_inv H fs nd st w" and "key_ok cid" and "ff_vals H nd st w cid = {}"
    and "object_create_as H d clk ar (mm_ff H fs st) new_Object inp cid w = (Return (True, obj), w')"
    and "ff_storable H nd st w (oarchive ar obj)"
  shows "\<exists>obj'. object_load ar (mm_ff H fs st) cid into w' = (Return (True, obj'), w')
    \<and> obj_id obj' = cid \<and> object_get obj' = inp \<and> obj_history H d [inp] obj'"
proof -
  from ffdb.object_create_as_stored [OF assms(2-4,6,5)]
  have st: "db_stored (ff_inv H fs nd st) (ff_vals H nd st) ar obj w'" and i: "obj_id obj = cid"
    and h: "obj_history H d [inp] obj" by auto
  from ffdb.load_stored [OF assms(1) st, of into] i h obj_history_head [OF h] show ?thesis
    by (simp add: object_load_def object_get_def)
qed

text \<open>
  C4: Update and load. When \<open>update_object\<close> on an object with an intact history returns true,
  loading the object's id gives the new content with the history extended by it; no revision is lost.
\<close>

theorem db_update_load:
  assumes "archive_spec ar" and "ff_inv H fs nd st w" and "key_ok (obj_id obj)" and "obj_history H d cs obj"
    and "db_update_object H d clk ar (mm_ff H fs st) obj new w = (Return (True, obj'), w')"
    and "ff_storable H nd st w (oarchive ar obj')"
  shows "\<exists>obj''. object_load ar (mm_ff H fs st) (obj_id obj) into w' = (Return (True, obj''), w')
    \<and> object_get obj'' = new \<and> obj_history H d (cs @ [new]) obj''"
proof -
  from ffdb.update_stored [OF assms(2,3,6,4,5)]
  have st: "db_stored (ff_inv H fs nd st) (ff_vals H nd st) ar obj' w'" and i: "obj_id obj' = obj_id obj"
    and h: "obj_history H d (cs @ [new]) obj'" by auto
  from ffdb.load_stored [OF assms(1) st, of into] i h obj_history_head [OF h] show ?thesis
    by (simp add: object_load_def object_get_def)
qed

text \<open>
  C11: Rollback and load. When \<open>rollback_object\<close> to a revision of an intact history returns true, the
  object, in memory and as loaded again, has the content of that revision (the first one with that
  id) and still carries all its revisions, provided that the patches up to that revision apply to the
  contents they were made from.
\<close>

theorem db_rollback_load:
  assumes "archive_spec ar" and "dmp_restores d [] (take (Suc i) cs)" and "ff_inv H fs nd st w" and "key_ok (obj_id obj)"
    and "obj_history H d cs obj" and "i < length cs"
    and "\<And>j. j < i \<Longrightarrow> oid (obj_diffs obj ! j) \<noteq> oid (obj_diffs obj ! i)"
    and "db_rollback_object d ar (mm_ff H fs st) obj (oid (obj_diffs obj ! i)) w = (Return (True, obj'), w')"
    and "ff_storable H nd st w (oarchive ar obj')"
  shows "object_get obj' = cs ! i \<and> obj_diffs obj' = obj_diffs obj
    \<and> (\<exists>obj''. object_load ar (mm_ff H fs st) (obj_id obj) into w' = (Return (True, obj''), w')
        \<and> object_get obj'' = cs ! i \<and> obj_diffs obj'' = map diff_reloaded (obj_diffs obj))"
proof -
  let ?rv = "oid (obj_diffs obj ! i)"
  from ffdb.rollback_stored [OF assms(3,4,9,8)]
  have st: "db_stored (ff_inv H fs nd st) (ff_vals H nd st) ar obj' w'"
    and rv: "object_get_rev d obj ?rv = Return (obj_head obj')"
    and same: "obj_id obj' = obj_id obj" "obj_diffs obj' = obj_diffs obj" by auto
  have "chain H d [] [] cs (obj_diffs obj)" using assms(5) by (simp add: obj_history_def)
  from chain_get [OF assms(2) this assms(6) refl assms(7)] rv have head: "obj_head obj' = cs ! i"
    by (simp add: object_get_rev_def)
  with same ffdb.load_stored [OF assms(1) st, of into] show ?thesis
    by (simp add: object_load_def object_get_def)
qed

text \<open>
  C36: Delete. When \<open>delete_object\<close> returns true, loading the id fails with false and leaves the
  result object as it was but for its id; deleting an id that is not stored throws a
  \<open>filesystem_error\<close> instead of returning false.
\<close>

theorem db_delete_load:
  assumes "ff_inv H fs nd st w" and "key_ok i" and "db_delete_object (mm_ff H fs st) i w = (r, w')"
  shows "(r = Return True \<and> object_load ar (mm_ff H fs st) i into w' = (Return (False, into\<lparr>obj_id := i\<rparr>), w')
      \<or> r = Throw Filesystem_error)
    \<and> (nd w (key_dir H st i) = None \<longrightarrow> r = Throw Filesystem_error)"
proof -
  obtain r1 w1 where rem: "ff_kv_remove H fs st i w = (r1, w1)" by fastforce
  note eff = ff_kv_remove_effect [OF ff_inv_intact [OF assms(1)] assms(2) rem]
  have "r = r1" "w' = w1"
    using assms(3) rem eff(3) by (auto simp: db_delete_object_def ffdb.remove_signal io_simps)
  with eff(3,4) rem ffdb.load_missing [OF ff.remove_inv [OF assms(1,2) rem] assms(2) _ assms(1)]
  show ?thesis by (auto simp: object_load_def)
qed

text \<open>
  \<open>DBManager::update_object(id, diff)\<close> never succeeds, with any set of plugins: it returns
  false, throws, or dereferences the null pointer it passed by value.
\<close>

lemma db_update_by_id_never:
  "fst (db_update_object_by_id mm i diff w) \<noteq> Return True"
  by (auto simp: db_update_object_by_id_def io_simps split: prod.splits outcome.splits if_splits)


section \<open>An archive for concrete runs\<close>

text \<open>Length-prefixed fields, numbers in unary: an executable archive with the documented round trip.\<close>

definition enc_nat :: "nat \<Rightarrow> string" where
  "enc_nat n = replicate n (CHR ''1'') @ ''.''"

definition dec_nat :: "string \<Rightarrow> (nat \<times> string) option" where
  "dec_nat s = (let n = length (takeWhile (\<lambda>c. c = CHR ''1'') s) in
     case drop n s of [] \<Rightarrow> None | c # r \<Rightarrow> if c = CHR ''.'' then Some (n, r) else None)"

definition enc_str :: "string \<Rightarrow> string" where
  "enc_str s = enc_nat (length s) @ s"

definition dec_str :: "string \<Rightarrow> (string \<times> string) option" where
  "dec_str s = Option.bind (dec_nat s) (\<lambda>(n, r). if length r < n then None else Some (take n r, drop n r))"

definition enc_time :: "ptime \<Rightarrow> string" where
  "enc_time t = (case t of None \<Rightarrow> enc_nat 0 | Some i \<Rightarrow> enc_nat 1 @ enc_nat (nat i) @ enc_nat (nat (- i)))"

definition dec_time :: "string \<Rightarrow> (ptime \<times> string) option" where
  "dec_time s = Option.bind (dec_nat s) (\<lambda>(k, r). if k = 0 then Some (None, r)
     else Option.bind (dec_nat r) (\<lambda>(p, r1). Option.bind (dec_nat r1) (\<lambda>(m, r2). Some (Some (int p - int m), r2))))"

definition enc_diff :: "diff \<Rightarrow> string" where
  "enc_diff x = enc_str (oid x) @ enc_str (diff_snapshot x) @ enc_str (content x) @ enc_time (time x) @ enc_str (diff_prev x)"

definition dec_diff :: "string \<Rightarrow> (diff \<times> string) option" where
  "dec_diff s = Option.bind (dec_str s) (\<lambda>(i, s1). Option.bind (dec_str s1) (\<lambda>(sn, s2).
     Option.bind (dec_str s2) (\<lambda>(c, s3). Option.bind (dec_time s3) (\<lambda>(t, s4). Option.bind (dec_str s4) (\<lambda>(p, s5).
     Some (\<lparr>oid = i, db_id = 0, db_type = [], content = c, time = t, diff_snapshot = sn, diff_prev = p\<rparr>, s5))))))"

fun dec_diffs :: "nat \<Rightarrow> string \<Rightarrow> (diff list \<times> string) option" where
  "dec_diffs 0 s = Some ([], s)"
| "dec_diffs (Suc n) s = Option.bind (dec_diff s) (\<lambda>(x, r). Option.bind (dec_diffs n r) (\<lambda>(xs, r'). Some (x # xs, r')))"

definition plain_archive :: archive where
  "plain_archive = \<lparr>
     oarchive = (\<lambda>obj. enc_str (obj_head obj) @ enc_str (obj_id obj) @ enc_str (obj_master obj)
       @ enc_nat (length (obj_diffs obj)) @ concat (map enc_diff (obj_diffs obj))),
     iarchive = (\<lambda>s into.
       case Option.bind (dec_str s) (\<lambda>(h, s1). Option.bind (dec_str s1) (\<lambda>(i, s2). Option.bind (dec_str s2) (\<lambda>(m, s3).
         Option.bind (dec_nat s3) (\<lambda>(n, s4). Option.bind (dec_diffs n s4) (\<lambda>(xs, s5).
         Some (into\<lparr>obj_id := i, obj_master := m, obj_diffs := xs, obj_head := h\<rparr>))))))
       of None \<Rightarrow> (False, into) | Some obj \<Rightarrow> (True, obj))\<rparr>"

lemma dec_enc_nat [simp]: "dec_nat (enc_nat n @ r) = Some (n, r)"
  by (simp add: dec_nat_def enc_nat_def takeWhile_replicate_sep Let_def)

lemma dec_enc_str [simp]: "dec_str (enc_str s @ r) = Some (s, r)"
  by (simp add: dec_str_def enc_str_def)

lemma dec_enc_time [simp]: "dec_time (enc_time t @ r) = Some (t, r)"
  by (cases t) (simp_all add: dec_time_def enc_time_def)

lemma dec_enc_diff [simp]: "dec_diff (enc_diff x @ r) = Some (diff_reloaded x, r)"
  by (simp add: dec_diff_def enc_diff_def diff_reloaded_def)

lemma dec_enc_diffs [simp]: "dec_diffs (length xs) (concat (map enc_diff xs) @ r) = Some (map diff_reloaded xs, r)"
  by (induction xs) simp_all

lemma plain_archive_spec: "archive_spec plain_archive"
  using dec_enc_diffs [of _ "[]"] by (simp add: archive_spec_def plain_archive_def object_reloaded_def)

section \<open>Concrete runs\<close>

abbreviation mm0 :: "posix module_manager" where
  "mm0 \<equiv> mm_ff pad64 posix_ops ff_st1"

text \<open>A note created, updated and rolled back: the object in memory after each step, and the worlds.\<close>

definition note1 :: object where
  "note1 = object_revised pad64 prefix_dmp (Some 5) ''ab'' (new_Object\<lparr>obj_id := ''note''\<rparr>)"

definition note2 :: object where
  "note2 = object_revised pad64 prefix_dmp (Some 5) ''axyz'' note1"

definition note3 :: object where
  "note3 = note2\<lparr>obj_head := ''ab'', obj_master := oid (obj_diffs note2 ! 0)\<rparr>"

definition db_w1 :: posix where
  "db_w1 = snd (object_create_as pad64 prefix_dmp (\<lambda>_. Some 5) plain_archive mm0 new_Object ''ab'' ''note'' ff_w1)"

definition db_w2 :: posix where
  "db_w2 = snd (db_update_object pad64 prefix_dmp (\<lambda>_. Some 5) plain_archive mm0 note1 ''axyz'' db_w1)"

definition db_v2 :: posix where
  "db_v2 = snd (db_create_object plain_archive mm0 note2 ff_w1)"

definition db_v3 :: posix where
  "db_v3 = snd (db_rollback_object prefix_dmp plain_archive mm0 note2 (oid (obj_diffs note2 ! 0)) db_v2)"

lemma outcome_run: "fst p = r \<Longrightarrow> p = (r, snd p)"
  by (cases p) simp

lemma db_create_run:
  "object_create_as pad64 prefix_dmp (\<lambda>_. Some 5) plain_archive mm0 new_Object ''ab'' ''note'' ff_w1
   = (Return (True, note1), db_w1)"
  unfolding db_w1_def by (rule outcome_run) code_simp

lemma db_update_run:
  "db_update_object pad64 prefix_dmp (\<lambda>_. Some 5) plain_archive mm0 note1 ''axyz'' db_w1 = (Return (True, note2), db_w2)"
  unfolding db_w2_def by (rule outcome_run) code_simp

lemma db_create2_run: "db_create_object plain_archive mm0 note2 ff_w1 = (Return True, db_v2)"
  unfolding db_v2_def by (rule outcome_run) code_simp

lemma db_rollback_run:
  "db_rollback_object prefix_dmp plain_archive mm0 note2 (oid (obj_diffs note2 ! 0)) db_v2 = (Return (True, note3), db_v3)"
  unfolding db_v3_def by (rule outcome_run) code_simp

lemma note_archives:
  "length (oarchive plain_archive note1) < 2 ^ 32" "length (oarchive plain_archive note2) < 2 ^ 32"
  "length (oarchive plain_archive note3) < 2 ^ 32"
proof -
  have "length (oarchive plain_archive note1) < 5000" "length (oarchive plain_archive note2) < 5000"
    "length (oarchive plain_archive note3) < 5000" by code_simp+
  then show "length (oarchive plain_archive note1) < 2 ^ 32" "length (oarchive plain_archive note2) < 2 ^ 32"
    "length (oarchive plain_archive note3) < 2 ^ 32" by simp_all
qed

lemma note_ids [simp]: "obj_id note1 = ''note''" "obj_id note2 = ''note''" "key_ok ''note''"
  by (simp_all add: note1_def note2_def object_revised_def Let_def key_ok_def)

lemma note_history:
  "obj_history pad64 prefix_dmp [''ab''] note1" "obj_history pad64 prefix_dmp [''ab'', ''axyz''] note2"
proof -
  show h: "obj_history pad64 prefix_dmp [''ab''] note1" by code_simp
  from obj_history_revised [OF h] show "obj_history pad64 prefix_dmp [''ab'', ''axyz''] note2"
    by (simp add: note2_def)
qed

lemma ff_storable_missing:
  "nd w (raw_file H st v) = None \<Longrightarrow> length v < 2 ^ 32 \<Longrightarrow> ff_storable H nd st w v"
  by (simp add: ff_storable_def)

lemma note_storable:
  "ff_storable pad64 posix_nd ff_st1 ff_w1 (oarchive plain_archive note1)"
  "ff_storable pad64 posix_nd ff_st1 ff_w1 (oarchive plain_archive note2)"
  "ff_storable pad64 posix_nd ff_st1 db_w1 (oarchive plain_archive note2)"
  "ff_storable pad64 posix_nd ff_st1 db_v2 (oarchive plain_archive note3)"
proof -
  show "ff_storable pad64 posix_nd ff_st1 ff_w1 (oarchive plain_archive note1)"
    "ff_storable pad64 posix_nd ff_st1 ff_w1 (oarchive plain_archive note2)"
    by (rule ff_w1_storable, rule note_archives)+
  have "posix_nd db_w1 (raw_file pad64 ff_st1 (oarchive plain_archive note2)) = None" by code_simp
  then show "ff_storable pad64 posix_nd ff_st1 db_w1 (oarchive plain_archive note2)"
    using note_archives by (simp add: ff_storable_missing)
  have "posix_nd db_v2 (raw_file pad64 ff_st1 (oarchive plain_archive note3)) = None" by code_simp
  then show "ff_storable pad64 posix_nd ff_st1 db_v2 (oarchive plain_archive note3)"
    using note_archives by (simp add: ff_storable_missing)
qed

lemma db_w1_inv: "ff_inv pad64 posix_ops posix_nd ff_st1 db_w1"
  using ffdb.object_create_as_stored [OF ff_w1_inv(1) _ ff_w1_inv(2) note_storable(1) db_create_run]
  by (simp add: db_stored_def)

lemma db_v2_inv: "ff_inv pad64 posix_ops posix_nd ff_st1 db_v2"
  using ffdb.create_stored [OF ff_w1_inv(1) _ note_storable(2) ff_w1_inv(2) db_create2_run]
  by (simp add: db_stored_def)

lemma db_create_load_instance:
  "\<exists>obj'. object_load plain_archive mm0 ''note'' new_Object db_w1 = (Return (True, obj'), db_w1) \<and> object_get obj' = ''ab''"
  using db_create_load [OF plain_archive_spec ff_w1_inv(1) _ ff_w1_inv(2) db_create_run note_storable(1), of new_Object]
  by auto

theorem db_update_load_witness:
  "\<exists>obj'. object_load plain_archive mm0 ''note'' new_Object db_w2 = (Return (True, obj'), db_w2)
     \<and> object_get obj' = ''axyz'' \<and> obj_history pad64 prefix_dmp [''ab'', ''axyz''] obj'"
  using db_update_load [OF plain_archive_spec db_w1_inv _ note_history(1) db_update_run note_storable(3), of new_Object]
  by simp

theorem db_rollback_load_witness:
  "\<exists>obj'. object_load plain_archive mm0 ''note'' new_Object db_v3 = (Return (True, obj'), db_v3) \<and> object_get obj' = ''ab''"
  using db_rollback_load [OF plain_archive_spec prefix_dmp_restores db_v2_inv _ note_history(2), of 0 note3 db_v3 new_Object]
    db_rollback_run note_storable(4) by auto

theorem db_delete_load_witness:
  "fst (db_delete_object mm0 ''absent'' ff_w1) = Throw Filesystem_error"
proof -
  obtain r w' where run: "db_delete_object mm0 ''absent'' ff_w1 = (r, w')" by fastforce
  have "posix_nd ff_w1 (key_dir pad64 ff_st1 ''absent'') = None"
    by (simp add: key_dir_def ff_st1_def ff_w1_def posix_nd_def)
  with db_delete_load [OF ff_w1_inv(1) _ run] run show ?thesis by (simp add: key_ok_def)
qed

text \<open>
  A rollback keeps the later revisions, so an update after it patches the rolled-back text but is
  appended behind patches of the text that was rolled back: the current content is right, but reading
  the newest revision back by its id gives another text.
\<close>

lemma rollback_then_update_diverges:
  "let obj = object_revised pad64 prefix_dmp (Some 5) ''abc'' note3 in
   object_get obj = ''abc'' \<and> object_has_diff obj (obj_master obj)
   \<and> object_get_rev prefix_dmp obj (obj_master obj) = Return ''axcyz''"
  by code_simp

end
