(* ===== verification/Rpc.thy ===== *)
theory Rpc
  imports JsonRpc Base64 Database
begin

text \<open>
  The RPC methods of the daemon, \<open>src/daemon/rpc_manager.{h,cc}\<close>: the request and response helpers, the
  handlers, and the method table \<open>RPCManager::init\<close> builds.

  A request object is copied from the JSON it was constructed with and is not constant, so every
  \<open>operator[]\<close> on it inserts the member it looks for; the model threads the request through. A handler
  returns its boolean and the response value as it leaves it.
\<close>

section \<open>Responses and requests\<close>

definition BUFFERSIZE :: nat where
  "BUFFERSIZE = 16777216"

text \<open>\<open>RPC_Response::RPC_Response(int)\<close>.\<close>

definition RPC_Response :: "int \<Rightarrow> json" where
  "RPC_Response i = JObj (config_add [(''jsonrpc'', JStr ''2.0''), (''result'', JObj []), (''error'', JStr [])] ''id'' (JInt i))"

text \<open>\<open>Config::add(res.data(), name, x)\<close>.\<close>

definition add_data :: "json \<Rightarrow> string \<Rightarrow> json \<Rightarrow> json outcome" where
  "add_data res name x =
     out_bind (json_index res ''result'') (\<lambda>(r, j).
     out_bind (json_get_obj r) (\<lambda>ps. json_set j ''result'' (JObj (config_add ps name x))))"

text \<open>With this buffer size the encoder never leaves its buffer (\<open>encode_base64_some\<close>), so its result is there.\<close>

definition encode_base64 :: "string \<Rightarrow> string" where
  "encode_base64 inp = the (encode_stream BUFFERSIZE inp)"

lemma encode_base64_some: "encode_stream BUFFERSIZE inp = Some (encode_base64 inp)"
  by (simp add: encode_base64_def encode_stream_block BUFFERSIZE_def)

record rpc_request =
  rq_json :: json
  rq_error :: string

definition RPC_Request :: "json \<Rightarrow> rpc_request" where
  "RPC_Request inp = \<lparr>rq_json = inp, rq_error = []\<rparr>"

text \<open>\<open>_json[key]\<close> as it is read.\<close>

definition rq_index :: "rpc_request \<Rightarrow> string \<Rightarrow> (json \<times> rpc_request) outcome" where
  "rq_index rq key = out_bind (json_index (rq_json rq) key) (\<lambda>(v, j). Return (v, rq\<lparr>rq_json := j\<rparr>))"

text \<open>\<open>_json["params"][key]\<close>, the same as \<open>params()[key]\<close>.\<close>

definition rq_param :: "rpc_request \<Rightarrow> string \<Rightarrow> (json \<times> rpc_request) outcome" where
  "rq_param rq key =
     out_bind (rq_index rq ''params'') (\<lambda>(p, rq1).
     out_bind (json_index p key) (\<lambda>(v, p').
     out_bind (json_set (rq_json rq1) ''params'' p') (\<lambda>j. Return (v, rq1\<lparr>rq_json := j\<rparr>))))"

definition createResponse :: "rpc_request \<Rightarrow> (json \<times> rpc_request) outcome" where
  "createResponse rq =
     out_bind (rq_index rq ''id'') (\<lambda>(v, rq1). out_bind (json_get_int v) (\<lambda>i. Return (RPC_Response i, rq1)))"

definition createErrorResponse :: "rpc_request \<Rightarrow> (json \<times> rpc_request) outcome" where
  "createErrorResponse rq =
     out_bind (createResponse rq) (\<lambda>(res, rq1).
     out_bind (json_set res ''err'' (JStr (rq_error rq1))) (\<lambda>res'. Return (res', rq1)))"

text \<open>The loop of \<open>valid\<close> over the rules, on the copy of the parameters.\<close>

fun valid_loop :: "(string \<times> value_type) list \<Rightarrow> json \<Rightarrow> rpc_request \<Rightarrow> (bool \<times> rpc_request) outcome" where
  "valid_loop [] params rq = Return (True, rq)"
| "valid_loop ((key, t) # rules) params rq =
     out_bind (json_index params key) (\<lambda>(v, params').
     if json_type v \<noteq> t then Return (False, rq\<lparr>rq_error := key @ '' has the wrong type''\<rparr>)
     else valid_loop rules params' rq)"

definition rq_valid :: "(string \<times> value_type) list \<Rightarrow> rpc_request \<Rightarrow> (bool \<times> rpc_request) outcome" where
  "rq_valid rules rq =
     out_bind (rq_index rq ''jsonrpc'') (\<lambda>(v, rq1).
     if v \<noteq> JStr ''2.0'' then Return (False, rq1\<lparr>rq_error := ''jsonrpc != 2.0''\<rparr>)
     else out_bind (rq_index rq1 ''id'') (\<lambda>(i, rq2).
     if json_is_null i \<or> json_type i \<noteq> int_type then Return (False, rq2\<lparr>rq_error := ''no id''\<rparr>)
     else out_bind (json_get_int i) (\<lambda>n.
     if n = 0 then Return (False, rq2\<lparr>rq_error := ''no id''\<rparr>)
     else out_bind (rq_index rq2 ''params'') (\<lambda>(params, rq3). valid_loop rules params rq3))))"

definition decode_base64 :: "rpc_request \<Rightarrow> string \<Rightarrow> (string \<times> rpc_request) outcome" where
  "decode_base64 rq key =
     out_bind (rq_param rq key) (\<lambda>(v, rq1).
     if json_is_null v \<or> json_type v \<noteq> str_type then Throw (Thrown_string (key @ '' not found''))
     else out_bind (json_get_str v) (\<lambda>s.
     case decode_stream BUFFERSIZE s of None \<Rightarrow> Stuck | Some d \<Rightarrow> Return (d, rq1)))"

text \<open>A string parameter, \<open>params()[key].get_str()\<close>.\<close>

definition rq_param_str :: "rpc_request \<Rightarrow> string \<Rightarrow> (string \<times> rpc_request) outcome" where
  "rq_param_str rq key = out_bind (rq_param rq key) (\<lambda>(v, rq1). out_bind (json_get_str v) (\<lambda>s. Return (s, rq1)))"

text \<open>The start of every handler: an invalid request is answered with the error response.\<close>

definition with_valid ::
  "(string \<times> value_type) list \<Rightarrow> json \<Rightarrow> (rpc_request \<Rightarrow> ('w, bool \<times> json) io) \<Rightarrow> ('w, bool \<times> json) io" where
  "with_valid rules root body =
     io_bind (io_of (rq_valid rules (RPC_Request root))) (\<lambda>(ok, rq).
     if \<not> ok then io_bind (io_of (createErrorResponse rq)) (\<lambda>(res, _). io_return (False, res))
     else body rq)"

text \<open>The ends: an error response with one member set, or the response with one member added.\<close>

definition fail_with :: "rpc_request \<Rightarrow> string \<Rightarrow> string \<Rightarrow> ('w, bool \<times> json) io" where
  "fail_with rq key msg =
     io_bind (io_of (createErrorResponse rq)) (\<lambda>(res, _).
     io_bind (io_of (json_set res key (JStr msg))) (\<lambda>res'. io_return (False, res')))"

definition answer_with :: "json \<Rightarrow> string \<Rightarrow> string \<Rightarrow> ('w, bool \<times> json) io" where
  "answer_with res key v = io_bind (io_of (add_data res key (JStr v))) (\<lambda>res'. io_return (True, res'))"

section \<open>Handlers\<close>

definition rpc_BootstrapFromPeer :: "json \<Rightarrow> json \<Rightarrow> ('w, bool \<times> json) io" where
  "rpc_BootstrapFromPeer root response =
     io_bind (io_of (json_get_str root)) (\<lambda>_.
     io_bind (io_of (json_set response ''jsonrpc'' (JStr ''2.0''))) (\<lambda>r1.
     io_bind (io_of (json_at root ''id'')) (\<lambda>i.
     io_bind (io_of (json_set r1 ''id'' i)) (\<lambda>r2.
     io_bind (io_of (json_set r2 ''result'' (JStr ''success''))) (\<lambda>r3. io_return (True, r3))))))"

definition rpc_BootstrapFromHostlist :: "json \<Rightarrow> json \<Rightarrow> ('w, bool \<times> json) io" where
  "rpc_BootstrapFromHostlist root response =
     io_bind (io_of (json_get_str root)) (\<lambda>_. io_return (True, response))"

definition rpc_RuntimeInfo :: "json \<Rightarrow> json \<Rightarrow> ('w, bool \<times> json) io" where
  "rpc_RuntimeInfo root response =
     io_bind (io_of (createResponse (RPC_Request root))) (\<lambda>(res, _). answer_with res ''uptime'' ''1'')"

definition rpc_file_put :: "'w module_manager \<Rightarrow> json \<Rightarrow> json \<Rightarrow> ('w, bool \<times> json) io" where
  "rpc_file_put mm root response = with_valid [(''path'', str_type)] root (\<lambda>rq.
     io_bind (io_of (rq_param_str rq ''path'')) (\<lambda>(path, rq1).
     io_bind (io_of (createResponse rq1)) (\<lambda>(res, rq2).
     io_bind (mm_store_file mm path []) (\<lambda>(ok, i).
     if \<not> ok then fail_with rq2 ''error'' ''store file failed'' else answer_with res ''id'' i))))"

definition rpc_file_get :: "'w module_manager \<Rightarrow> json \<Rightarrow> json \<Rightarrow> ('w, bool \<times> json) io" where
  "rpc_file_get mm root response = with_valid [(''id'', str_type)] root (\<lambda>rq.
     io_bind (io_of (rq_param_str rq ''id'')) (\<lambda>(i, rq1).
     io_bind (io_of (createResponse rq1)) (\<lambda>(res, rq2).
     io_bind (mm_get_file mm i []) (\<lambda>(ok, path).
     if \<not> ok then fail_with rq2 ''error'' ''get file failed'' else answer_with res ''path'' path))))"

text \<open>
  \<open>CreateObject\<close>: an existing object under a custom id is updated; otherwise the object is created,
  which stores it and ignores whether that worked, and then stored again.
\<close>

definition rpc_store_created :: "archive \<Rightarrow> 'w module_manager \<Rightarrow> rpc_request \<Rightarrow> object \<Rightarrow> ('w, bool \<times> json) io" where
  "rpc_store_created ar mm rq obj =
     io_bind (io_of (decode_base64 rq ''content'')) (\<lambda>(_, rq1).
     io_bind (io_of (rq_param_str rq1 ''content'')) (\<lambda>(_, rq2).
     io_bind (db_create_object ar mm obj) (\<lambda>ok.
     if \<not> ok then fail_with rq2 ''err'' ''create object failed''
     else io_bind (io_of (createResponse rq2)) (\<lambda>(res, _). answer_with res ''id'' (obj_id obj)))))"

definition rpc_CreateObject ::
  "(string \<Rightarrow> string) \<Rightarrow> dmp_ops \<Rightarrow> ('w \<Rightarrow> ptime) \<Rightarrow> archive \<Rightarrow> 'w module_manager \<Rightarrow> json \<Rightarrow> json
    \<Rightarrow> ('w, bool \<times> json) io" where
  "rpc_CreateObject H d clk ar mm root response = with_valid [(''content'', str_type)] root (\<lambda>rq.
     io_bind (io_of (rq_param rq ''id'')) (\<lambda>(i, rq1).
     if \<not> json_is_null i \<and> json_type i = str_type
     then io_bind (io_of (json_get_str i)) (\<lambda>custom_id.
          io_bind (db_get_object_head ar mm custom_id new_Object) (\<lambda>(found, obj).
          io_bind (io_of (decode_base64 rq1 ''content'')) (\<lambda>(c, rq2).
          if found
          then io_bind (db_update_object H d clk ar mm obj c) (\<lambda>(ok, obj').
               if \<not> ok then fail_with rq2 ''err'' ''update object failed''
               else io_bind (io_of (createResponse rq2)) (\<lambda>(res, _). answer_with res ''id'' (obj_id obj')))
          else io_bind (object_create_as H d clk ar mm obj c custom_id) (\<lambda>(_, obj').
               rpc_store_created ar mm rq2 obj'))))
     else io_bind (io_of (decode_base64 rq1 ''content'')) (\<lambda>(c, rq2).
          io_bind (object_create H d clk ar mm new_Object c) (\<lambda>(_, obj'). rpc_store_created ar mm rq2 obj'))))"

text \<open>
  \<open>GetObject\<close>: for a full request the inner block builds a response of its own, which the assignment
  after the block replaces by the outer one.
\<close>

definition rpc_GetObject :: "archive \<Rightarrow> 'w module_manager \<Rightarrow> json \<Rightarrow> json \<Rightarrow> ('w, bool \<times> json) io" where
  "rpc_GetObject ar mm root response = with_valid [(''id'', str_type)] root (\<lambda>rq.
     io_bind (io_of (createResponse rq)) (\<lambda>(res, rq1).
     io_bind (io_of (rq_param_str rq1 ''id'')) (\<lambda>(i, rq2).
     io_bind (db_get_object_head ar mm i new_Object) (\<lambda>(ok, obj).
     if \<not> ok then fail_with rq2 ''error'' ''get object failed''
     else io_bind (io_of (rq_index rq2 ''params'')) (\<lambda>(p, rq3).
     io_bind (io_of (json_contains p ''full'')) (\<lambda>has.
     io_bind (if has then io_bind (io_of (rq_param rq3 ''full'')) (\<lambda>(f, _). io_of (json_get_bool f)) else io_return False) (\<lambda>full.
     if full
     then io_bind (io_of (createResponse rq3)) (\<lambda>(inner, _).
          io_bind (io_of (add_data inner ''content'' (JStr (obj_id obj)))) (\<lambda>_. io_return (True, res)))
     else answer_with res ''content'' (encode_base64 (obj_head obj)))))))))"

definition rpc_DeleteObject :: "json \<Rightarrow> json \<Rightarrow> ('w, bool \<times> json) io" where
  "rpc_DeleteObject root response = io_return (False, response)"

definition rpc_UpdateObject :: "json \<Rightarrow> json \<Rightarrow> ('w, bool \<times> json) io" where
  "rpc_UpdateObject root response = io_return (False, response)"

definition rpc_kv_get :: "'w module_manager \<Rightarrow> json \<Rightarrow> json \<Rightarrow> ('w, bool \<times> json) io" where
  "rpc_kv_get mm root response = with_valid [(''key'', str_type)] root (\<lambda>rq.
     io_bind (io_of (rq_param_str rq ''key'')) (\<lambda>(key, rq1).
     io_bind (mm_kv_get mm key None) (\<lambda>(ok, kv_res).
     if \<not> ok then fail_with rq1 ''error'' ''kv.get failed''
     else io_bind (io_of (createResponse rq1)) (\<lambda>(res, _).
       case kv_res of None \<Rightarrow> io_stuck
       | Some m \<Rightarrow> answer_with res ''content'' (encode_base64 (fst (kv_index m key)))))))"

definition rpc_kv_put :: "'w module_manager \<Rightarrow> json \<Rightarrow> json \<Rightarrow> ('w, bool \<times> json) io" where
  "rpc_kv_put mm root response = with_valid [(''key'', str_type), (''value'', str_type)] root (\<lambda>rq.
     io_bind (io_of (decode_base64 rq ''value'')) (\<lambda>(content, rq1).
     io_bind (io_of (rq_param_str rq1 ''key'')) (\<lambda>(key, rq2).
     io_bind (mm_kv_put mm key content) (\<lambda>ok.
     if \<not> ok then fail_with rq2 ''error'' ''kv.put failed''
     else io_bind (io_of (createResponse rq2)) (\<lambda>(res, _). io_return (True, res))))))"

definition rpc_kv_remove :: "'w module_manager \<Rightarrow> json \<Rightarrow> json \<Rightarrow> ('w, bool \<times> json) io" where
  "rpc_kv_remove mm root response = with_valid [(''key'', str_type)] root (\<lambda>rq.
     io_bind (io_of (rq_param_str rq ''key'')) (\<lambda>(key, rq1).
     io_bind (mm_kv_remove mm key) (\<lambda>ok.
     if \<not> ok then fail_with rq1 ''error'' ''kv.remove failed''
     else io_bind (io_of (createResponse rq1)) (\<lambda>(res, _). io_return (True, res)))))"

definition rpc_session_t_join :: "json \<Rightarrow> json \<Rightarrow> ('w, bool \<times> json) io" where
  "rpc_session_t_join root response = io_return (False, response)"

definition rpc_session_t_leave :: "json \<Rightarrow> json \<Rightarrow> ('w, bool \<times> json) io" where
  "rpc_session_t_leave root response = io_return (False, response)"

definition rpc_session_t_update :: "json \<Rightarrow> json \<Rightarrow> ('w, bool \<times> json) io" where
  "rpc_session_t_update root response = io_return (False, response)"

section \<open>The method table\<close>

definition rpc_entry :: "(json \<Rightarrow> json \<Rightarrow> ('w, bool \<times> json) io) \<Rightarrow> string \<Rightarrow> 'w rpc_method" where
  "rpc_entry f name = \<lparr>m_name = name, m_description = JNull, m_call = (\<lambda>_. f)\<rparr>"

definition rpc_manager_init ::
  "(string \<Rightarrow> string) \<Rightarrow> dmp_ops \<Rightarrow> ('w \<Rightarrow> ptime) \<Rightarrow> archive \<Rightarrow> 'w module_manager \<Rightarrow> 'w rpc_method list" where
  "rpc_manager_init H d clk ar mm = foldl (\<lambda>ms m. AddMethod m ms) new_Handler [
     rpc_entry rpc_RuntimeInfo ''an.info'',
     rpc_entry rpc_BootstrapFromPeer ''an.BootstrapFromPeer'',
     rpc_entry rpc_BootstrapFromHostlist ''an.BootstrapFromHostlist'',
     rpc_entry (rpc_CreateObject H d clk ar mm) ''object.create'',
     rpc_entry (rpc_GetObject ar mm) ''object.get'',
     rpc_entry rpc_UpdateObject ''object.update'',
     rpc_entry rpc_DeleteObject ''object.delete'',
     rpc_entry (rpc_file_put mm) ''file.put'',
     rpc_entry (rpc_file_get mm) ''file.get'',
     rpc_entry (rpc_kv_get mm) ''kv.get'',
     rpc_entry (rpc_kv_put mm) ''kv.put'',
     rpc_entry (rpc_kv_remove mm) ''kv.remove'',
     rpc_entry rpc_session_t_join ''session.t.join'',
     rpc_entry rpc_session_t_leave ''session.t.leave'',
     rpc_entry rpc_session_t_update ''session.t.update'']"


section \<open>Requests that are well formed\<close>

text \<open>A JSON-RPC 2.0 request with a non-zero id in the range of \<open>int\<close> and an object of parameters.\<close>

definition rpc_req :: "json \<Rightarrow> int \<Rightarrow> (string \<times> json) list \<Rightarrow> bool" where
  "rpc_req root n ps \<longleftrightarrow> (\<exists>rs. root = JObj rs \<and> pairs_find ''jsonrpc'' rs = Some (JStr ''2.0'')
     \<and> pairs_find ''id'' rs = Some (JInt n) \<and> n \<noteq> 0 \<and> - (2 ^ 31) \<le> n \<and> n < 2 ^ 31
     \<and> pairs_find ''params'' rs = Some (JObj ps))"

definition rpc_answer :: "int \<Rightarrow> (string \<times> json) list \<Rightarrow> json" where
  "rpc_answer n ds = JObj [(''jsonrpc'', JStr ''2.0''), (''result'', JObj ds), (''error'', JStr []), (''id'', JInt n)]"

lemma RPC_Response_answer: "RPC_Response n = rpc_answer n []"
  by (simp add: RPC_Response_def rpc_answer_def config_add_def)

lemma pairs_set_same: "pairs_find key ps = Some v \<Longrightarrow> pairs_set key v ps = ps"
  by (induction ps rule: pairs_find.induct) (auto split: if_splits)

lemma rq_index_found: "rq_json rq = JObj rs \<Longrightarrow> pairs_find key rs = Some v \<Longrightarrow> rq_index rq key = Return (v, rq)"
  by (simp add: rq_index_def json_index_def)

lemma rpc_req_index:
  assumes "rpc_req (rq_json rq) n ps"
  shows "rq_index rq ''jsonrpc'' = Return (JStr ''2.0'', rq)" "rq_index rq ''id'' = Return (JInt n, rq)"
    "rq_index rq ''params'' = Return (JObj ps, rq)" "createResponse rq = Return (rpc_answer n [], rq)"
proof -
  from assms obtain rs where rs: "rq_json rq = JObj rs" "pairs_find ''jsonrpc'' rs = Some (JStr ''2.0'')"
    "pairs_find ''id'' rs = Some (JInt n)" "- (2 ^ 31) \<le> n" "n < 2 ^ 31" "pairs_find ''params'' rs = Some (JObj ps)"
    by (auto simp: rpc_req_def)
  then show "rq_index rq ''jsonrpc'' = Return (JStr ''2.0'', rq)" "rq_index rq ''params'' = Return (JObj ps, rq)"
    and i: "rq_index rq ''id'' = Return (JInt n, rq)"
    by (auto intro: rq_index_found)
  from rs have "to_signed 32 n = n" by (simp add: to_signed_id)
  with i show "createResponse rq = Return (rpc_answer n [], rq)"
    by (simp add: createResponse_def json_get_int_def RPC_Response_answer)
qed

lemma rq_param_found:
  assumes "rpc_req (rq_json rq) n ps" and "pairs_find key ps = Some v"
  shows "rq_param rq key = Return (v, rq)"
proof -
  from assms(1) obtain rs where rs: "rq_json rq = JObj rs" "pairs_find ''params'' rs = Some (JObj ps)"
    by (auto simp: rpc_req_def)
  with assms(2) rpc_req_index(3) [OF assms(1)] show ?thesis
    by (simp add: rq_param_def json_index_def json_set_def pairs_set_same)
qed

lemma rq_param_str_found:
  "rpc_req (rq_json rq) n ps \<Longrightarrow> pairs_find key ps = Some (JStr s) \<Longrightarrow> rq_param_str rq key = Return (s, rq)"
  by (simp add: rq_param_str_def rq_param_found)

lemma decode_base64_found:
  "rpc_req (rq_json rq) n ps \<Longrightarrow> pairs_find key ps = Some (JStr s) \<Longrightarrow> decode_stream BUFFERSIZE s = Some c \<Longrightarrow>
   decode_base64 rq key = Return (c, rq)"
  by (simp add: decode_base64_def rq_param_found json_is_null_def)

lemma decode_encode_base64: "decode_stream BUFFERSIZE (encode_base64 c) = Some c"
proof -
  obtain code where "encode_stream BUFFERSIZE c = Some code" "decode_stream BUFFERSIZE code = Some c"
    by (rule base64_decode_encode [of BUFFERSIZE BUFFERSIZE c]) (simp_all add: BUFFERSIZE_def)
  then show ?thesis by (simp add: encode_base64_some)
qed

definition param_type :: "(string \<times> json) list \<Rightarrow> string \<Rightarrow> value_type" where
  "param_type ps key = (case pairs_find key ps of None \<Rightarrow> null_type | Some v \<Rightarrow> json_type v)"

lemma valid_loop_spec:
  assumes "\<forall>(key, t) \<in> set rules. t \<noteq> null_type"
  shows "\<exists>err. valid_loop rules (JObj ps) rq = Return (\<forall>(key, t) \<in> set rules. param_type ps key = t, rq\<lparr>rq_error := err\<rparr>)"
  using assms
proof (induction rules)
  case Nil
  then show ?case by (auto intro: exI [of _ "rq_error rq"])
next
  case (Cons r rules)
  obtain key t where r: "r = (key, t)" by (cases r)
  show ?case
  proof (cases "param_type ps key = t")
    case True
    with Cons.prems have "\<exists>v. pairs_find key ps = Some v \<and> json_type v = t"
      by (auto simp: r param_type_def split: option.splits)
    with Cons True show ?thesis by (auto simp: r json_index_def)
  next
    case False
    then show ?thesis
      by (auto simp: r json_index_def param_type_def json_is_null_def split: option.splits)
  qed
qed

lemma rq_valid_spec:
  assumes "rpc_req (rq_json rq) n ps" and "\<forall>(key, t) \<in> set rules. t \<noteq> null_type"
  shows "\<exists>err. rq_valid rules rq = Return (\<forall>(key, t) \<in> set rules. param_type ps key = t, rq\<lparr>rq_error := err\<rparr>)"
proof -
  from assms(1) have "to_signed 32 n = n" "n \<noteq> 0" by (auto simp: rpc_req_def to_signed_id)
  with rpc_req_index [OF assms(1)] valid_loop_spec [OF assms(2), of ps rq] show ?thesis
    by (simp add: rq_valid_def json_is_null_def json_get_int_def)
qed

lemma with_valid_ok:
  assumes "rpc_req root n ps" and "\<forall>(key, t) \<in> set rules. t \<noteq> null_type \<and> param_type ps key = t"
  obtains rq where "rq_json rq = root" and "with_valid rules root body = body rq"
proof -
  have "rpc_req (rq_json (RPC_Request root)) n ps" using assms(1) by (simp add: RPC_Request_def)
  with rq_valid_spec [of "RPC_Request root" n ps rules] assms(2) obtain err
    where "rq_valid rules (RPC_Request root) = Return (True, (RPC_Request root)\<lparr>rq_error := err\<rparr>)" by fastforce
  then show ?thesis
    by (intro that [of "(RPC_Request root)\<lparr>rq_error := err\<rparr>"]) (simp_all add: with_valid_def RPC_Request_def)
qed

lemma answer_with_answer: "answer_with (rpc_answer n ds) key v = io_return (True, rpc_answer n (ds @ [(key, JStr v)]))"
  by (simp add: answer_with_def add_data_def rpc_answer_def json_index_def json_set_def config_add_def fun_eq_iff io_simps)


text \<open>The handlers on well-formed requests.\<close>

definition rpc_error :: "int \<Rightarrow> string \<Rightarrow> string \<Rightarrow> json" where
  "rpc_error n err msg = JObj [(''jsonrpc'', JStr ''2.0''), (''result'', JObj []), (''error'', JStr msg), (''id'', JInt n),
     (''err'', JStr err)]"

lemma fail_with_error:
  "rpc_req (rq_json rq) n ps \<Longrightarrow> fail_with rq ''error'' msg = io_return (False, rpc_error n (rq_error rq) msg)"
  by (simp add: fail_with_def createErrorResponse_def rpc_req_index rpc_answer_def rpc_error_def json_set_def fun_eq_iff io_simps)

lemma rpc_kv_put_req:
  assumes "rpc_req root n ps" and "pairs_find ''key'' ps = Some (JStr k)" and "pairs_find ''value'' ps = Some (JStr e)"
    and "decode_stream BUFFERSIZE e = Some v"
  obtains err where "rpc_kv_put mm root response = io_bind (mm_kv_put mm k v) (\<lambda>ok.
    io_return (ok, if ok then rpc_answer n [] else rpc_error n err ''kv.put failed''))"
proof -
  have "\<forall>(key, t) \<in> set [(''key'', str_type), (''value'', str_type)]. t \<noteq> null_type \<and> param_type ps key = t"
    using assms by (simp add: param_type_def)
  then obtain rq where rq: "rq_json rq = root" and run: "rpc_kv_put mm root response =
     io_bind (io_of (decode_base64 rq ''value'')) (\<lambda>(content, rq1).
     io_bind (io_of (rq_param_str rq1 ''key'')) (\<lambda>(key, rq2).
     io_bind (mm_kv_put mm key content) (\<lambda>ok.
     if \<not> ok then fail_with rq2 ''error'' ''kv.put failed''
     else io_bind (io_of (createResponse rq2)) (\<lambda>(res, _). io_return (True, res)))))"
    unfolding rpc_kv_put_def by (rule with_valid_ok [OF assms(1)])
  from rq assms(1) have req: "rpc_req (rq_json rq) n ps" by simp
  have "rpc_kv_put mm root response = io_bind (mm_kv_put mm k v) (\<lambda>ok.
    io_return (ok, if ok then rpc_answer n [] else rpc_error n (rq_error rq) ''kv.put failed''))"
    unfolding run by (rule ext) (simp add: decode_base64_found [OF req assms(3,4)] rq_param_str_found [OF req assms(2)]
        fail_with_error [OF req] rpc_req_index [OF req] io_simps split: prod.splits outcome.splits)
  then show ?thesis by (rule that)
qed


lemma fail_with_err:
  "rpc_req (rq_json rq) n ps \<Longrightarrow> fail_with rq ''err'' msg = io_return (False, rpc_error n msg [])"
  by (simp add: fail_with_def createErrorResponse_def rpc_req_index rpc_answer_def rpc_error_def json_set_def fun_eq_iff io_simps)

lemma rpc_kv_get_req:
  assumes "rpc_req root n ps" and "pairs_find ''key'' ps = Some (JStr k)"
  obtains err where "rpc_kv_get mm root response = io_bind (mm_kv_get mm k None) (\<lambda>(ok, r).
    if \<not> ok then io_return (False, rpc_error n err ''kv.get failed'')
    else case r of None \<Rightarrow> io_stuck
      | Some m \<Rightarrow> io_return (True, rpc_answer n [(''content'', JStr (encode_base64 (fst (kv_index m k))))]))"
proof -
  have "\<forall>(key, t) \<in> set [(''key'', str_type)]. t \<noteq> null_type \<and> param_type ps key = t"
    using assms by (simp add: param_type_def)
  then obtain rq where rq: "rq_json rq = root" and run: "rpc_kv_get mm root response =
     io_bind (io_of (rq_param_str rq ''key'')) (\<lambda>(key, rq1).
     io_bind (mm_kv_get mm key None) (\<lambda>(ok, kv_res).
     if \<not> ok then fail_with rq1 ''error'' ''kv.get failed''
     else io_bind (io_of (createResponse rq1)) (\<lambda>(res, _).
       case kv_res of None \<Rightarrow> io_stuck
       | Some m \<Rightarrow> answer_with res ''content'' (encode_base64 (fst (kv_index m key))))))"
    unfolding rpc_kv_get_def by (rule with_valid_ok [OF assms(1)])
  from rq assms(1) have req: "rpc_req (rq_json rq) n ps" by simp
  have "rpc_kv_get mm root response = io_bind (mm_kv_get mm k None) (\<lambda>(ok, r).
    if \<not> ok then io_return (False, rpc_error n (rq_error rq) ''kv.get failed'')
    else case r of None \<Rightarrow> io_stuck
      | Some m \<Rightarrow> io_return (True, rpc_answer n [(''content'', JStr (encode_base64 (fst (kv_index m k))))]))"
    unfolding run by (rule ext) (simp add: rq_param_str_found [OF req assms(2)] fail_with_error [OF req]
        rpc_req_index [OF req] answer_with_answer io_simps split: prod.splits outcome.splits option.splits)
  then show ?thesis by (rule that)
qed

lemma rpc_GetObject_req:
  assumes "rpc_req root n ps" and "pairs_find ''id'' ps = Some (JStr i)" and "pairs_find ''full'' ps = None"
  obtains err where "rpc_GetObject ar mm root response = io_bind (db_get_object_head ar mm i new_Object) (\<lambda>(ok, obj).
    io_return (ok, if ok then rpc_answer n [(''content'', JStr (encode_base64 (obj_head obj)))]
      else rpc_error n err ''get object failed''))"
proof -
  have "\<forall>(key, t) \<in> set [(''id'', str_type)]. t \<noteq> null_type \<and> param_type ps key = t"
    using assms by (simp add: param_type_def)
  from with_valid_ok [OF assms(1) this] obtain rq where rq: "rq_json rq = root" and run: "rpc_GetObject ar mm root response =
     io_bind (io_of (createResponse rq)) (\<lambda>(res, rq1).
     io_bind (io_of (rq_param_str rq1 ''id'')) (\<lambda>(i, rq2).
     io_bind (db_get_object_head ar mm i new_Object) (\<lambda>(ok, obj).
     if \<not> ok then fail_with rq2 ''error'' ''get object failed''
     else io_bind (io_of (rq_index rq2 ''params'')) (\<lambda>(p, rq3).
     io_bind (io_of (json_contains p ''full'')) (\<lambda>has.
     io_bind (if has then io_bind (io_of (rq_param rq3 ''full'')) (\<lambda>(f, _). io_of (json_get_bool f)) else io_return False) (\<lambda>full.
     if full
     then io_bind (io_of (createResponse rq3)) (\<lambda>(inner, _).
          io_bind (io_of (add_data inner ''content'' (JStr (obj_id obj)))) (\<lambda>_. io_return (True, res)))
     else answer_with res ''content'' (encode_base64 (obj_head obj))))))))"
    unfolding rpc_GetObject_def by blast
  from rq assms(1) have req: "rpc_req (rq_json rq) n ps" by simp
  have "json_contains (JObj ps) ''full'' = Return False" using assms(3) by (simp add: json_contains_def)
  then have "rpc_GetObject ar mm root response = io_bind (db_get_object_head ar mm i new_Object) (\<lambda>(ok, obj).
    io_return (ok, if ok then rpc_answer n [(''content'', JStr (encode_base64 (obj_head obj)))]
      else rpc_error n (rq_error rq) ''get object failed''))"
    unfolding run by (intro ext) (simp add: rq_param_str_found [OF req assms(2)] fail_with_error [OF req]
        rpc_req_index [OF req] answer_with_answer io_simps split: prod.splits outcome.splits)
  then show ?thesis by (rule that)
qed

lemma rpc_CreateObject_req:
  assumes "rpc_req root n ps" and "pairs_find ''content'' ps = Some (JStr e)" and "pairs_find ''id'' ps = Some (JStr cid)"
    and "decode_stream BUFFERSIZE e = Some c"
  shows "rpc_CreateObject H d clk ar mm root response = io_bind (db_get_object_head ar mm cid new_Object) (\<lambda>(found, obj).
    if found then io_bind (db_update_object H d clk ar mm obj c) (\<lambda>(ok, obj').
      io_return (ok, if ok then rpc_answer n [(''id'', JStr (obj_id obj'))] else rpc_error n ''update object failed'' []))
    else io_bind (object_create_as H d clk ar mm obj c cid) (\<lambda>(_, obj').
      io_bind (db_create_object ar mm obj') (\<lambda>ok.
      io_return (ok, if ok then rpc_answer n [(''id'', JStr (obj_id obj'))] else rpc_error n ''create object failed'' []))))"
proof -
  have "\<forall>(key, t) \<in> set [(''content'', str_type)]. t \<noteq> null_type \<and> param_type ps key = t"
    using assms by (simp add: param_type_def)
  from with_valid_ok [OF assms(1) this] obtain rq where rq: "rq_json rq = root" and run:
    "rpc_CreateObject H d clk ar mm root response =
     io_bind (io_of (rq_param rq ''id'')) (\<lambda>(i, rq1).
     if \<not> json_is_null i \<and> json_type i = str_type
     then io_bind (io_of (json_get_str i)) (\<lambda>custom_id.
          io_bind (db_get_object_head ar mm custom_id new_Object) (\<lambda>(found, obj).
          io_bind (io_of (decode_base64 rq1 ''content'')) (\<lambda>(c, rq2).
          if found
          then io_bind (db_update_object H d clk ar mm obj c) (\<lambda>(ok, obj').
               if \<not> ok then fail_with rq2 ''err'' ''update object failed''
               else io_bind (io_of (createResponse rq2)) (\<lambda>(res, _). answer_with res ''id'' (obj_id obj')))
          else io_bind (object_create_as H d clk ar mm obj c custom_id) (\<lambda>(_, obj').
               rpc_store_created ar mm rq2 obj'))))
     else io_bind (io_of (decode_base64 rq1 ''content'')) (\<lambda>(c, rq2).
          io_bind (object_create H d clk ar mm new_Object c) (\<lambda>(_, obj'). rpc_store_created ar mm rq2 obj')))"
    unfolding rpc_CreateObject_def by blast
  from rq assms(1) have req: "rpc_req (rq_json rq) n ps" by simp
  show ?thesis
    unfolding run by (intro ext) (simp add: rq_param_found [OF req assms(3)] rq_param_str_found [OF req assms(2)]
        decode_base64_found [OF req assms(2,4)] rpc_store_created_def json_is_null_def
        fail_with_err [OF req] rpc_req_index [OF req] answer_with_answer io_simps split: prod.splits outcome.splits)
qed


section \<open>Properties\<close>

text \<open>
  C2: Objects through the RPC interface. When \<open>object.create\<close> with an unused id answers success, it
  answers with that id, and \<open>object.get\<close> of that id then answers success with the base64 text of
  exactly the content that was sent.
\<close>

theorem rpc_object_round_trip:
  assumes "archive_spec ar" and "ff_inv H fs nd st w" and "key_ok cid" and "ff_vals H nd st w cid = {}"
    and "ff_storable H nd st w (oarchive ar (object_created H d (clk w) (new_Object\<lparr>obj_id := cid\<rparr>) c cid))"
    and "rpc_req root n ps" and "pairs_find ''content'' ps = Some (JStr (encode_base64 c))"
    and "pairs_find ''id'' ps = Some (JStr cid)"
    and "rpc_CreateObject H d clk ar (mm_ff H fs st) root JNull w = (Return (True, response), w')"
    and "rpc_req root2 m qs" and "pairs_find ''id'' qs = Some (JStr cid)" and "pairs_find ''full'' qs = None"
  shows "response = rpc_answer n [(''id'', JStr cid)]
    \<and> rpc_GetObject ar (mm_ff H fs st) root2 JNull w' = (Return (True, rpc_answer m [(''content'', JStr (encode_base64 c))]), w')"
proof -
  let ?mm = "mm_ff H fs st" and ?obj = "object_created H d (clk w) (new_Object\<lparr>obj_id := cid\<rparr>) c cid"
  have simps: "obj_id ?obj = cid" "obj_head ?obj = c" by (simp_all add: object_created_def Let_def)
  note run = assms(9) [unfolded rpc_CreateObject_req [OF assms(6-8) decode_encode_base64]]
  have "db_get_object_head ar ?mm cid new_Object w = (Return (False, new_Object\<lparr>obj_id := cid\<rparr>), w)"
    using ffdb.head_missing [OF assms(2-4), of ar new_Object] run by (auto simp: io_bind_apply)
  with run obtain b w1 where c1: "db_create_object ar ?mm ?obj w = (Return b, w1)"
    and c2: "db_create_object ar ?mm ?obj w1 = (Return True, w')" and "response = rpc_answer n [(''id'', JStr cid)]"
    by (auto simp: io_bind_apply object_create_as_def Let_def simps split: prod.splits outcome.splits)
  moreover have "db_stored (ff_inv H fs nd st) (ff_vals H nd st) ar ?obj w'"
    by (rule ffdb.create_twice_stored [OF assms(2) _ _ assms(5) c1 c2]) (simp_all add: simps assms(3,4))
  from ffdb.load_stored [OF assms(1) this, of new_Object]
  have "db_get_object_head ar ?mm cid new_Object w' = (Return (True, object_reloaded ?obj new_Object), w')"
    by (simp add: simps)
  moreover obtain err where "rpc_GetObject ar ?mm root2 JNull = io_bind (db_get_object_head ar ?mm cid new_Object) (\<lambda>(ok, obj).
    io_return (ok, if ok then rpc_answer m [(''content'', JStr (encode_base64 (obj_head obj)))]
      else rpc_error m err ''get object failed''))"
    by (rule rpc_GetObject_req [OF assms(10-12)])
  ultimately show ?thesis by (simp add: io_bind_apply simps)
qed

text \<open>
  C3: Overwriting through the RPC interface. When \<open>object.create\<close> names the id of a stored object and answers
  success, it answers with that id and has revised the object instead of replacing it: \<open>object.get\<close> answers with
  the new content, and the stored object carries the old history extended by it.
\<close>

theorem rpc_object_overwrite:
  assumes "archive_spec ar" and "ff_inv H fs nd st w" and "key_ok (obj_id obj)"
    and "ff_vals H nd st w (obj_id obj) = {oarchive ar obj}" and "obj_history H d cs obj"
    and "ff_storable H nd st w (oarchive ar (object_revised H d (clk w) c (object_reloaded obj new_Object)))"
    and "rpc_req root n ps" and "pairs_find ''content'' ps = Some (JStr (encode_base64 c))"
    and "pairs_find ''id'' ps = Some (JStr (obj_id obj))"
    and "rpc_CreateObject H d clk ar (mm_ff H fs st) root JNull w = (Return (True, response), w')"
    and "rpc_req root2 m qs" and "pairs_find ''id'' qs = Some (JStr (obj_id obj))" and "pairs_find ''full'' qs = None"
  shows "response = rpc_answer n [(''id'', JStr (obj_id obj))]
    \<and> rpc_GetObject ar (mm_ff H fs st) root2 JNull w' = (Return (True, rpc_answer m [(''content'', JStr (encode_base64 c))]), w')
    \<and> (\<exists>obj'. object_load ar (mm_ff H fs st) (obj_id obj) new_Object w' = (Return (True, obj'), w')
        \<and> obj_history H d (cs @ [c]) obj')"
proof -
  let ?mm = "mm_ff H fs st" and ?old = "object_reloaded obj new_Object"
  have "db_stored (ff_inv H fs nd st) (ff_vals H nd st) ar obj w" using assms(2-4) by (simp add: db_stored_def)
  from ffdb.load_stored [OF assms(1) this] assms(10) [unfolded rpc_CreateObject_req [OF assms(7-9) decode_encode_base64]]
  obtain obj' where up: "db_update_object H d clk ar ?mm ?old c w = (Return (True, obj'), w')"
    and resp: "response = rpc_answer n [(''id'', JStr (obj_id obj'))]"
    by (auto simp: io_bind_apply split: prod.splits outcome.splits if_splits)
  then have "obj' = object_revised H d (clk w) c ?old"
    by (auto simp: db_update_object_def Let_def elim!: io_bind_returnE split: if_splits)
  with ffdb.update_stored [OF assms(2) _ _ _ up] assms(3,5,6)
  have st: "db_stored (ff_inv H fs nd st) (ff_vals H nd st) ar obj' w'" and i: "obj_id obj' = obj_id obj"
    and h: "obj_history H d (cs @ [c]) obj'" by auto
  from ffdb.load_stored [OF assms(1) st, of new_Object] i
  have load: "db_get_object_head ar ?mm (obj_id obj) new_Object w' = (Return (True, object_reloaded obj' new_Object), w')" by simp
  obtain err where "rpc_GetObject ar ?mm root2 JNull = io_bind (db_get_object_head ar ?mm (obj_id obj) new_Object) (\<lambda>(ok, obj).
    io_return (ok, if ok then rpc_answer m [(''content'', JStr (encode_base64 (obj_head obj)))]
      else rpc_error m err ''get object failed''))"
    by (rule rpc_GetObject_req [OF assms(11-13)])
  with load resp i h obj_history_head [OF h] show ?thesis
    by (simp add: io_bind_apply object_get_def object_load_def)
qed

text \<open>
  C33: Key-value pairs through the RPC interface. After a successful \<open>kv.put\<close> of a value under a key
  without values, \<open>kv.get\<close> of the key answers success, but with the value only when the key is the
  hexadecimal hash of the value: for every other key it answers with the empty text.
\<close>

theorem rpc_kv_put_get:
  assumes "ff_inv H fs nd st w" and "key_ok k" and "ff_storable H nd st w v" and "ff_vals H nd st w k = {}"
    and "rpc_req root n ps" and "pairs_find ''key'' ps = Some (JStr k)"
    and "pairs_find ''value'' ps = Some (JStr (encode_base64 v))"
    and "rpc_kv_put (mm_ff H fs st) root JNull w = (Return (True, response), w')"
    and "rpc_req root2 m qs" and "pairs_find ''key'' qs = Some (JStr k)"
  shows "rpc_kv_get (mm_ff H fs st) root2 JNull w' =
    (Return (True, rpc_answer m [(''content'', JStr (encode_base64 (if k = toHex (H v) then v else [])))]), w')"
proof -
  let ?mm = "mm_ff H fs st"
  obtain err where "rpc_kv_put ?mm root JNull = io_bind (mm_kv_put ?mm k v) (\<lambda>ok.
    io_return (ok, if ok then rpc_answer n [] else rpc_error n err ''kv.put failed''))"
    by (rule rpc_kv_put_req [OF assms(5-7) decode_encode_base64])
  with assms(8) have "ff_kv_put H fs st k v w = (Return True, w')"
    by (auto simp: ffdb.put_signal io_simps split: prod.splits outcome.splits)
  from ff.put_then_get [OF assms(1-4) this]
  have get: "mm_kv_get ?mm k None w' = (Return (True, Some [(toHex (H v), v)]), w')"
    by (simp add: ffdb.get_signal)
  obtain err where "rpc_kv_get ?mm root2 JNull = io_bind (mm_kv_get ?mm k None) (\<lambda>(ok, r).
    if \<not> ok then io_return (False, rpc_error m err ''kv.get failed'')
    else case r of None \<Rightarrow> io_stuck
      | Some m' \<Rightarrow> io_return (True, rpc_answer m [(''content'', JStr (encode_base64 (fst (kv_index m' k))))]))"
    by (rule rpc_kv_get_req [OF assms(9,10)])
  with get show ?thesis by (simp add: io_simps kv_index_def)
qed

text \<open>
  A request with the right version but without an integer id is not answered: every handler that
  uses the request helpers throws a \<open>runtime_error\<close>, before anything is read or stored.
\<close>

lemma rpc_request_without_id:
  assumes "root = JObj rs" and "pairs_find ''jsonrpc'' rs = Some (JStr ''2.0'')"
    and "pairs_find ''id'' rs = None \<or> (\<exists>v. pairs_find ''id'' rs = Some v \<and> json_type v \<noteq> int_type)"
    and "f \<in> {rpc_RuntimeInfo, rpc_kv_get mm, rpc_kv_put mm, rpc_kv_remove mm, rpc_file_put mm, rpc_file_get mm,
      rpc_GetObject ar mm, rpc_CreateObject H d clk ar mm}"
  shows "f root response w = (Throw Runtime_error, w)"
proof -
  have noint: "json_get_int v = Throw Runtime_error" if "json_type v \<noteq> int_type" for v
    using that by (cases v) (simp_all add: json_get_int_def)
  have cr: "createResponse (RPC_Request root) = Throw Runtime_error"
    using assms(1,3) noint
    by (auto simp: createResponse_def rq_index_def json_index_def RPC_Request_def split: option.splits)
  have bad: "\<exists>rq. rq_valid rules (RPC_Request root) = Return (False, rq) \<and> createErrorResponse rq = Throw Runtime_error" for rules
    using assms(1-3) noint
    by (auto simp: rq_valid_def rq_index_def json_index_def RPC_Request_def createErrorResponse_def createResponse_def
        json_is_null_def pairs_find_map_of split: option.splits)
  have wv: "with_valid rules root body w = (Throw Runtime_error, w)" for rules body
  proof -
    from bad [of rules] obtain rq where "rq_valid rules (RPC_Request root) = Return (False, rq)"
      and "createErrorResponse rq = Throw Runtime_error" by blast
    then show ?thesis by (simp add: with_valid_def io_simps)
  qed
  from assms(4) show ?thesis
    by (elim insertE emptyE) (simp_all add: rpc_RuntimeInfo_def rpc_kv_get_def rpc_kv_put_def rpc_kv_remove_def
        rpc_file_put_def rpc_file_get_def rpc_GetObject_def rpc_CreateObject_def wv cr io_bind_apply)
qed


section \<open>Concrete runs\<close>

text \<open>Requests to create and to fetch a note, and to put and to get a value.\<close>

definition request :: "int \<Rightarrow> (string \<times> json) list \<Rightarrow> json" where
  "request n ps = JObj [(''jsonrpc'', JStr ''2.0''), (''id'', JInt n), (''params'', JObj ps)]"

lemma request_req: "n \<noteq> 0 \<Longrightarrow> - (2 ^ 31) \<le> n \<Longrightarrow> n < 2 ^ 31 \<Longrightarrow> rpc_req (request n ps) n ps"
  by (simp add: rpc_req_def request_def)

lemma note1_created: "object_created pad64 prefix_dmp (Some 5) (new_Object\<lparr>obj_id := ''note''\<rparr>) ''ab'' ''note'' = note1"
  by (simp add: object_created_def note1_def object_revised_def object_get_def new_Object_def Let_def)

definition db_w1' :: posix where
  "db_w1' = snd (db_create_object plain_archive mm0 note1 db_w1)"

lemma db_create_again_run: "db_create_object plain_archive mm0 note1 db_w1 = (Return True, db_w1')"
  unfolding db_w1'_def by (rule outcome_run) code_simp

lemma db_create_first_run:
  "object_create_as pad64 prefix_dmp (\<lambda>_. Some 5) plain_archive mm0 (new_Object\<lparr>obj_id := ''note''\<rparr>) ''ab'' ''note'' ff_w1
   = (Return (True, note1), db_w1)"
  using db_create_run by (simp add: object_create_as_def object_created_def new_Object_def)

lemma db_head_missing_run:
  "db_get_object_head plain_archive mm0 ''note'' new_Object ff_w1 = (Return (False, new_Object\<lparr>obj_id := ''note''\<rparr>), ff_w1)"
proof -
  have "posix_nd ff_w1 (key_dir pad64 ff_st1 ''note'') = None"
    by (simp add: key_dir_def ff_st1_def ff_w1_def posix_nd_def)
  from ff_kv_get_missing [OF ff_inv_intact [OF ff_w1_inv(1)] this] show ?thesis
    by (simp add: db_get_object_head_def Let_def ffdb.get_signal io_simps)
qed

theorem rpc_object_round_trip_witness:
  "\<exists>response w'. rpc_CreateObject pad64 prefix_dmp (\<lambda>_. Some 5) plain_archive mm0
      (request 7 [(''content'', JStr (encode_base64 ''ab'')), (''id'', JStr ''note'')]) JNull ff_w1 = (Return (True, response), w')
    \<and> rpc_GetObject plain_archive mm0 (request 8 [(''id'', JStr ''note'')]) JNull w'
      = (Return (True, rpc_answer 8 [(''content'', JStr (encode_base64 ''ab''))]), w')"
proof -
  let ?root = "request 7 [(''content'', JStr (encode_base64 ''ab'')), (''id'', JStr ''note'')]"
  have req: "rpc_req ?root 7 [(''content'', JStr (encode_base64 ''ab'')), (''id'', JStr ''note'')]"
    and req2: "rpc_req (request 8 [(''id'', JStr ''note'')]) 8 [(''id'', JStr ''note'')]"
    by (simp_all add: request_req)
  have run: "rpc_CreateObject pad64 prefix_dmp (\<lambda>_. Some 5) plain_archive mm0 ?root JNull ff_w1
      = (Return (True, rpc_answer 7 [(''id'', JStr ''note'')]), db_w1')"
    unfolding rpc_CreateObject_req [OF req, of "encode_base64 ''ab''" "''note''" "''ab''", simplified decode_encode_base64, simplified]
    by (simp add: io_simps db_head_missing_run db_create_first_run db_create_again_run)
  have sto: "ff_storable pad64 posix_nd ff_st1 ff_w1 (oarchive plain_archive
      (object_created pad64 prefix_dmp (Some 5) (new_Object\<lparr>obj_id := ''note''\<rparr>) ''ab'' ''note''))"
    unfolding note1_created by (rule note_storable(1))
  from rpc_object_round_trip [OF plain_archive_spec ff_w1_inv(1) _ ff_w1_inv(2) sto req _ _ run req2]
  show ?thesis using run by simp
qed

lemma db_w1_note: "ff_vals pad64 posix_nd ff_st1 db_w1 ''note'' = {oarchive plain_archive note1}"
  using ffdb.object_create_as_stored [OF ff_w1_inv(1) _ ff_w1_inv(2) note_storable(1) db_create_run]
  by (simp add: db_stored_def)

lemma note_revised: "object_revised pad64 prefix_dmp (Some 5) ''axyz'' (object_reloaded note1 new_Object) = note2"
  by code_simp

lemma db_head_note_run:
  "db_get_object_head plain_archive mm0 ''note'' new_Object db_w1 = (Return (True, object_reloaded note1 new_Object), db_w1)"
  using ffdb.load_stored [OF plain_archive_spec, of pad64 posix_ops posix_nd ff_st1 note1 db_w1 new_Object] db_w1_inv db_w1_note
  by (simp add: db_stored_def)

theorem rpc_object_overwrite_witness:
  "\<exists>response w'. rpc_CreateObject pad64 prefix_dmp (\<lambda>_. Some 5) plain_archive mm0
      (request 7 [(''content'', JStr (encode_base64 ''axyz'')), (''id'', JStr ''note'')]) JNull db_w1 = (Return (True, response), w')
    \<and> rpc_GetObject plain_archive mm0 (request 8 [(''id'', JStr ''note'')]) JNull w'
      = (Return (True, rpc_answer 8 [(''content'', JStr (encode_base64 ''axyz''))]), w')"
proof -
  let ?ps = "[(''content'', JStr (encode_base64 ''axyz'')), (''id'', JStr ''note'')]"
  have req: "rpc_req (request 7 ?ps) 7 ?ps" and req2: "rpc_req (request 8 [(''id'', JStr ''note'')]) 8 [(''id'', JStr ''note'')]"
    by (simp_all add: request_req)
  have "db_update_object pad64 prefix_dmp (\<lambda>_. Some 5) plain_archive mm0 (object_reloaded note1 new_Object) ''axyz'' db_w1
    = (Return (True, note2), db_w2)"
    using db_update_run by (simp add: db_update_object_def note_revised note2_def [symmetric])
  then have run: "rpc_CreateObject pad64 prefix_dmp (\<lambda>_. Some 5) plain_archive mm0 (request 7 ?ps) JNull db_w1
      = (Return (True, rpc_answer 7 [(''id'', JStr ''note'')]), db_w2)"
    unfolding rpc_CreateObject_req [OF req, of "encode_base64 ''axyz''" "''note''" "''axyz''", simplified decode_encode_base64, simplified]
    by (simp add: io_simps db_head_note_run)
  have sto: "ff_storable pad64 posix_nd ff_st1 db_w1 (oarchive plain_archive
      (object_revised pad64 prefix_dmp (Some 5) ''axyz'' (object_reloaded note1 new_Object)))"
    unfolding note_revised by (rule note_storable(3))
  from rpc_object_overwrite [OF plain_archive_spec db_w1_inv _ _ note_history(1) sto req _ _ run req2]
  show ?thesis using run db_w1_note by simp
qed
theorem rpc_kv_put_get_witness:
  "\<exists>response w'. rpc_kv_put mm0 (request 7 [(''key'', JStr ''key''), (''value'', JStr (encode_base64 ''value''))]) JNull ff_w1
      = (Return (True, response), w')
    \<and> rpc_kv_get mm0 (request 8 [(''key'', JStr ''key'')]) JNull w'
      = (Return (True, rpc_answer 8 [(''content'', JStr (encode_base64 []))]), w')"
proof -
  let ?ps = "[(''key'', JStr ''key''), (''value'', JStr (encode_base64 ''value''))]"
  have req: "rpc_req (request 7 ?ps) 7 ?ps" and req2: "rpc_req (request 8 [(''key'', JStr ''key'')]) 8 [(''key'', JStr ''key'')]"
    by (simp_all add: request_req)
  obtain err where "rpc_kv_put mm0 (request 7 ?ps) JNull = io_bind (mm_kv_put mm0 ''key'' ''value'') (\<lambda>ok.
    io_return (ok, if ok then rpc_answer 7 [] else rpc_error 7 err ''kv.put failed''))"
    using rpc_kv_put_req [OF req _ _ decode_encode_base64, of "''key''" "''value''" mm0 JNull] by auto
  then have run: "rpc_kv_put mm0 (request 7 ?ps) JNull ff_w1 = (Return (True, rpc_answer 7 []), ff_w2)"
    by (simp add: io_simps ffdb.put_signal ff_put_run)
  have ne: "''key'' \<noteq> toHex (pad64 ''value'')"
  proof
    assume "''key'' = toHex (pad64 ''value'')"
    then have "length ''key'' = length (toHex (pad64 ''value''))" by (rule arg_cong)
    then show False using pad64_size by simp
  qed
  from ne show ?thesis
    using rpc_kv_put_get [OF ff_w1_inv(1) _ ff_w1_storable ff_w1_inv(2) req _ _ run req2, of "''key''" "''value''"] run
    by (simp add: key_ok_def)
qed

lemma rpc_request_without_id_instance:
  "rpc_kv_get mm0 (JObj [(''jsonrpc'', JStr ''2.0''), (''params'', JObj [(''key'', JStr ''k'')])]) JNull ff_w1
   = (Throw Runtime_error, ff_w1)"
  by (rule rpc_request_without_id [of _ "[(''jsonrpc'', JStr ''2.0''), (''params'', JObj [(''key'', JStr ''k'')])]" _ mm0
        plain_archive pad64 prefix_dmp "\<lambda>_. None"]) simp_all

end
