(* ===== verification/RpcServer.thy ===== *)
theory RpcServer
  imports Rpc
begin

text \<open>
  The RPC server, \<open>src/rpc/rpc_server.{h,cc}\<close>: connections and the handlers the I/O service calls. Each
  connection is a small automaton that reads up to a line end, processes the request and writes the
  response; the server is a step relation over the events of the network, in any order.

  Parameters: \<open>rd\<close> and \<open>wr\<close>, the JSON reader and writer, and the method table. The strand of a
  connection and the single outstanding operation make its handlers run one at a time, so a handler
  is one step. An exception a handler lets out leaves \<open>io_service::run\<close> in its pool thread and ends the
  process (\<open>std::terminate\<close>).
\<close>

section \<open>Connections\<close>

datatype conn_phase = Reading | Writing | Closed

record connection =
  cn_phase :: conn_phase
  cn_request_buf :: string
  cn_response :: string

definition new_connection :: connection where
  "new_connection = \<lparr>cn_phase = Reading, cn_request_buf = [], cn_response = []\<rparr>"

definition isspace :: "char \<Rightarrow> bool" where
  "isspace c \<longleftrightarrow> c \<in> {CHR '' '', CHR 0x09, CHR 0x0A, CHR 0x0B, CHR 0x0C, CHR 0x0D}"

text \<open>
  \<open>connection::handle_read\<close> without an error. The \<open>istream_iterator<char>\<close> skips white space and drains
  the buffer, past the line end. A connection without a pending operation is destroyed.
\<close>

definition handle_read ::
  "(string \<Rightarrow> json option) \<Rightarrow> (json \<Rightarrow> string) \<Rightarrow> 'w rpc_method list \<Rightarrow> connection \<Rightarrow> ('w, connection) io" where
  "handle_read rd wr ms c =
     (let data = filter (\<lambda>x. \<not> isspace x) (cn_request_buf c); c1 = c\<lparr>cn_request_buf := []\<rparr> in
      if data = [] then io_return (c1\<lparr>cn_phase := Closed\<rparr>)
      else io_bind (Process_msg rd ms data JNull) (\<lambda>(_, response).
        if \<not> json_is_null response
        then io_return (c1\<lparr>cn_phase := Writing, cn_response := cn_response c1 @ wr response @ ''{$}''\<rparr>)
        else io_return (c1\<lparr>cn_phase := Closed\<rparr>)))"

text \<open>\<open>connection::handle_write\<close> without an error: the written bytes are consumed, the next read starts.\<close>

definition handle_write :: "connection \<Rightarrow> connection" where
  "handle_write c = c\<lparr>cn_phase := Reading, cn_response := []\<rparr>"

definition conn_drop :: "connection \<Rightarrow> connection" where
  "conn_drop c = c\<lparr>cn_phase := Closed, cn_response := []\<rparr>"

section \<open>The server\<close>

record 'w server =
  sv_alive :: bool
  sv_world :: 'w
  sv_conns :: "connection list"

definition set_conn :: "nat \<Rightarrow> connection \<Rightarrow> 'w server \<Rightarrow> 'w server" where
  "set_conn i c s = s\<lparr>sv_conns := (sv_conns s)[i := c]\<rparr>"

text \<open>What becomes of the server when the handler of connection \<open>i\<close> has run.\<close>

definition after_handler :: "nat \<Rightarrow> connection outcome \<times> 'w \<Rightarrow> 'w server \<Rightarrow> 'w server" where
  "after_handler i r s =
     (case r of
        (Return c, w) \<Rightarrow> (set_conn i c s)\<lparr>sv_world := w\<rparr>
      | (_, w) \<Rightarrow> s\<lparr>sv_alive := False, sv_world := w\<rparr>)"

inductive sv_step ::
  "(string \<Rightarrow> json option) \<Rightarrow> (json \<Rightarrow> string) \<Rightarrow> 'w rpc_method list \<Rightarrow> 'w server \<Rightarrow> 'w server \<Rightarrow> bool"
  for rd wr ms where
  accept: "sv_alive s \<Longrightarrow> sv_step rd wr ms s (s\<lparr>sv_conns := sv_conns s @ [new_connection]\<rparr>)"
| receive: "sv_alive s \<Longrightarrow> i < length (sv_conns s) \<Longrightarrow> cn_phase (sv_conns s ! i) = Reading \<Longrightarrow>
    sv_step rd wr ms s (set_conn i ((sv_conns s ! i)\<lparr>cn_request_buf := cn_request_buf (sv_conns s ! i) @ bytes\<rparr>) s)"
| read: "sv_alive s \<Longrightarrow> i < length (sv_conns s) \<Longrightarrow> cn_phase (sv_conns s ! i) = Reading \<Longrightarrow>
    sublist [CHR 0x0D, CHR 0x0A] (cn_request_buf (sv_conns s ! i)) \<Longrightarrow>
    sv_step rd wr ms s (after_handler i (handle_read rd wr ms (sv_conns s ! i) (sv_world s)) s)"
| read_error: "sv_alive s \<Longrightarrow> i < length (sv_conns s) \<Longrightarrow> cn_phase (sv_conns s ! i) = Reading \<Longrightarrow>
    sv_step rd wr ms s (set_conn i (conn_drop (sv_conns s ! i)) s)"
| written: "sv_alive s \<Longrightarrow> i < length (sv_conns s) \<Longrightarrow> cn_phase (sv_conns s ! i) = Writing \<Longrightarrow>
    sv_step rd wr ms s (set_conn i (handle_write (sv_conns s ! i)) s)"
| write_error: "sv_alive s \<Longrightarrow> i < length (sv_conns s) \<Longrightarrow> cn_phase (sv_conns s ! i) = Writing \<Longrightarrow>
    sv_step rd wr ms s (set_conn i (conn_drop (sv_conns s ! i)) s)"

inductive_cases sv_stepE: "sv_step rd wr ms s s'"

inductive sv_reach ::
  "(string \<Rightarrow> json option) \<Rightarrow> (json \<Rightarrow> string) \<Rightarrow> 'w rpc_method list \<Rightarrow> 'w \<Rightarrow> 'w server \<Rightarrow> bool"
  for rd wr ms w0 where
  start: "sv_reach rd wr ms w0 \<lparr>sv_alive = True, sv_world = w0, sv_conns = []\<rparr>"
| step: "sv_reach rd wr ms w0 s \<Longrightarrow> sv_step rd wr ms s s' \<Longrightarrow> sv_reach rd wr ms w0 s'"

section \<open>Invariant\<close>

text \<open>The output buffer holds exactly one framed response while it is written and nothing otherwise.\<close>

definition conn_ok :: "(json \<Rightarrow> string) \<Rightarrow> connection \<Rightarrow> bool" where
  "conn_ok wr c \<longleftrightarrow>
     (case cn_phase c of
        Writing \<Rightarrow> \<exists>response. \<not> json_is_null response \<and> cn_response c = wr response @ ''{$}''
      | _ \<Rightarrow> cn_response c = [])"

lemma handle_read_ok:
  assumes "conn_ok wr c" and "cn_phase c = Reading" and "handle_read rd wr ms c w = (Return c', w')"
  shows "conn_ok wr c' \<and> cn_phase c' \<noteq> Reading"
  using assms by (auto simp: handle_read_def Let_def conn_ok_def elim!: io_bind_returnE split: if_splits)
    (auto intro!: exI)

lemma all_update: "\<forall>c \<in> set cs. P c \<Longrightarrow> P c' \<Longrightarrow> \<forall>c \<in> set (cs[i := c']). P c"
  using set_update_subset_insert [of cs i c'] by blast

lemma sv_step_ok:
  assumes "sv_step rd wr ms s s'" and ok: "\<forall>c \<in> set (sv_conns s). conn_ok wr c"
  shows "\<forall>c \<in> set (sv_conns s'). conn_ok wr c"
  using assms(1)
proof cases
  case (read i)
  let ?c = "sv_conns s ! i"
  obtain r w' where run: "handle_read rd wr ms ?c (sv_world s) = (r, w')" by fastforce
  show ?thesis
  proof (cases r)
    case (Return c')
    have "conn_ok wr ?c" using ok read(3) by simp
    from handle_read_ok [OF this read(4) run [unfolded Return]] have "conn_ok wr c'" by blast
    with all_update [OF ok] read(1) run Return show ?thesis by (simp add: after_handler_def set_conn_def)
  qed (use ok run read(1) in \<open>simp_all add: after_handler_def\<close>)
next
  case (receive i bytes)
  from ok receive(3) have "conn_ok wr (sv_conns s ! i)" by simp
  with receive(4) have "conn_ok wr ((sv_conns s ! i)\<lparr>cn_request_buf := cn_request_buf (sv_conns s ! i) @ bytes\<rparr>)"
    by (simp add: conn_ok_def)
  from all_update [OF ok this, of i] receive(1) show ?thesis by (simp add: set_conn_def)
qed (use ok in \<open>auto simp: set_conn_def conn_ok_def new_connection_def conn_drop_def handle_write_def
      dest: set_update_subset_insert [THEN subsetD]\<close>)

section \<open>Properties\<close>

text \<open>
  C32: Framing. In every reachable state of the server, whatever clients send and in whatever order
  the network events come, the output buffer of a connection holds exactly one response with its
  end mark while it is being written, and is empty otherwise: responses never mix.
\<close>

theorem rpc_framing:
  assumes "sv_reach rd wr ms w0 s"
  shows "\<forall>c \<in> set (sv_conns s). conn_ok wr c"
  using assms by induction (auto dest: sv_step_ok)

text \<open>
  C5: Any client can end the daemon. From a reachable state with the server alive, a connection that
  waits for a request and a line that is not empty and is not a well-formed request (it does not
  parse, or fails the check), the step that handles the line leaves the server dead, and a dead
  server takes no step.
\<close>

theorem rpc_malformed_kills:
  assumes "sv_alive s" and "i < length (sv_conns s)" and "cn_phase (sv_conns s ! i) = Reading"
    and "sublist [CHR 0x0D, CHR 0x0A] (cn_request_buf (sv_conns s ! i))"
    and "data = filter (\<lambda>x. \<not> isspace x) (cn_request_buf (sv_conns s ! i))" and "data \<noteq> []"
    and "rd data = None \<or> (\<exists>root. rd data = Some root \<and> json_type root \<noteq> array_type \<and> (\<nexists>method. request_ok root method))"
  shows "sv_step rd wr ms s (s\<lparr>sv_alive := False\<rparr>) \<and> (\<forall>s'. \<not> sv_step rd wr ms (s\<lparr>sv_alive := False\<rparr>) s')"
proof -
  have "Process_msg rd ms data JNull (sv_world s) = (Throw Runtime_error, sv_world s)"
    using assms(7) by (auto simp: Process_msg_def Process_bad io_simps)
  with assms(5,6) have "handle_read rd wr ms (sv_conns s ! i) (sv_world s) = (Throw Runtime_error, sv_world s)"
    by (simp add: handle_read_def Let_def io_simps)
  with sv_step.read [OF assms(1-4), of rd wr ms] have "sv_step rd wr ms s (s\<lparr>sv_alive := False\<rparr>)"
    by (simp add: after_handler_def)
  moreover have "\<not> sv_step rd wr ms (s\<lparr>sv_alive := False\<rparr>) s'" for s'
    by (auto elim: sv_stepE)
  ultimately show ?thesis by blast
qed


section \<open>Concrete runs\<close>

definition sv_line :: "'w \<Rightarrow> 'w server" where
  "sv_line w = \<lparr>sv_alive = True, sv_world = w,
     sv_conns = [\<lparr>cn_phase = Reading, cn_request_buf = [CHR ''h'', CHR ''i'', CHR 0x0D, CHR 0x0A], cn_response = []\<rparr>]\<rparr>"

lemma sv_line_reach: "sv_reach rd wr ms w (sv_line w)"
proof -
  let ?s0 = "\<lparr>sv_alive = True, sv_world = w, sv_conns = []\<rparr>" and ?s1 = "\<lparr>sv_alive = True, sv_world = w, sv_conns = [new_connection]\<rparr>"
  have "sv_step rd wr ms ?s0 ?s1" using sv_step.accept [of ?s0 rd wr ms] by simp
  moreover have "sv_step rd wr ms ?s1 (sv_line w)"
    using sv_step.receive [of ?s1 0 rd wr ms "[CHR ''h'', CHR ''i'', CHR 0x0D, CHR 0x0A]"]
    by (simp add: set_conn_def new_connection_def sv_line_def)
  ultimately show ?thesis by (blast intro: sv_reach.intros)
qed

theorem rpc_framing_witness:
  "conn_ok (\<lambda>_. ''{}'') (hd (sv_conns (sv_line ())))"
  using rpc_framing [OF sv_line_reach [of "\<lambda>_. None" "\<lambda>_. ''{}''" new_Handler "()"]]
  by (simp add: sv_line_def)

theorem rpc_malformed_kills_witness:
  "sv_step (\<lambda>_. None) (\<lambda>_. ''{}'') new_Handler (sv_line ()) ((sv_line ())\<lparr>sv_alive := False\<rparr>)"
proof -
  have "sublist [CHR 0x0D, CHR 0x0A] [CHR ''h'', CHR ''i'', CHR 0x0D, CHR 0x0A]" by code_simp
  then show ?thesis
    using rpc_malformed_kills [of "sv_line ()" 0 "''hi''" "\<lambda>_. None" "\<lambda>_. ''{}''" new_Handler]
    by (simp add: sv_line_def isspace_def)
qed

end
