(* ===== verification/ServerPool.thy ===== *)
theory ServerPool
  imports RpcServer
begin

text \<open>
  The thread pool of the RPC server: \<open>RpcServer::run\<close> (\<open>src/rpc/rpc_server.cc\<close>), called by \<open>RPCManager::run\<close> and ended
  by \<open>RPCManager::stop\<close> (\<open>src/daemon/rpc_manager.{h,cc}\<close>). The function creates its threads, each of which runs the
  I/O service, and joins them in order; a step relation interleaves it with the threads and with the
  completions that arrive from outside.

  The I/O service is not part of the repository. It is the parameter \<open>io\<close>; \<open>io_spec\<close> is what its documentation
  says: after \<open>stop\<close>, a thread in \<open>run\<close> finishes the handler it is in (handlers end) and leaves, and it never
  waits for anything else; a thread that has left stays away. \<open>rank\<close> counts the steps that are left.
\<close>

record 's io_service =
  io_run :: "'s \<Rightarrow> nat \<Rightarrow> 's \<Rightarrow> bool" \<comment> \<open>a thread makes a step inside \<open>io_service::run\<close>\<close>
  io_completion :: "'s \<Rightarrow> 's \<Rightarrow> bool" \<comment> \<open>an operation completes\<close>
  io_exited :: "'s \<Rightarrow> nat \<Rightarrow> bool" \<comment> \<open>\<open>run\<close> has returned in that thread\<close>
  io_stop :: "'s \<Rightarrow> 's"
  io_stopped :: "'s \<Rightarrow> bool"

definition io_spec :: "'s io_service \<Rightarrow> ('s \<Rightarrow> nat) \<Rightarrow> bool" where
  "io_spec io rank \<longleftrightarrow>
     (\<forall>s. io_stopped io (io_stop io s) \<and> (\<forall>j. io_exited io s j \<longrightarrow> io_exited io (io_stop io s) j))
   \<and> (\<forall>s i s'. io_run io s i s' \<longrightarrow> (\<forall>j. io_exited io s j \<longrightarrow> io_exited io s' j) \<and> (io_stopped io s \<longrightarrow> io_stopped io s' \<and> rank s' < rank s))
   \<and> (\<forall>s s'. io_completion io s s' \<longrightarrow> (\<forall>j. io_exited io s j \<longrightarrow> io_exited io s' j) \<and> (io_stopped io s \<longrightarrow> io_stopped io s' \<and> rank s' \<le> rank s))
   \<and> (\<forall>s i. io_stopped io s \<longrightarrow> \<not> io_exited io s i \<longrightarrow> (\<exists>s'. io_run io s i s'))"

lemma io_specD:
  assumes "io_spec io rank"
  shows "io_stopped io (io_stop io s)" and "io_exited io s j \<Longrightarrow> io_exited io (io_stop io s) j"
    and "io_run io s i s' \<Longrightarrow> io_exited io s j \<Longrightarrow> io_exited io s' j"
    and "io_run io s i s' \<Longrightarrow> io_stopped io s \<Longrightarrow> io_stopped io s' \<and> rank s' < rank s"
    and "io_completion io s s' \<Longrightarrow> io_exited io s j \<Longrightarrow> io_exited io s' j"
    and "io_completion io s s' \<Longrightarrow> io_stopped io s \<Longrightarrow> io_stopped io s' \<and> rank s' \<le> rank s"
    and "io_stopped io s \<Longrightarrow> \<not> io_exited io s i \<Longrightarrow> \<exists>s'. io_run io s i s'"
  using assms unfolding io_spec_def by blast+

section \<open>RpcServer::run\<close>

text \<open>The two loops of the function; creating a thread may throw, which leaves it.\<close>

datatype pool_phase = Creating | Joining nat | Returned | Threw

record 's pool =
  pl_service :: 's
  pl_threads :: nat
  pl_phase :: pool_phase

datatype pool_event = Create | Create_fails | All_created | Join | All_joined | Serve nat | Completion | Stop

definition pool_start :: "'s \<Rightarrow> 's pool" where
  "pool_start s = \<lparr>pl_service = s, pl_threads = 0, pl_phase = Creating\<rparr>"

text \<open>\<open>RPCManager::stop\<close>\<close>

definition manager_stop :: "'s io_service \<Rightarrow> 's pool \<Rightarrow> 's pool" where
  "manager_stop io p = p\<lparr>pl_service := io_stop io (pl_service p)\<rparr>"

inductive pool_step :: "'s io_service \<Rightarrow> nat \<Rightarrow> 's pool \<Rightarrow> pool_event \<Rightarrow> 's pool \<Rightarrow> bool" for io thread_pool_size where
  create: "pl_phase p = Creating \<Longrightarrow> pl_threads p < thread_pool_size \<Longrightarrow>
    pool_step io thread_pool_size p Create (p\<lparr>pl_threads := Suc (pl_threads p)\<rparr>)"
| create_fails: "pl_phase p = Creating \<Longrightarrow> pl_threads p < thread_pool_size \<Longrightarrow>
    pool_step io thread_pool_size p Create_fails (p\<lparr>pl_phase := Threw\<rparr>)"
| all_created: "pl_phase p = Creating \<Longrightarrow> \<not> pl_threads p < thread_pool_size \<Longrightarrow>
    pool_step io thread_pool_size p All_created (p\<lparr>pl_phase := Joining 0\<rparr>)"
| join: "pl_phase p = Joining i \<Longrightarrow> i < pl_threads p \<Longrightarrow> io_exited io (pl_service p) i \<Longrightarrow>
    pool_step io thread_pool_size p Join (p\<lparr>pl_phase := Joining (Suc i)\<rparr>)"
| all_joined: "pl_phase p = Joining i \<Longrightarrow> \<not> i < pl_threads p \<Longrightarrow>
    pool_step io thread_pool_size p All_joined (p\<lparr>pl_phase := Returned\<rparr>)"
| serve: "i < pl_threads p \<Longrightarrow> io_run io (pl_service p) i s' \<Longrightarrow>
    pool_step io thread_pool_size p (Serve i) (p\<lparr>pl_service := s'\<rparr>)"
| completion: "io_completion io (pl_service p) s' \<Longrightarrow>
    pool_step io thread_pool_size p Completion (p\<lparr>pl_service := s'\<rparr>)"
| stop: "pool_step io thread_pool_size p Stop (manager_stop io p)"

inductive_cases pool_stepE: "pool_step io n p e p'"

inductive pool_trace :: "'s io_service \<Rightarrow> nat \<Rightarrow> 's pool \<Rightarrow> pool_event list \<Rightarrow> 's pool \<Rightarrow> bool" for io n where
  trace_nil: "pool_trace io n p [] p"
| trace_snoc: "pool_trace io n p es p' \<Longrightarrow> pool_step io n p' e p'' \<Longrightarrow> pool_trace io n p (es @ [e]) p''"

text \<open>\<open>RPCManager::run\<close> returns when the function has returned, and when creating a thread threw: it catches that.\<close>

definition run_finished :: "'s pool \<Rightarrow> bool" where
  "run_finished p \<longleftrightarrow> pl_phase p = Returned \<or> pl_phase p = Threw"

text \<open>The steps of the server's own threads, as opposed to what happens to it from outside.\<close>

definition own_event :: "pool_event \<Rightarrow> bool" where
  "own_event e \<longleftrightarrow> e \<noteq> Completion \<and> e \<noteq> Stop"

section \<open>Invariant, measure and progress\<close>

definition pool_ok :: "'s io_service \<Rightarrow> nat \<Rightarrow> 's pool \<Rightarrow> bool" where
  "pool_ok io n p \<longleftrightarrow> pl_threads p \<le> n \<and> (case pl_phase p of
      Joining i \<Rightarrow> pl_threads p = n \<and> i \<le> n \<and> (\<forall>j < i. io_exited io (pl_service p) j)
    | Returned \<Rightarrow> pl_threads p = n \<and> (\<forall>j < n. io_exited io (pl_service p) j)
    | _ \<Rightarrow> True)"

lemma pool_ok_step:
  assumes "io_spec io rank" and "pool_step io n p e p'" and "pool_ok io n p"
  shows "pool_ok io n p'"
  using assms(2,3)
  by cases (auto simp: pool_ok_def manager_stop_def less_Suc_eq split: pool_phase.splits
      intro: io_specD(2) [OF assms(1)] io_specD(3) [OF assms(1)] io_specD(5) [OF assms(1)])

lemma pool_ok_trace: "pool_trace io n p es p' \<Longrightarrow> io_spec io rank \<Longrightarrow> pool_ok io n p \<Longrightarrow> pool_ok io n p'"
  by (induction rule: pool_trace.induct) (auto intro: pool_ok_step)

definition pool_rank :: "('s \<Rightarrow> nat) \<Rightarrow> nat \<Rightarrow> 's pool \<Rightarrow> nat" where
  "pool_rank rank n p = rank (pl_service p) + (case pl_phase p of
      Creating \<Rightarrow> (n - pl_threads p) + n + 2 | Joining i \<Rightarrow> n - i + 1 | Returned \<Rightarrow> 0 | Threw \<Rightarrow> 0)"

text \<open>After a stop every own step decreases the measure; further calls of \<open>stop\<close> are left out.\<close>

lemma pool_rank_step:
  assumes "io_spec io rank" and "pool_step io n p e p'" and "pool_ok io n p" and "io_stopped io (pl_service p)" and "e \<noteq> Stop"
  shows "io_stopped io (pl_service p')" and "pool_rank rank n p' + (if own_event e then 1 else 0) \<le> pool_rank rank n p"
proof -
  have "io_stopped io (pl_service p') \<and> pool_rank rank n p' + (if own_event e then 1 else 0) \<le> pool_rank rank n p"
    using assms(2)
  proof cases
    case (serve i s')
    with io_specD(4) [OF assms(1) serve(4) assms(4)] show ?thesis by (simp add: pool_rank_def own_event_def split: pool_phase.split)
  next
    case (completion s')
    with io_specD(6) [OF assms(1) completion(3) assms(4)] show ?thesis by (simp add: pool_rank_def own_event_def split: pool_phase.split)
  qed (use assms(3-5) in \<open>auto simp: pool_ok_def pool_rank_def own_event_def\<close>)
  then show "io_stopped io (pl_service p')" and "pool_rank rank n p' + (if own_event e then 1 else 0) \<le> pool_rank rank n p" by auto
qed

lemma pool_rank_trace:
  assumes "io_spec io rank"
  shows "pool_trace io n p es p' \<Longrightarrow> pool_ok io n p \<Longrightarrow> io_stopped io (pl_service p) \<Longrightarrow> Stop \<notin> set es \<Longrightarrow>
    io_stopped io (pl_service p') \<and> pool_rank rank n p' + length (filter own_event es) \<le> pool_rank rank n p"
proof (induction rule: pool_trace.induct)
  case (trace_snoc p es p' e p'')
  then have IH: "io_stopped io (pl_service p')" "pool_rank rank n p' + length (filter own_event es) \<le> pool_rank rank n p" by auto
  have "pool_ok io n p'" using pool_ok_trace [OF trace_snoc.hyps(1) assms] trace_snoc.prems by simp
  from pool_rank_step [OF assms trace_snoc.hyps(2) this IH(1)] trace_snoc.prems IH(2) show ?case by (auto split: if_splits)
qed simp

lemma pool_progress:
  assumes "io_spec io rank" and "pool_ok io n p" and "io_stopped io (pl_service p)" and "\<not> run_finished p"
  shows "\<exists>e p'. own_event e \<and> pool_step io n p e p'"
proof (cases "pl_phase p")
  case Creating
  then show ?thesis by (cases "pl_threads p < n") (auto simp: own_event_def intro: pool_step.create pool_step.all_created)
next
  case (Joining i)
  show ?thesis
  proof (cases "i < pl_threads p \<and> \<not> io_exited io (pl_service p) i")
    case True
    with io_specD(7) [OF assms(1,3)] obtain s' where "io_run io (pl_service p) i s'" by blast
    with True have "pool_step io n p (Serve i) (p\<lparr>pl_service := s'\<rparr>)" by (intro pool_step.serve) simp_all
    then show ?thesis by (auto simp: own_event_def)
  next
    case False
    then show ?thesis using Joining
      by (cases "i < pl_threads p") (auto simp: own_event_def intro: pool_step.join pool_step.all_joined)
  qed
qed (use assms(4) in \<open>simp_all add: run_finished_def\<close>)

text \<open>
  C22: The server's \<open>run\<close> terminates after \<open>stop\<close>. From any state it can be in when \<open>RPCManager::stop\<close> is called, and
  whatever completes meanwhile, its threads make at most as many further steps as the I/O service needs to
  run out plus two for each thread of the pool plus two; until \<open>run\<close> has finished some step of its own is
  possible; and when it has returned every thread of the pool has left the I/O service.
\<close>

theorem rpc_run_terminates:
  assumes "io_spec io rank" and "pool_trace io n (pool_start s0) es p" and "pool_trace io n (manager_stop io p) es' p'" and "Stop \<notin> set es'"
  shows "length (filter own_event es') \<le> rank (io_stop io (pl_service p)) + 2 * n + 2
    \<and> (run_finished p' \<or> (\<exists>e p''. own_event e \<and> pool_step io n p' e p''))
    \<and> (pl_phase p' = Returned \<longrightarrow> (\<forall>j < n. io_exited io (pl_service p') j))"
proof (intro conjI)
  have "pool_ok io n (pool_start s0)" by (simp add: pool_ok_def pool_start_def)
  from pool_ok_step [OF assms(1) pool_step.stop pool_ok_trace [OF assms(2,1) this]] have ok: "pool_ok io n (manager_stop io p)" .
  have stopped: "io_stopped io (pl_service (manager_stop io p))" using io_specD(1) [OF assms(1)] by (simp add: manager_stop_def)
  note run = pool_rank_trace [OF assms(1,3) ok stopped assms(4)] and ok' = pool_ok_trace [OF assms(3,1) ok]
  have "pool_rank rank n (manager_stop io p) \<le> rank (io_stop io (pl_service p)) + 2 * n + 2"
    using ok by (auto simp: pool_rank_def manager_stop_def pool_ok_def split: pool_phase.splits)
  with run show "length (filter own_event es') \<le> rank (io_stop io (pl_service p)) + 2 * n + 2" by simp
  show "run_finished p' \<or> (\<exists>e p''. own_event e \<and> pool_step io n p' e p'')"
    using pool_progress [OF assms(1) ok'] run by blast
  show "pl_phase p' = Returned \<longrightarrow> (\<forall>j < n. io_exited io (pl_service p') j)" using ok' by (auto simp: pool_ok_def)
qed

section \<open>A concrete service\<close>

text \<open>Each thread has a number of steps to go before it leaves, and takes them once the service is stopped.\<close>

definition demo_io :: "(bool \<times> nat list) io_service" where
  "demo_io = \<lparr>io_run = (\<lambda>(b, ks) i s'. b \<and> i < length ks \<and> 0 < ks ! i \<and> s' = (b, ks[i := ks ! i - 1])),
     io_completion = (\<lambda>s s'. s' = s), io_exited = (\<lambda>(b, ks) i. i < length ks \<longrightarrow> ks ! i = 0),
     io_stop = (\<lambda>(b, ks). (True, ks)), io_stopped = fst\<rparr>"

lemma sum_list_decrease: "i < length ks \<Longrightarrow> 0 < ks ! i \<Longrightarrow> sum_list (ks[i := ks ! i - Suc 0]) < sum_list (ks :: nat list)"
proof (induction ks arbitrary: i)
  case (Cons k ks)
  then show ?case by (cases i) auto
qed simp

lemma demo_io_spec: "io_spec demo_io (sum_list \<circ> snd)"
  by (auto simp: io_spec_def demo_io_def nth_list_update sum_list_decrease)

theorem rpc_run_terminates_witness:
  "\<exists>p'. pool_trace demo_io 1 (manager_stop demo_io (pool_start (False, [1]))) [Create, All_created, Serve 0, Join, All_joined] p'
    \<and> run_finished p' \<and> (\<forall>j < 1. io_exited demo_io (pl_service p') j)"
proof -
  let ?p = "pool_start (False, [1 :: nat])"
  let ?q = "\<lambda>k t ph. \<lparr>pl_service = (True, [k :: nat]), pl_threads = t, pl_phase = ph\<rparr>"
  let ?es = "[Create, All_created, Serve 0, Join, All_joined]"
  have start: "manager_stop demo_io ?p = ?q 1 0 Creating" by (simp add: manager_stop_def pool_start_def demo_io_def)
  have "pool_step demo_io 1 (?q 1 0 Creating) Create (?q 1 1 Creating)" using pool_step.create [of "?q 1 0 Creating" 1 demo_io] by simp
  moreover have "pool_step demo_io 1 (?q 1 1 Creating) All_created (?q 1 1 (Joining 0))" using pool_step.all_created [of "?q 1 1 Creating" 1 demo_io] by simp
  moreover have "pool_step demo_io 1 (?q 1 1 (Joining 0)) (Serve 0) (?q 0 1 (Joining 0))"
    using pool_step.serve [of 0 "?q 1 1 (Joining 0)" demo_io "(True, [0])" 1] by (simp add: demo_io_def)
  moreover have "pool_step demo_io 1 (?q 0 1 (Joining 0)) Join (?q 0 1 (Joining 1))"
    using pool_step.join [of "?q 0 1 (Joining 0)" 0 demo_io 1] by (simp add: demo_io_def)
  moreover have "pool_step demo_io 1 (?q 0 1 (Joining 1)) All_joined (?q 0 1 Returned)" using pool_step.all_joined [of "?q 0 1 (Joining 1)" 1 demo_io 1] by simp
  ultimately have trace: "pool_trace demo_io 1 (manager_stop demo_io ?p) ?es (?q 0 1 Returned)"
    unfolding start using pool_trace.trace_snoc [OF pool_trace.trace_snoc [OF pool_trace.trace_snoc [OF pool_trace.trace_snoc [OF
      pool_trace.trace_snoc [OF pool_trace.trace_nil]]]]] by fastforce
  from rpc_run_terminates [OF demo_io_spec pool_trace.trace_nil trace] trace show ?thesis
    by (intro exI [of _ "?q 0 1 Returned"]) (simp add: run_finished_def)
qed

end
