(* ===== verification/Blockstore.thy ===== *)
theory Blockstore
  imports Modules LruCache
begin

text \<open>
  The block store plugin, \<open>src/modules/localstorage/blockstore/blockstore.{h,cc}\<close>: it serves the
  module manager's file and block signals. A file is stored below \<open>_unique_dir\<close> under the path of its
  hash, as a header: its size and either its bytes or the ids of its blocks, which are files of the
  same directory. A file is read back into a public file below \<open>_pub_dir\<close>, through an LRU cache that
  deletes the public file of an entry it drops. Keys and values are kept as blocks (when the key is the
  value's hash) or as files in a directory per key below \<open>_mid_dir\<close>.

  Parameters: \<open>H\<close> (SHA-512), \<open>fs\<close> (the file system) and \<open>ovr\<close>: the code takes character buffers that
  have no terminator for C strings, so it reads on behind them; \<open>ovr\<close> gives, per block, the bytes
  that happen to lie there. Reading an indeterminate value is stuck. The destructor of a public file
  ignores the answer of \<open>fs::remove\<close>; an exception from it is not followed.
\<close>

section \<open>State\<close>

record public_file =
  pf_path :: string
  pf_good :: bool

record blockstore =
  bs_path :: string
  bs_pub_dir :: string
  bs_mid_dir :: string
  bs_unique_dir :: string
  bs_data_dir :: string
  bs_blocksize :: nat
  bs_block_cache :: "(string, block) lru_cache option"
  bs_pubfile_cache :: "(string, public_file) lru_cache option"

text \<open>\<open>#define HASH_SIZE 128\<close>: the length of a rendered digest.\<close>

definition HASH_SIZE :: nat where
  "HASH_SIZE = 128"

text \<open>\<open>public_file::~public_file\<close>\<close>

definition pf_destroy :: "'w fs_ops \<Rightarrow> public_file \<Rightarrow> 'w \<Rightarrow> 'w" where
  "pf_destroy fs pf w = snd (fs_remove fs (pf_path pf) w)"

text \<open>An operation on the file system alone, for a plugin that has state of its own.\<close>

definition lift_fs :: "('w, 'a) io \<Rightarrow> ('s \<times> 'w, 'a) io" where
  "lift_fs m = (\<lambda>(s, w). case m w of (r, w') \<Rightarrow> (r, (s, w')))"

section \<open>Helpers of the language\<close>

text \<open>\<open>std::string(const char*)\<close> and \<open>strlen\<close> on a buffer: up to the first zero byte, here or behind it.\<close>

definition c_str :: "string \<Rightarrow> string \<Rightarrow> string" where
  "c_str behind buf = takeWhile (\<lambda>c. c \<noteq> CHR 0x00) (buf @ behind)"

text \<open>The object representation of a \<open>uint\<close>: four bytes, least significant first.\<close>

fun le_bytes :: "nat \<Rightarrow> nat \<Rightarrow> string" where
  "le_bytes 0 n = []"
| "le_bytes (Suc k) n = char_of (n mod 256) # le_bytes k (n div 256)"

fun le_value :: "string \<Rightarrow> nat" where
  "le_value [] = 0"
| "le_value (c # cs) = of_char c + 256 * le_value cs"

text \<open>Subtraction at \<open>size_t\<close> and at \<open>uint\<close>, and \<open>abs\<close> of a \<open>uint\<close> passed as \<open>int\<close>.\<close>

definition size_t_minus :: "nat \<Rightarrow> nat \<Rightarrow> nat" where
  "size_t_minus a b = (a + 2 ^ 64 - b mod 2 ^ 64) mod 2 ^ 64"

definition uint_minus :: "nat \<Rightarrow> nat \<Rightarrow> nat" where
  "uint_minus a b = (a + 2 ^ 32 - b mod 2 ^ 32) mod 2 ^ 32"

definition abs_uint :: "nat \<Rightarrow> nat" where
  "abs_uint x = (if x < 2 ^ 31 then x else 2 ^ 32 - x)"

text \<open>\<open>crypto::HashFile\<close>: empty when the file cannot be read.\<close>

definition HashFile :: "(string \<Rightarrow> string) \<Rightarrow> 'w fs_ops \<Rightarrow> string \<Rightarrow> 'w \<Rightarrow> string" where
  "HashFile H fs path w = (case fs_read fs path w of None \<Rightarrow> [] | Some bytes \<Rightarrow> H bytes)"

section \<open>Start\<close>

text \<open>
  \<open>ptree::get\<close> with a default, for integers: the default also stands in for a text that the stream
  translator \<open>tr\<close> cannot convert.
\<close>

definition ptree_get_int :: "(string \<Rightarrow> int option) \<Rightarrow> (string \<rightharpoonup> string) \<Rightarrow> string \<Rightarrow> int \<Rightarrow> int" where
  "ptree_get_int tr cfg key dflt =
     (case cfg key of None \<Rightarrow> dflt | Some s \<Rightarrow> (case tr s of None \<Rightarrow> dflt | Some i \<Rightarrow> i))"

definition ptree_get_str :: "(string \<rightharpoonup> string) \<Rightarrow> string \<Rightarrow> string \<Rightarrow> string" where
  "ptree_get_str cfg key dflt = (case cfg key of None \<Rightarrow> dflt | Some s \<Rightarrow> s)"

text \<open>
  The last three assignments of \<open>initialise\<close>. The product is computed at \<open>int\<close>, where it must not
  overflow; the sizes are converted to \<open>uint\<close> and \<open>size_t\<close>.
\<close>

definition bs_make_caches ::
  "(string \<Rightarrow> int option) \<Rightarrow> (string \<rightharpoonup> string) \<Rightarrow> blockstore \<Rightarrow> blockstore outcome" where
  "bs_make_caches tr cfg st =
     (let kb = ptree_get_int tr cfg ''blocksize'' 128 in
      if \<not> (- (2 ^ 31) \<le> kb * 1024 \<and> kb * 1024 < 2 ^ 31) then Stuck
      else
      let st1 = st\<lparr>bs_blocksize := nat (kb * 1024 mod 2 ^ 32)\<rparr> in
      out_bind (lru_new (nat (ptree_get_int tr cfg ''block_cache_size'' 512 mod 2 ^ 64))) (\<lambda>bc.
      let st2 = st1\<lparr>bs_block_cache := Some bc\<rparr> in
      out_bind (lru_new (nat (ptree_get_int tr cfg ''file_cache_size'' 16 mod 2 ^ 64))) (\<lambda>fc.
      Return (st2\<lparr>bs_pubfile_cache := Some fc\<rparr>))))"

text \<open>\<open>Blockstore::initialise\<close> after the \<open>connect\<close> calls; \<open>None\<close> is a failed \<open>get_config\<close>.\<close>

definition bs_initialise ::
  "'w fs_ops \<Rightarrow> (string \<Rightarrow> int option) \<Rightarrow> string \<Rightarrow> (string \<rightharpoonup> string) option \<Rightarrow> blockstore \<Rightarrow>
   ('w, bool \<times> blockstore) io" where
  "bs_initialise fs tr datadir config st =
     (case config of
        None \<Rightarrow> io_return (False, st)
      | Some cfg \<Rightarrow>
      let st1 = st\<lparr>bs_path := datadir @ ''/blockstore''\<rparr> in
      io_bind (require_directory fs (bs_path st1)) (\<lambda>ok1.
      if \<not> ok1 then io_return (False, st1)
      else
      let st2 = st1\<lparr>bs_path := bs_path st1 @ ''/''\<rparr>;
          st3 = st2\<lparr>bs_pub_dir := ptree_get_str cfg ''publicdir'' (bs_path st2 @ ''public'')\<rparr> in
      io_bind (require_directory fs (bs_pub_dir st3)) (\<lambda>ok2.
      if \<not> ok2 then io_return (False, st3)
      else
      let st4 = st3\<lparr>bs_pub_dir := bs_pub_dir st3 @ ''/''\<rparr>;
          st5 = st4\<lparr>bs_data_dir := ptree_get_str cfg ''datadir'' (bs_path st4 @ ''data'')\<rparr> in
      io_bind (require_directory fs (bs_data_dir st5)) (\<lambda>ok3.
      if \<not> ok3 then io_return (False, st5)
      else
      let st6 = st5\<lparr>bs_data_dir := bs_data_dir st5 @ ''/''\<rparr>;
          st7 = st6\<lparr>bs_mid_dir := bs_data_dir st6 @ ''mid'', bs_unique_dir := bs_data_dir st6 @ ''unique''\<rparr> in
      io_bind (require_directory fs (bs_unique_dir st7)) (\<lambda>ok4.
      if \<not> ok4 then io_return (False, st7)
      else
      io_bind (require_directory fs (bs_mid_dir st7)) (\<lambda>ok5.
      if \<not> ok5 then io_return (False, st7)
      else
      let st8 = st7\<lparr>bs_unique_dir := bs_unique_dir st7 @ ''/'', bs_mid_dir := bs_mid_dir st7 @ ''/''\<rparr> in
      io_bind (io_of (bs_make_caches tr cfg st8)) (\<lambda>st9. io_return (True, st9))))))))"

section \<open>Blocks\<close>

definition bs_load_block :: "'w fs_ops \<Rightarrow> blockstore \<Rightarrow> string \<Rightarrow> ('w, block) io" where
  "bs_load_block fs st bid =
     io_catch
       (io_bind (io_of (hash_to_path bid)) (\<lambda>hp w.
          case fs_read fs (bs_unique_dir st @ hp) w of
            None \<Rightarrow> (Throw File_not_found, w)
          | Some bytes \<Rightarrow> (Return \<lparr>blk_data = bytes, blk_size = length bytes mod 2 ^ 32\<rparr>, w)))
       (\<lambda>e. if e = Filesystem_error then Some (io_throw File_not_found) else None)"

definition bs_get_block :: "'w fs_ops \<Rightarrow> blockstore \<Rightarrow> string \<Rightarrow> block option \<Rightarrow> ('w, bool \<times> block option) io" where
  "bs_get_block fs st i res =
     io_catch (io_bind (bs_load_block fs st i) (\<lambda>b. io_return (True, Some b)))
       (\<lambda>e. Some (io_return (False, res)))"

definition bs_store_block :: "(string \<Rightarrow> string) \<Rightarrow> 'w fs_ops \<Rightarrow> blockstore \<Rightarrow> string \<Rightarrow> ('w, bool) io" where
  "bs_store_block H fs st cont =
     (let hash = toHex (H cont) in
      io_bind (io_of (hash_to_path hash)) (\<lambda>hp.
      let file = bs_unique_dir st @ hp in
      io_bind (require_directories fs (remove_filename file)) (\<lambda>ok.
      if \<not> ok then io_return False
      else (\<lambda>w. case fs_open_write fs file w of
                (False, w1) \<Rightarrow> (Return False, w1)
              | (True, w1) \<Rightarrow> (Return True, fs_append fs file cont w1)))))"

section \<open>Files\<close>

text \<open>
  The loop of \<open>store_file\<close> over the blocks of the input (\<open>rest\<close> is what the stream has left). A read
  that meets the end of the file sets \<open>eof\<close>; then the last block is hashed with its length, all
  others as C strings. The file is not changed while it is stored: a last block of another length
  than the file size says would be padded with old bytes of the buffer, which is stuck here.
\<close>

function bs_store_blocks ::
  "(string \<Rightarrow> string) \<Rightarrow> 'w fs_ops \<Rightarrow> (nat \<Rightarrow> string) \<Rightarrow> blockstore \<Rightarrow> string \<Rightarrow> nat \<Rightarrow> nat \<Rightarrow> nat \<Rightarrow> string \<Rightarrow>
   ('w, bool) io" where
  "bs_store_blocks H fs ovr st header filesize blocks blockc rest =
     (let bsize = bs_blocksize st; chunk = take bsize rest; eof = length rest < bsize;
          readbytes = (if eof then abs_uint (uint_minus filesize ((blockc - 1) * bsize)) else bsize) in
      if eof \<and> readbytes \<noteq> length chunk then io_stuck
      else
      let hash = (if eof then H (take readbytes chunk) else H (c_str (ovr blockc) chunk)) in
      io_bind (io_of (hash_to_path (toHex hash))) (\<lambda>block_path.
      let file = bs_unique_dir st @ block_path in
      io_bind (require_directories fs (remove_filename file)) (\<lambda>ok.
      if \<not> ok then io_return False
      else (\<lambda>w. case fs_open_write fs file w of
                (False, w1) \<Rightarrow> (Return False, w1)
              | (True, w1) \<Rightarrow>
                  let w2 = fs_append fs file (take readbytes chunk) w1;
                      w3 = fs_append fs header (take HASH_SIZE (toHex hash)) w2 in
                  if blockc < blocks
                  then bs_store_blocks H fs ovr st header filesize blocks (Suc blockc) (drop bsize rest) w3
                  else (Return True, w3)))))"
  by pat_completeness auto

termination
  by (relation "measure (\<lambda>(H, fs, ovr, st, header, filesize, blocks, blockc, rest). blocks - blockc)") auto

declare bs_store_blocks.simps [simp del]

definition bs_store_file ::
  "(string \<Rightarrow> string) \<Rightarrow> 'w fs_ops \<Rightarrow> (nat \<Rightarrow> string) \<Rightarrow> blockstore \<Rightarrow> string \<Rightarrow> string \<Rightarrow> ('w, bool \<times> string) io" where
  "bs_store_file H fs ovr st path res w =
     (let hash = toHex (HashFile H fs path w) in
      if hash = [] then (Return (False, res), w)
      else
      io_bind (io_of (hash_to_path hash)) (\<lambda>hp.
      io_catch
        (io_bind (fs_file_size fs path) (\<lambda>n.
         let filesize = n mod 2 ^ 32 in
         if bs_blocksize st = 0 then io_stuck
         else
         let blocks = filesize div bs_blocksize st + 1; header = bs_unique_dir st @ hp in
         (\<lambda>w. if fs_exists fs header w then (Return (True, hash), w)
              else io_bind (require_directories fs (remove_filename header)) (\<lambda>ok.
                   if \<not> ok then io_return (False, res)
                   else (\<lambda>w. case fs_open_write fs header w of
                       (False, w1) \<Rightarrow> (Return (False, res), w1)
                     | (True, w1) \<Rightarrow>
                         let w2 = fs_append fs header (le_bytes 4 filesize) w1 in
                         case fs_read fs path w2 of
                           None \<Rightarrow> (Return (False, res), w2)
                         | Some input \<Rightarrow>
                             if filesize \<le> bs_blocksize st
                             then (Return (True, hash), fs_append fs header input w2)
                             else io_bind (bs_store_blocks H fs ovr st header filesize blocks 1 input)
                                    (\<lambda>ok. io_return (if ok then (True, hash) else (False, res))) w2)) w)))
        (\<lambda>e. if e = Filesystem_error then Some (io_return (False, res)) else None)) w)"

text \<open>
  The loop of \<open>load_file\<close> over the block ids of the header (\<open>rest\<close> is what the stream has left; a read
  of fewer than \<open>HASH_SIZE\<close> bytes sets \<open>eof\<close> and ends the loop). \<open>ok\<close> is the state of the output
  stream: inserting a stream buffer that yields nothing sets its fail bit, after which nothing is
  written. The result is a public file to return at once, or \<open>None\<close> at the end of the loop.
\<close>

function bs_load_blocks ::
  "'w fs_ops \<Rightarrow> (nat \<Rightarrow> string) \<Rightarrow> blockstore \<Rightarrow> string \<Rightarrow> bool \<Rightarrow> nat \<Rightarrow> string \<Rightarrow> ('w, public_file option) io" where
  "bs_load_blocks fs ovr st out ok i rest =
     (if length rest < HASH_SIZE then io_return None
      else
      let bid = take HASH_SIZE rest in
      io_bind (io_of (hash_to_path bid)) (\<lambda>newifile.
      if length (c_str (ovr i) bid) < HASH_SIZE then io_throw File_not_found
      else (\<lambda>w. case fs_read fs (bs_unique_dir st @ newifile) w of
                None \<Rightarrow> (Return (Some \<lparr>pf_path = [], pf_good = False\<rparr>), w)
              | Some bytes \<Rightarrow>
                  bs_load_blocks fs ovr st out (ok \<and> bytes \<noteq> []) (Suc i) (drop HASH_SIZE rest)
                    (if ok then fs_append fs out bytes w else w))))"
  by pat_completeness auto

termination
  by (relation "measure (\<lambda>(fs, ovr, st, out, ok, i, rest). length rest)") (auto simp: HASH_SIZE_def)

declare bs_load_blocks.simps [simp del]

text \<open>
  \<open>load_file\<close>. The test \<open>isfinite\<close> on an integer holds for every value, so its branch is never taken.
\<close>

definition bs_load_file :: "'w fs_ops \<Rightarrow> (nat \<Rightarrow> string) \<Rightarrow> blockstore \<Rightarrow> string \<Rightarrow> ('w, public_file) io" where
  "bs_load_file fs ovr st fid =
     io_catch
       (io_bind (io_of (hash_to_path fid)) (\<lambda>hp w.
          case fs_read fs (bs_unique_dir st @ hp) w of
            None \<Rightarrow> (Throw File_not_found, w)
          | Some header \<Rightarrow>
              let out = bs_pub_dir st @ fid in
              (case fs_open_write fs out w of
                 (False, w1) \<Rightarrow> (Throw File_not_found, w1)
               | (True, w1) \<Rightarrow>
                   if length header < 4 then (Stuck, w1)
                   else
                   let filesize = le_value (take 4 header); rest = drop 4 header;
                       good = \<lparr>pf_path = out, pf_good = True\<rparr> in
                   if filesize \<le> size_t_minus (bs_blocksize st) 4 then
                     (if bs_blocksize st < filesize \<or> length rest < filesize then (Stuck, w1)
                      else (Return good, fs_append fs out (take filesize rest) w1))
                   else io_bind (bs_load_blocks fs ovr st out True 0 rest)
                          (\<lambda>r. case r of Some pf \<Rightarrow> io_return pf | None \<Rightarrow> io_return good) w1)))
       (\<lambda>e. if e = Filesystem_error then Some (io_return \<lparr>pf_path = [], pf_good = False\<rparr>) else None)"

definition bs_get_file ::
  "'w fs_ops \<Rightarrow> (nat \<Rightarrow> string) \<Rightarrow> string \<Rightarrow> string \<Rightarrow> (blockstore \<times> 'w, bool \<times> string) io" where
  "bs_get_file fs ovr i res = (\<lambda>(st, w).
     case bs_pubfile_cache st of
       None \<Rightarrow> (Stuck, (st, w))
     | Some c \<Rightarrow>
         (case lru_call (bs_load_file fs ovr st) (pf_destroy fs) i c w of
            (r, c', w') \<Rightarrow>
              let st' = st\<lparr>bs_pubfile_cache := Some c'\<rparr> in
              ((case r of
                  Return pf \<Rightarrow> if \<not> pf_good pf then Return (False, res) else Return (True, pf_path pf)
                | Throw e \<Rightarrow> Throw e
                | Stuck \<Rightarrow> Stuck), (st', w'))))"

definition bs_get_stored_file_path :: "blockstore \<Rightarrow> string \<Rightarrow> (bool \<times> string) outcome" where
  "bs_get_stored_file_path st i = out_bind (hash_to_path i) (\<lambda>hp. Return (True, bs_path st @ hp))"

definition bs_remove_file :: "'w fs_ops \<Rightarrow> blockstore \<Rightarrow> string \<Rightarrow> ('w, bool) io" where
  "bs_remove_file fs st i =
     io_bind (io_of (hash_to_path i)) (\<lambda>hp.
     io_bind (fs_remove fs (bs_unique_dir st @ hp)) (\<lambda>b. if \<not> b then io_return False else io_return True))"

section \<open>Keys and values\<close>

definition bs_kv_put :: "(string \<Rightarrow> string) \<Rightarrow> 'w fs_ops \<Rightarrow> blockstore \<Rightarrow> string \<Rightarrow> string \<Rightarrow> ('w, bool) io" where
  "bs_kv_put H fs st key0 value =
     (let key = validate_key H key0; hash = toHex (H value) in
      if key = hash then bs_store_block H fs st value
      else
      io_bind (io_of (hash_to_path key)) (\<lambda>kp.
      io_bind (require_directories fs (remove_filename (bs_mid_dir st @ kp @ ''/x''))) (\<lambda>ok.
      if \<not> ok then io_return False
      else
      let file = bs_mid_dir st @ kp @ ''/'' @ hash in
      (\<lambda>w. case fs_open_write fs file w of
           (False, w1) \<Rightarrow> (Return False, w1)
         | (True, w1) \<Rightarrow> (Return True, fs_append fs file value w1)))))"

text \<open>The \<open>BOOST_FOREACH\<close> of \<open>kv_get\<close> returns in its first iteration; without one the function runs off its end.\<close>

definition bs_kv_get_mid :: "(string \<Rightarrow> string) \<Rightarrow> 'w fs_ops \<Rightarrow> blockstore \<Rightarrow> string \<Rightarrow> kv_res \<Rightarrow> ('w, bool \<times> kv_res) io" where
  "bs_kv_get_mid H fs st key res =
     io_catch
       (io_bind (io_of (hash_to_path key)) (\<lambda>kp.
        let mid_d = bs_mid_dir st @ kp in
        (\<lambda>w. if \<not> fs_is_directory fs mid_d w then (Return (False, res), w)
             else io_bind (fs_directory fs mid_d) (\<lambda>ps w.
               case ps of
                 [] \<Rightarrow> (Stuck, w)
               | p # _ \<Rightarrow> (case fs_read fs p w of
                     None \<Rightarrow> (Return (False, res), w)
                   | Some cont \<Rightarrow> (Return (True, kv_insert (toHex (H cont)) cont res), w))) w)))
       (\<lambda>e. if e = Filesystem_error then Some (io_return (False, res)) else None)"

definition bs_kv_get :: "(string \<Rightarrow> string) \<Rightarrow> 'w fs_ops \<Rightarrow> string \<Rightarrow> (blockstore \<times> 'w, bool \<times> kv_res) io" where
  "bs_kv_get H fs key0 = (\<lambda>(st, w).
     let key = validate_key H key0; res = [] in
     case bs_block_cache st of
       None \<Rightarrow> (Stuck, (st, w))
     | Some c \<Rightarrow>
         (case lru_call (bs_load_block fs st) (\<lambda>_ w. w) key c w of
            (r, c', w') \<Rightarrow>
              let st' = st\<lparr>bs_block_cache := Some c'\<rparr> in
              (case r of
                 Return b \<Rightarrow>
                   let cont = take (blk_size b) (blk_data b) in
                   (Return (True, kv_insert (toHex (H cont)) cont res), (st', w'))
               | Throw e \<Rightarrow>
                   if e = File_not_found then lift_fs (bs_kv_get_mid H fs st' key res) (st', w')
                   else (Throw e, (st', w'))
               | Stuck \<Rightarrow> (Stuck, (st', w')))))"

fun bs_remove_entries :: "'w fs_ops \<Rightarrow> string list \<Rightarrow> ('w, bool) io" where
  "bs_remove_entries fs [] = io_return True"
| "bs_remove_entries fs (p # ps) =
     io_bind (fs_remove fs p) (\<lambda>b. if \<not> b then io_return False else bs_remove_entries fs ps)"

definition bs_kv_remove :: "(string \<Rightarrow> string) \<Rightarrow> 'w fs_ops \<Rightarrow> blockstore \<Rightarrow> string \<Rightarrow> ('w, bool) io" where
  "bs_kv_remove H fs st key0 =
     (let key = validate_key H key0 in
      io_bind (io_of (hash_to_path key)) (\<lambda>kp.
      io_bind (fs_remove fs (bs_unique_dir st @ kp)) (\<lambda>b.
      if \<not> b then
        io_bind (fs_directory fs (bs_mid_dir st @ kp)) (\<lambda>ps.
        io_bind (bs_remove_entries fs ps) (\<lambda>ok.
        if \<not> ok then io_return False
        else io_bind (fs_remove fs (bs_mid_dir st @ kp)) (\<lambda>b2. if \<not> b2 then io_return False else io_return True)))
      else io_return True)))"

section \<open>The plugin and its signals\<close>

definition bs_plugin :: "(string \<Rightarrow> string) \<Rightarrow> 'w fs_ops \<Rightarrow> (nat \<Rightarrow> string) \<Rightarrow> (blockstore \<times> 'w) localstorage" where
  "bs_plugin H fs ovr = ls_default\<lparr>ls_getName := ''blockstore'', ls_getType := BINARY,
     ls_store_file := (\<lambda>path res (st, w). lift_fs (bs_store_file H fs ovr st path res) (st, w)),
     ls_get_file := bs_get_file fs ovr,
     ls_remove_file := (\<lambda>i (st, w). lift_fs (bs_remove_file fs st i) (st, w)),
     ls_kv_put := (\<lambda>k v (st, w). lift_fs (bs_kv_put H fs st k v) (st, w)),
     ls_kv_get := (\<lambda>k _. io_bind (bs_kv_get H fs k) (\<lambda>(b, m). io_return (b, Some m))),
     ls_kv_get_unique := default_kv_get_unique (\<lambda>k _. io_bind (bs_kv_get H fs k) (\<lambda>(b, m). io_return (b, Some m))),
     ls_kv_remove := (\<lambda>k (st, w). lift_fs (bs_kv_remove H fs st k) (st, w))\<rparr>"

text \<open>The first statements of \<open>initialise\<close>: the four slots. The key-value slots are commented out.\<close>

definition bs_connect ::
  "(string \<Rightarrow> string) \<Rightarrow> 'w fs_ops \<Rightarrow> (nat \<Rightarrow> string) \<Rightarrow> (blockstore \<times> 'w) module_manager \<Rightarrow> (blockstore \<times> 'w) module_manager" where
  "bs_connect H fs ovr mm = mm\<lparr>
     sig_store_file := sig_store_file mm @ [ls_store_file (bs_plugin H fs ovr)],
     sig_get_file := sig_get_file mm @ [ls_get_file (bs_plugin H fs ovr)],
     sig_remove_file := sig_remove_file mm @ [ls_remove_file (bs_plugin H fs ovr)],
     sig_get_block := sig_get_block mm @ [\<lambda>i res (st, w). lift_fs (bs_get_block fs st i res) (st, w)]\<rparr>"

section \<open>Lemmas\<close>

lemma length_le_bytes [simp]: "length (le_bytes k n) = k"
  by (induction k arbitrary: n) auto

lemma le_value_bytes: "le_value (le_bytes k n) = n mod 256 ^ k"
proof (induction k arbitrary: n)
  case (Suc k)
  have "n mod (256 * 256 ^ k) = n mod 256 + 256 * (n div 256 mod 256 ^ k)"
    by (simp add: mod_mult2_eq)
  with Suc show ?case by (simp add: of_char_of)
qed simp

text \<open>Outside the paths in \<open>P\<close>, a view has changed by new directories only.\<close>

definition grown :: "view \<Rightarrow> view \<Rightarrow> string set \<Rightarrow> bool" where
  "grown m m' P \<longleftrightarrow> (\<forall>q. q \<notin> P \<longrightarrow> m' q = m q \<or> (m q = None \<and> m' q = Some Dir))"

lemma grown_dirs: "dirs_added m m' p \<Longrightarrow> grown m m' P"
  using dirs_added_cases unfolding grown_def by blast

lemma grown_upd: "grown m m' P \<Longrightarrow> p \<in> P \<Longrightarrow> grown m (m'(p := x)) P"
  by (auto simp: grown_def)

lemma grown_trans: "grown m m' P \<Longrightarrow> grown m' m'' Q \<Longrightarrow> P \<union> Q \<subseteq> R \<Longrightarrow> grown m m'' R"
  unfolding grown_def by (metis UnCI option.distinct(1) subsetD)

lemma grown_keep: "grown m m' P \<Longrightarrow> q \<notin> P \<Longrightarrow> m q = Some n \<Longrightarrow> m' q = Some n"
  unfolding grown_def by (metis option.distinct(1))

lemma grown_mono: "grown m m' P \<Longrightarrow> P \<subseteq> Q \<Longrightarrow> grown m m' Q"
  by (auto simp: grown_def)

lemma follow_grown:
  assumes g: "grown m m' {p}" and p: "m p = None" and q: "follow m q = Some (File c)"
  shows "follow m' q = Some (File c)"
proof -
  have keep: "m' r = Some n" if "m r = Some n" for r n
    using grown_keep [OF g _ that] p that by (cases "r = p") auto
  from q consider "m q = Some (File c)" | t where "m q = Some (Symlink t)" "m t = Some (File c)"
    by (auto simp: follow_def split: option.splits node.splits)
  then show ?thesis by cases (auto dest!: keep simp: follow_def)
qed

text \<open>Directories made, a file opened and written.\<close>

definition no_links :: "string \<Rightarrow> view \<Rightarrow> bool" where
  "no_links d m \<longleftrightarrow> (\<forall>p t. m (d @ p) \<noteq> Some (Symlink t))"

lemma no_links_grown:
  assumes "no_links d m" and "grown m m' P" and "\<And>p t. d @ p \<in> P \<Longrightarrow> m' (d @ p) \<noteq> Some (Symlink t)"
  shows "no_links d m'"
  unfolding no_links_def
proof (intro allI notI)
  fix p t assume "m' (d @ p) = Some (Symlink t)"
  with assms show False unfolding no_links_def grown_def by (metis node.distinct(5) option.inject)
qed

lemma write_path_effect:
  assumes fs: "fs_spec fs nd" and link: "\<And>t. nd w f \<noteq> Some (Symlink t)"
    and dirs: "require_directories fs d w = (Return True, w1)"
    and opened: "fs_open_write fs f w1 = (True, w2)"
  shows "\<exists>m. grown (nd w) m {} \<and> nd w2 = m(f \<mapsto> File [])
    \<and> nd (fs_append fs f bytes w2) = m(f \<mapsto> File bytes)"
proof -
  note eff = require_directories_effect(2) [OF fs dirs]
  have "nd w1 f \<noteq> Some (Symlink t)" for t
    using dirs_added_new [OF eff, of f "Symlink t"] link by auto
  from fs_open_write_effect(1) [OF fs opened this] have "nd w2 = (nd w1)(f \<mapsto> File [])" by simp
  moreover from this have "nd (fs_append fs f bytes w2) = (nd w1)(f \<mapsto> File bytes)"
    using fs_append_effect [OF fs, of w2 f "[]" bytes] by simp
  ultimately show ?thesis using grown_dirs [OF eff, of "{}"] by blast
qed

section \<open>Blocks of a file\<close>

text \<open>The ids \<open>store_file\<close> gives to the blocks of a file, with the blocks.\<close>

function blocks_of :: "(string \<Rightarrow> string) \<Rightarrow> (nat \<Rightarrow> string) \<Rightarrow> nat \<Rightarrow> nat \<Rightarrow> string \<Rightarrow> (string \<times> string) list" where
  "blocks_of H ovr b i xs =
     (if b = 0 \<or> length xs < b then [(toHex (H xs), xs)]
      else (toHex (H (c_str (ovr i) (take b xs))), take b xs) # blocks_of H ovr b (Suc i) (drop b xs))"
  by pat_completeness auto

termination
  by (relation "measure (\<lambda>(H, ovr, b, i, xs). length xs)") auto

declare blocks_of.simps [simp del]

lemma blocks_of_last: "length xs < b \<Longrightarrow> blocks_of H ovr b i xs = [(toHex (H xs), xs)]"
  by (simp add: blocks_of.simps)

lemma blocks_of_step: "0 < b \<Longrightarrow> b \<le> length xs \<Longrightarrow>
   blocks_of H ovr b i xs = (toHex (H (c_str (ovr i) (take b xs))), take b xs) # blocks_of H ovr b (Suc i) (drop b xs)"
  by (subst blocks_of.simps) simp

lemma concat_blocks_of: "concat (map snd (blocks_of H ovr b i xs)) = xs"
  by (induction H ovr b i xs rule: blocks_of.induct) (subst blocks_of.simps, simp)

lemma blocks_of_ids: "(j, x) \<in> set (blocks_of H ovr b i xs) \<Longrightarrow> \<exists>y. j = toHex (H y)"
  by (induction H ovr b i xs rule: blocks_of.induct) (subst (asm) (2) blocks_of.simps, auto split: if_splits)

definition block_file :: "blockstore \<Rightarrow> string \<Rightarrow> string" where
  "block_file st i = bs_unique_dir st @ hpath i"

lemma block_file_inj: "sha512_size H \<Longrightarrow> block_file st (toHex (H x)) = block_file st (toHex (H y)) \<Longrightarrow> toHex (H x) = toHex (H y)"
  by (auto simp: block_file_def intro: hpath_inj)

text \<open>The blocks a store holds after writing \<open>bl\<close> in order: a later block replaces an earlier one of the same id.\<close>

definition block_of :: "(string \<times> string) list \<Rightarrow> string \<Rightarrow> string" where
  "block_of bl i = (case map_of (rev bl) i of None \<Rightarrow> [] | Some x \<Rightarrow> x)"

lemma block_of_Cons: "block_of ((i, x) # bl) j = (if j \<in> fst ` set bl then block_of bl j else if j = i then x else [])"
  by (auto simp: block_of_def split: option.splits) (force simp: map_of_eq_None_iff image_iff dest!: map_of_SomeD)+

text \<open>The loop of \<open>store_file\<close> writes the blocks and their ids.\<close>

lemma c_str_ids: "length (c_str x (toHex y)) \<ge> length (toHex y)"
proof -
  have "takeWhile (\<lambda>c. c \<noteq> CHR 0x00) (toHex y) = toHex y"
    by (rule takeWhile_eq_all_conv [THEN iffD2]) (use slash_not_hex(2) [of y] in auto)
  then have "c_str x (toHex y) = toHex y @ takeWhile (\<lambda>c. c \<noteq> CHR 0x00) x"
    unfolding c_str_def using slash_not_hex(2) [of y] by (subst takeWhile_append2) auto
  then show ?thesis by simp
qed

text \<open>One round of the loop.\<close>

lemma bs_store_blocks_round:
  assumes fs: "fs_spec fs nd" and H: "sha512_size H" and link: "no_links (bs_unique_dir st) (nd w)"
    and h0: "nd w header = Some (File h0)"
    and x: "x = take (bs_blocksize st) rest"
    and y: "y = (if length rest < bs_blocksize st then x else c_str (ovr blockc) x)"
    and rb: "length rest < bs_blocksize st \<Longrightarrow> abs_uint (uint_minus filesize ((blockc - 1) * bs_blocksize st)) = length rest"
    and ne: "header \<noteq> block_file st (toHex (H y))"
    and run: "bs_store_blocks H fs ovr st header filesize blocks blockc rest w = (Return True, w')"
  obtains m w1 where "grown (nd w) m {}"
    and "nd w1 = m(block_file st (toHex (H y)) \<mapsto> File x, header \<mapsto> File (h0 @ toHex (H y)))"
    and "if blockc < blocks
      then bs_store_blocks H fs ovr st header filesize blocks (Suc blockc) (drop (bs_blocksize st) rest) w1 = (Return True, w')
      else w' = w1"
proof -
  let ?f = "block_file st (toHex (H y))"
  have len: "length (toHex (H y)) = 128" using H by simp
  have tk: "take (if length rest < bs_blocksize st then length rest else bs_blocksize st) x = x"
    by (simp add: x)
  have run': "io_bind (require_directories fs (remove_filename ?f)) (\<lambda>ok.
      if \<not> ok then io_return False
      else (\<lambda>w. case fs_open_write fs ?f w of
                (False, w1) \<Rightarrow> (Return False, w1)
              | (True, w1) \<Rightarrow>
                  let w2 = fs_append fs ?f x w1; w3 = fs_append fs header (toHex (H y)) w2 in
                  if blockc < blocks
                  then bs_store_blocks H fs ovr st header filesize blocks (Suc blockc) (drop (bs_blocksize st) rest) w3
                  else (Return True, w3))) w = (Return True, w')"
    using run rb tk H len
    by (subst (asm) bs_store_blocks.simps)
       (auto simp: Let_def x y hash_to_path_hash block_file_def HASH_SIZE_def split: if_splits cong: if_cong bool.case_cong prod.case_cong)
  then obtain w1 w2 where dirs: "require_directories fs (remove_filename ?f) w = (Return True, w1)"
    and opened: "fs_open_write fs ?f w1 = (True, w2)"
    and rest: "(let w2 = fs_append fs ?f x w2; w3 = fs_append fs header (toHex (H y)) w2 in
                  if blockc < blocks
                  then bs_store_blocks H fs ovr st header filesize blocks (Suc blockc) (drop (bs_blocksize st) rest) w3
                  else (Return True, w3)) = (Return True, w')"
    by (auto elim!: io_bind_returnE split: if_splits prod.splits bool.splits)
  have "nd w ?f \<noteq> Some (Symlink t)" for t
    using link by (simp add: no_links_def block_file_def)
  from write_path_effect [OF fs this dirs opened, of x]
  obtain m where m: "grown (nd w) m {}" "nd (fs_append fs ?f x w2) = m(?f \<mapsto> File x)" by blast
  with h0 ne have "nd (fs_append fs ?f x w2) header = Some (File h0)"
    using grown_keep [OF m(1), of header] by simp
  from fs_append_effect [OF fs this, of "toHex (H y)"]
  have "nd (fs_append fs header (toHex (H y)) (fs_append fs ?f x w2))
     = m(?f \<mapsto> File x, header \<mapsto> File (h0 @ toHex (H y)))" unfolding m(2) .
  with that [OF m(1)] rest show ?thesis by (auto simp: Let_def split: if_splits)
qed

lemma last_block_length:
  assumes "filesize = (blockc - 1) * b + n" and "n < b" and "filesize < 2 ^ 32" and "b < 2 ^ 31"
  shows "abs_uint (uint_minus filesize ((blockc - 1) * b)) = n"
proof -
  have "(blockc - 1) * b < 2 ^ 32" using assms by linarith
  then have "uint_minus filesize ((blockc - 1) * b) = (n + 2 ^ 32) mod 2 ^ 32"
    using assms(1) by (simp add: uint_minus_def)
  also have "\<dots> = n" using assms by simp
  finally show ?thesis using assms by (simp add: abs_uint_def)
qed

lemma more_blocks_iff:
  fixes b :: nat
  assumes "filesize = (blockc - 1) * b + n" and "0 < b" and "1 \<le> blockc"
  shows "blockc < filesize div b + 1 \<longleftrightarrow> b \<le> n"
proof -
  have "filesize div b = blockc - 1 + n div b" using assms(2) unfolding assms(1) by simp
  moreover have "1 \<le> n div b \<longleftrightarrow> b \<le> n" using assms(2) by (simp add: div_greater_zero_iff Suc_le_eq)
  ultimately show ?thesis using assms(3) by linarith
qed

lemma bs_store_blocks_effect:
  assumes fs: "fs_spec fs nd" and H: "sha512_size H" and b: "0 < bs_blocksize st" "bs_blocksize st < 2 ^ 31"
    and "no_links (bs_unique_dir st) (nd w)" and "nd w header = Some (File h0)"
    and "filesize = (blockc - 1) * bs_blocksize st + length rest" and small: "filesize < 2 ^ 32"
    and blocks: "blocks = filesize div bs_blocksize st + 1" and "1 \<le> blockc"
    and "\<And>i x. (i, x) \<in> set (blocks_of H ovr (bs_blocksize st) blockc rest) \<Longrightarrow> header \<noteq> block_file st i"
    and "bs_store_blocks H fs ovr st header filesize blocks blockc rest w = (Return True, w')"
  shows "nd w' header = Some (File (h0 @ concat (map fst (blocks_of H ovr (bs_blocksize st) blockc rest))))
    \<and> (\<forall>i \<in> fst ` set (blocks_of H ovr (bs_blocksize st) blockc rest).
         nd w' (block_file st i) = Some (File (block_of (blocks_of H ovr (bs_blocksize st) blockc rest) i)))
    \<and> grown (nd w) (nd w') (insert header (block_file st ` fst ` set (blocks_of H ovr (bs_blocksize st) blockc rest)))"
  using assms(5-)
proof (induction "length rest" arbitrary: rest blockc w h0 rule: less_induct)
  case less
  let ?b = "bs_blocksize st"
  define x where "x = take ?b rest"
  define y where "y = (if length rest < ?b then x else c_str (ovr blockc) x)"
  let ?i = "toHex (H y)" and ?bl = "blocks_of H ovr ?b blockc rest"
  have head: "?bl = (?i, x) # (if length rest < ?b then [] else blocks_of H ovr ?b (Suc blockc) (drop ?b rest))"
    using b(1) by (auto simp: x_def y_def blocks_of_last blocks_of_step)
  then have ne: "header \<noteq> block_file st ?i" using less.prems(7) [of ?i x] by auto
  have rb: "abs_uint (uint_minus filesize ((blockc - 1) * ?b)) = length rest" if "length rest < ?b"
    using last_block_length [OF less.prems(3) that small b(2)] .
  obtain m w1 where m: "grown (nd w) m {}"
    and w1: "nd w1 = m(block_file st ?i \<mapsto> File x, header \<mapsto> File (h0 @ ?i))"
    and next_round: "if blockc < blocks
      then bs_store_blocks H fs ovr st header filesize blocks (Suc blockc) (drop ?b rest) w1 = (Return True, w')
      else w' = w1"
    using bs_store_blocks_round [OF fs H less.prems(1,2) x_def y_def rb ne less.prems(8)] by blast
  have more: "blockc < blocks \<longleftrightarrow> \<not> length rest < ?b"
    using more_blocks_iff [OF less.prems(3) b(1) less.prems(6)] blocks by linarith
  have g1: "grown (nd w) (nd w1) {block_file st ?i, header}"
    unfolding w1 by (intro grown_upd grown_trans [OF m]) (auto simp: grown_def)
  show ?case
  proof (cases "length rest < ?b")
    case True
    with next_round more have "w' = w1" by simp
    with head True w1 ne g1 show ?thesis
      by (auto simp: block_of_Cons insert_commute)
  next
    case False
    let ?rest = "drop ?b rest" and ?bl' = "blocks_of H ovr ?b (Suc blockc) (drop ?b rest)"
    have bl: "?bl = (?i, x) # ?bl'" using head False by simp
    have "no_links (bs_unique_dir st) (nd w1)"
      using less.prems(1) g1 by (rule no_links_grown) (auto simp: w1)
    moreover have "nd w1 header = Some (File (h0 @ ?i))" by (simp add: w1)
    moreover have "filesize = (Suc blockc - 1) * ?b + length ?rest"
      using less.prems(3,6) False by (cases blockc) auto
    moreover have "header \<noteq> block_file st j" if "(j, z) \<in> set ?bl'" for j z
      using less.prems(7) [of j z] that bl by simp
    moreover have "bs_store_blocks H fs ovr st header filesize blocks (Suc blockc) ?rest w1 = (Return True, w')"
      using next_round more False by simp
    ultimately have IH: "nd w' header = Some (File ((h0 @ ?i) @ concat (map fst ?bl')))
      \<and> (\<forall>i \<in> fst ` set ?bl'. nd w' (block_file st i) = Some (File (block_of ?bl' i)))
      \<and> grown (nd w1) (nd w') (insert header (block_file st ` fst ` set ?bl'))"
      using less.hyps [of ?rest w1 "h0 @ ?i" "Suc blockc"] False b(1) small blocks by auto
    have "nd w' (block_file st ?i) = Some (File x)" if "?i \<notin> fst ` set ?bl'"
    proof -
      have "block_file st ?i \<notin> block_file st ` fst ` set ?bl'"
      proof
        assume "block_file st ?i \<in> block_file st ` fst ` set ?bl'"
        then obtain j z where j: "(j, z) \<in> set ?bl'" "block_file st ?i = block_file st j" by force
        from blocks_of_ids [OF j(1)] j(2) block_file_inj [OF H] have "?i = j" by auto
        with j(1) that show False by force
      qed
      then show ?thesis
        using grown_keep [of "nd w1" "nd w'" _ "block_file st ?i"] IH ne w1 by auto
    qed
    then have "\<forall>i \<in> fst ` set ?bl. nd w' (block_file st i) = Some (File (block_of ?bl i))"
      using IH unfolding bl by (auto simp: block_of_Cons)
    moreover have "grown (nd w) (nd w') (insert header (block_file st ` fst ` set ?bl))"
      by (rule grown_trans [OF g1 IH [THEN conjunct2, THEN conjunct2]]) (auto simp: bl)
    ultimately show ?thesis using IH bl by simp
  qed
qed

text \<open>The loop of \<open>load_file\<close> appends the blocks named in the header, up to the first empty one.\<close>

lemma bs_load_blocks_effect:
  assumes fs: "fs_spec fs nd" and ap: "apart (bs_unique_dir st) (bs_pub_dir st)"
    and "\<And>i. i \<in> set ids \<Longrightarrow> \<exists>y. i = toHex (H y)" and H: "sha512_size H"
    and "\<And>i. i \<in> set ids \<Longrightarrow> nd w (block_file st i) = Some (File (g i))"
    and "nd w (bs_pub_dir st @ f) = Some (File old)"
  shows "\<exists>w'. bs_load_blocks fs ovr st (bs_pub_dir st @ f) ok n (concat ids) w = (Return None, w')
    \<and> nd w' = (nd w)(bs_pub_dir st @ f \<mapsto>
        File (old @ (if ok then concat (takeWhile (\<lambda>x. x \<noteq> []) (map g ids)) else [])))"
  using assms(3,5,6)
proof (induction ids arbitrary: ok n w old)
  case Nil
  then show ?case by (auto simp: bs_load_blocks.simps HASH_SIZE_def)
next
  case (Cons i ids)
  let ?out = "bs_pub_dir st @ f"
  obtain y where y: "i = toHex (H y)" using Cons.prems(1) [of i] by auto
  then have len: "length i = 128" using H by simp
  have path: "hash_to_path i = Return (hpath i)" using len by (simp add: hash_to_path_ok)
  have str: "\<not> length (c_str (ovr n) i) < HASH_SIZE"
    using c_str_ids [of "H y" "ovr n"] len by (simp add: y HASH_SIZE_def)
  have rd: "fs_read fs (bs_unique_dir st @ hpath i) w = Some (g i)"
    using Cons.prems(2) [of i] fs_read_file [OF fs follow_File] by (simp add: block_file_def)
  define w1 where "w1 = (if ok then fs_append fs ?out (g i) w else w)"
  have w1: "nd w1 = (nd w)(?out \<mapsto> File (old @ (if ok then g i else [])))"
    using fs_append_effect [OF fs Cons.prems(3)] Cons.prems(3) by (auto simp: w1_def fun_eq_iff)
  have "bs_load_blocks fs ovr st ?out ok n (concat (i # ids)) w
      = bs_load_blocks fs ovr st ?out (ok \<and> g i \<noteq> []) (Suc n) (concat ids) w1"
    by (subst bs_load_blocks.simps) (use len path str rd in \<open>simp add: HASH_SIZE_def w1_def\<close>)
  moreover have "nd w1 (block_file st j) = Some (File (g j))" if "j \<in> set ids" for j
    using Cons.prems(2) [of j] that apart_append_neq [OF ap] by (simp add: w1 block_file_def)
  moreover have "\<exists>y. j = toHex (H y)" if "j \<in> set ids" for j
    using Cons.prems(1) [of j] that by simp
  moreover have "nd w1 ?out = Some (File (old @ (if ok then g i else [])))" by (simp add: w1)
  ultimately obtain w' where "bs_load_blocks fs ovr st ?out ok n (concat (i # ids)) w = (Return None, w')"
    and "nd w' = (nd w1)(?out \<mapsto> File ((old @ (if ok then g i else []))
        @ (if ok \<and> g i \<noteq> [] then concat (takeWhile (\<lambda>x. x \<noteq> []) (map g ids)) else [])))"
    using Cons.IH [of w1 "old @ (if ok then g i else [])" "ok \<and> g i \<noteq> []" "Suc n"] by metis
  then show ?case by (intro exI [of _ w'] conjI) (auto simp: w1 fun_eq_iff)
qed

text \<open>Storing a file, as far as it does not depend on the size.\<close>

lemma bs_store_file_start:
  assumes fs: "fs_spec fs nd" and H: "sha512_size H" and b: "0 < bs_blocksize st"
    and src: "follow (nd w) src = Some (File c)" and small: "length c < 2 ^ 32"
    and link: "no_links (bs_unique_dir st) (nd w)"
    and fresh: "nd w (block_file st (toHex (H c))) = None"
    and run: "bs_store_file H fs ovr st src res w = (Return (True, i), w')"
  obtains m w1 where "i = toHex (H c)" and "grown (nd w) m {}"
    and "nd w1 = m(block_file st i \<mapsto> File (le_bytes 4 (length c)))"
    and "if length c \<le> bs_blocksize st then w' = fs_append fs (block_file st i) c w1
      else bs_store_blocks H fs ovr st (block_file st i) (length c) (length c div bs_blocksize st + 1) 1 c w1
        = (Return True, w')"
proof -
  let ?i = "toHex (H c)"
  let ?f = "block_file st ?i"
  have hash: "HashFile H fs src w = H c" using fs_read_file [OF fs src] by (simp add: HashFile_def)
  have ne: "?i \<noteq> []" using H by (metis length_hash length_toHex list.size(3) mult_eq_0_iff zero_neq_numeral)
  have ex: "\<not> fs_exists fs ?f w" using fresh by (simp add: fs_exists_iff [OF fs] follow_missing)
  have sz: "fs_file_size fs src w = (Return (length c), w)" by (rule fs_file_size_file [OF fs src])
  from run obtain w0 w1 where dirs: "require_directories fs (remove_filename ?f) w = (Return True, w0)"
    and opened: "fs_open_write fs ?f w0 = (True, w1)"
    and rest: "(case fs_read fs src (fs_append fs ?f (le_bytes 4 (length c)) w1) of
           None \<Rightarrow> (Return (False, res), fs_append fs ?f (le_bytes 4 (length c)) w1)
         | Some input \<Rightarrow>
             if length c \<le> bs_blocksize st
             then (Return (True, ?i), fs_append fs ?f input (fs_append fs ?f (le_bytes 4 (length c)) w1))
             else io_bind (bs_store_blocks H fs ovr st ?f (length c) (length c div bs_blocksize st + 1) 1 input)
                    (\<lambda>ok. io_return (if ok then (True, ?i) else (False, res)))
                    (fs_append fs ?f (le_bytes 4 (length c)) w1)) = (Return (True, i), w')"
    using small b ex H
    by (auto simp: bs_store_file_def hash ne sz Let_def hash_to_path_hash block_file_def io_catch_apply io_bind_apply [of "fs_file_size fs src"]
        elim!: io_bind_returnE split: if_splits prod.splits bool.splits outcome.splits option.splits)
  have "nd w ?f \<noteq> Some (Symlink t)" for t by (simp add: fresh)
  from write_path_effect [OF fs this dirs opened]
  obtain m where m: "grown (nd w) m {}" 
    "nd (fs_append fs ?f (le_bytes 4 (length c)) w1) = m(?f \<mapsto> File (le_bytes 4 (length c)))" by blast
  have "follow (nd (fs_append fs ?f (le_bytes 4 (length c)) w1)) src = Some (File c)"
    using follow_grown [OF grown_upd [OF grown_mono [OF m(1)]] fresh src] by (simp add: m(2))
  from fs_read_file [OF fs this] rest
  have i: "i = ?i" and cont: "if length c \<le> bs_blocksize st
      then w' = fs_append fs ?f c (fs_append fs ?f (le_bytes 4 (length c)) w1)
      else bs_store_blocks H fs ovr st ?f (length c) (length c div bs_blocksize st + 1) 1 c
        (fs_append fs ?f (le_bytes 4 (length c)) w1) = (Return True, w')"
    by (auto elim!: io_bind_returnE split: if_splits)
  from that [OF i m(1), unfolded i, OF m(2) cont] show ?thesis .
qed

section \<open>Files read back\<close>

definition bs_wf :: "blockstore \<Rightarrow> bool" where
  "bs_wf st \<longleftrightarrow> apart (bs_unique_dir st) (bs_pub_dir st) \<and> 4 \<le> bs_blocksize st \<and> bs_blocksize st < 2 ^ 31"

text \<open>What a stored file reads back as.\<close>

definition read_back :: "(string \<Rightarrow> string) \<Rightarrow> (nat \<Rightarrow> string) \<Rightarrow> nat \<Rightarrow> string \<Rightarrow> string" where
  "read_back H ovr b c =
     (if length c \<le> b then c
      else let bl = blocks_of H ovr b 1 c in concat (takeWhile (\<lambda>x. x \<noteq> []) (map (block_of bl \<circ> fst) bl)))"

definition stored_file :: "(string \<Rightarrow> string) \<Rightarrow> (nat \<Rightarrow> string) \<Rightarrow> blockstore \<Rightarrow> view \<Rightarrow> string \<Rightarrow> bool" where
  "stored_file H ovr st m c \<longleftrightarrow>
     (if length c \<le> bs_blocksize st
      then m (block_file st (toHex (H c))) = Some (File (le_bytes 4 (length c) @ c))
      else let bl = blocks_of H ovr (bs_blocksize st) 1 c in
        m (block_file st (toHex (H c))) = Some (File (le_bytes 4 (length c) @ concat (map fst bl)))
        \<and> (\<forall>i \<in> fst ` set bl. m (block_file st i) = Some (File (block_of bl i))))"

lemma bs_store_file_stored:
  assumes fs: "fs_spec fs nd" and H: "sha512_size H" and wf: "bs_wf st"
    and src: "follow (nd w) src = Some (File c)" and small: "length c < 2 ^ 32"
    and link: "no_links (bs_unique_dir st) (nd w)"
    and fresh: "nd w (block_file st (toHex (H c))) = None"
    and own: "toHex (H c) \<notin> fst ` set (blocks_of H ovr (bs_blocksize st) 1 c)"
    and run: "bs_store_file H fs ovr st src res w = (Return (True, i), w')"
  shows "i = toHex (H c)" and "stored_file H ovr st (nd w') c"
    and "grown (nd w) (nd w') (insert (block_file st i) (block_file st ` fst ` set (blocks_of H ovr (bs_blocksize st) 1 c)))"
proof -
  let ?b = "bs_blocksize st" and ?f = "block_file st i" and ?bl = "blocks_of H ovr (bs_blocksize st) 1 c"
  have b: "0 < ?b" "?b < 2 ^ 31" using wf by (auto simp: bs_wf_def)
  obtain m w1 where i: "i = toHex (H c)" and m: "grown (nd w) m {}"
    and w1: "nd w1 = m(?f \<mapsto> File (le_bytes 4 (length c)))"
    and rest: "if length c \<le> ?b then w' = fs_append fs ?f c w1
      else bs_store_blocks H fs ovr st ?f (length c) (length c div ?b + 1) 1 c w1 = (Return True, w')"
    using bs_store_file_start [OF fs H b(1) src small link fresh run] by blast
  show "i = toHex (H c)" by (fact i)
  have g1: "grown (nd w) (nd w1) {?f}" unfolding w1 by (intro grown_upd grown_mono [OF m]) auto
  have hd1: "nd w1 ?f = Some (File (le_bytes 4 (length c)))" by (simp add: w1)
  have "stored_file H ovr st (nd w') c \<and> grown (nd w) (nd w') (insert ?f (block_file st ` fst ` set ?bl))"
  proof (cases "length c \<le> ?b")
    case True
    with rest have "nd w' = (nd w1)(?f \<mapsto> File (le_bytes 4 (length c) @ c))"
      using fs_append_effect [OF fs hd1] by simp
    with True i g1 show ?thesis by (auto simp: stored_file_def intro!: grown_upd intro: grown_mono)
  next
    case False
    have nl: "no_links (bs_unique_dir st) (nd w1)"
      using link g1 by (rule no_links_grown) (auto simp: w1)
    have ne: "?f \<noteq> block_file st j" if "(j, x) \<in> set ?bl" for j x
      using blocks_of_ids [OF that] block_file_inj [OF H] own that unfolding i by force
    from False rest bs_store_blocks_effect [OF fs H b nl hd1 _ small refl _ ne, of 1]
    have eff: "nd w' ?f = Some (File (le_bytes 4 (length c) @ concat (map fst ?bl)))
      \<and> (\<forall>i \<in> fst ` set ?bl. nd w' (block_file st i) = Some (File (block_of ?bl i)))
      \<and> grown (nd w1) (nd w') (insert ?f (block_file st ` fst ` set ?bl))" by simp
    from grown_trans [OF g1 eff [THEN conjunct2, THEN conjunct2] order_refl] eff False i
    show ?thesis by (simp add: stored_file_def Let_def)
  qed
  then show "stored_file H ovr st (nd w') c"
    and "grown (nd w) (nd w') (insert ?f (block_file st ` fst ` set ?bl))" by auto
qed

lemma size_t_minus_ge: "b \<le> a \<Longrightarrow> a < 2 ^ 64 \<Longrightarrow> size_t_minus a b = a - b"
proof -
  assume "b \<le> a" and "a < 2 ^ 64"
  then have "size_t_minus a b = ((a - b) + 2 ^ 64) mod 2 ^ 64" by (simp add: size_t_minus_def)
  also have "\<dots> = a - b" using \<open>a < 2 ^ 64\<close> by (simp only: mod_add_self2 mod_less less_imp_diff_less)
  finally show ?thesis .
qed

lemma bs_load_file_stored:
  assumes fs: "fs_spec fs nd" and H: "sha512_size H" and wf: "bs_wf st" and small: "length c < 2 ^ 32"
    and size: "length c \<le> bs_blocksize st - 4 \<or> bs_blocksize st < length c"
    and stored: "stored_file H ovr st (nd w) c" and link: "no_links (bs_pub_dir st) (nd w)"
    and run: "bs_load_file fs ovr' st (toHex (H c)) w = (r, w')"
  shows "r = Throw File_not_found \<and> nd w' = nd w
    \<or> r = Return \<lparr>pf_path = bs_pub_dir st @ toHex (H c), pf_good = True\<rparr>
      \<and> nd w' = (nd w)(bs_pub_dir st @ toHex (H c) \<mapsto> File (read_back H ovr (bs_blocksize st) c))"
proof -
  let ?i = "toHex (H c)" and ?b = "bs_blocksize st"
  let ?out = "bs_pub_dir st @ ?i"
  have ap: "apart (bs_unique_dir st) (bs_pub_dir st)" and b: "4 \<le> ?b" "?b < 2 ^ 31"
    using wf by (auto simp: bs_wf_def)
  have sub: "size_t_minus ?b 4 = ?b - 4" using b by (intro size_t_minus_ge) auto
  have val: "le_value (le_bytes 4 (length c)) = length c" using small by (simp add: le_value_bytes)
  obtain hdr where hdr: "nd w (block_file st ?i) = Some (File (le_bytes 4 (length c) @ hdr))"
    and inl: "length c \<le> ?b \<Longrightarrow> hdr = c"
    and ids: "?b < length c \<Longrightarrow> hdr = concat (map fst (blocks_of H ovr ?b 1 c))"
    using stored by (auto simp: stored_file_def Let_def split: if_splits)
  have rd: "fs_read fs (bs_unique_dir st @ hpath ?i) w = Some (le_bytes 4 (length c) @ hdr)"
    using fs_read_file [OF fs, of w "block_file st ?i"] follow_File [of "nd w", OF hdr] by (simp add: block_file_def)
  obtain o1 w1 where opened: "fs_open_write fs ?out w = (o1, w1)" by fastforce
  have eff: "nd w1 = (if o1 then (nd w)(?out \<mapsto> File []) else nd w)"
    using fs_open_write_effect(1) [OF fs opened] link by (simp add: no_links_def)
  show ?thesis
  proof (cases o1)
    case False
    with run opened rd eff H show ?thesis
      by (simp add: bs_load_file_def hash_to_path_hash io_simps Let_def)
  next
    case True
    let ?good = "\<lparr>pf_path = ?out, pf_good = True\<rparr>"
    have w1: "nd w1 ?out = Some (File [])" using eff True by simp
    show ?thesis
    proof (cases "length c \<le> ?b - 4")
      case True
      then have le: "\<not> ?b < length c" using b by linarith
      from True have "r = Return ?good \<and> w' = fs_append fs ?out c w1"
        using run opened rd H \<open>o1\<close> inl val le
        by (auto simp: bs_load_file_def hash_to_path_hash io_simps Let_def sub)
      with le fs_append_effect [OF fs w1, of c] eff \<open>o1\<close> show ?thesis by (simp add: read_back_def fun_eq_iff)
    next
      case big: False
      let ?bl = "blocks_of H ovr ?b 1 c"
      have long: "?b < length c" using size big by simp
      have ids': "\<exists>y. i = toHex (H y)" if "i \<in> set (map fst ?bl)" for i
        using that blocks_of_ids by fastforce
      have "nd w (block_file st i) = Some (File (block_of ?bl i))" if "i \<in> set (map fst ?bl)" for i
        using stored long that by (auto simp: stored_file_def Let_def)
      then have "nd w1 (block_file st i) = Some (File (block_of ?bl i))" if "i \<in> set (map fst ?bl)" for i
        using that apart_append_neq [OF ap] eff \<open>o1\<close> by (simp add: block_file_def)
      from bs_load_blocks_effect [OF fs ap ids' H this w1, of "map fst ?bl" ovr' True 0] 
      obtain w2 where run2: "bs_load_blocks fs ovr' st ?out True 0 (concat (map fst ?bl)) w1 = (Return None, w2)"
        and w2: "nd w2 = (nd w1)(?out \<mapsto> File (concat (takeWhile (\<lambda>x. x \<noteq> []) (map (block_of ?bl) (map fst ?bl)))))"
        by auto
      have "r = Return ?good \<and> w' = w2"
        using run opened rd H \<open>o1\<close> ids [OF long] val big run2
        by (simp add: bs_load_file_def hash_to_path_hash io_simps Let_def sub)
      with w2 eff \<open>o1\<close> long show ?thesis by (simp add: read_back_def Let_def)
    qed
  qed
qed

text \<open>A file reads back unchanged exactly when no two different blocks of it have the same id.\<close>

definition blocks_consistent :: "(string \<times> string) list \<Rightarrow> bool" where
  "blocks_consistent bl \<longleftrightarrow> list_all (\<lambda>(i, x). list_all (\<lambda>(j, y). i = j \<longrightarrow> x = y) bl) bl"

lemma blocks_consistent_altdef:
  "blocks_consistent bl \<longleftrightarrow> (\<forall>i x y. (i, x) \<in> set bl \<longrightarrow> (i, y) \<in> set bl \<longrightarrow> x = y)"
  by (auto simp: blocks_consistent_def list_all_iff)

lemma block_of_mem: "i \<in> fst ` set bl \<Longrightarrow> (i, block_of bl i) \<in> set bl"
proof -
  assume "i \<in> fst ` set bl"
  then have "map_of (rev bl) i \<noteq> None" by (simp add: map_of_eq_None_iff)
  then obtain x where x: "map_of (rev bl) i = Some x" by auto
  then have "(i, x) \<in> set bl" by (auto dest: map_of_SomeD)
  with x show ?thesis by (simp add: block_of_def)
qed

lemma blocks_consistent_iff: "blocks_consistent bl \<longleftrightarrow> map (block_of bl \<circ> fst) bl = map snd bl"
proof
  assume *: "blocks_consistent bl"
  have "block_of bl (fst p) = snd p" if "p \<in> set bl" for p
    using that block_of_mem [of "fst p" bl] * unfolding blocks_consistent_altdef by (metis image_eqI prod.collapse)
  then show "map (block_of bl \<circ> fst) bl = map snd bl" by simp
next
  assume "map (block_of bl \<circ> fst) bl = map snd bl"
  then have "block_of bl i = x" if "(i, x) \<in> set bl" for i x
    using that by (metis comp_apply fst_conv map_eq_conv snd_conv)
  then show "blocks_consistent bl" unfolding blocks_consistent_altdef by blast
qed

text \<open>All blocks but the last are full, the last is not.\<close>

lemma blocks_of_lengths:
  assumes "0 < b"
  shows "\<exists>bl x. blocks_of H ovr b i xs = bl @ [x] \<and> (\<forall>p \<in> set bl. length (snd p) = b) \<and> length (snd x) < b"
  using assms
proof (induction H ovr b i xs rule: blocks_of.induct)
  case (1 H ovr b i xs)
  show ?case
  proof (cases "length xs < b")
    case False
    with 1 obtain bl x where "blocks_of H ovr b (Suc i) (drop b xs) = bl @ [x]"
      "\<forall>p \<in> set bl. length (snd p) = b" "length (snd x) < b" by auto
    with False 1(2) show ?thesis
      by (intro exI [of _ "(toHex (H (c_str (ovr i) (take b xs))), take b xs) # bl"] exI [of _ x])
         (simp add: blocks_of_step)
  qed (simp add: blocks_of_last)
qed

lemma sum_list_eq_pointwise:
  fixes xs ys :: "nat list"
  assumes "list_all2 (\<le>) xs ys" and "sum_list ys \<le> sum_list xs"
  shows "xs = ys"
  using assms
proof (induction rule: list_all2_induct)
  case (Cons x xs y ys)
  have "sum_list xs \<le> sum_list ys" using Cons.hyps(2) by (simp add: sum_list_mono2 list_all2_conv_all_nth)
  with Cons show ?case by simp
qed simp

lemma concat_takeWhile_eq:
  assumes le: "list_all2 (\<lambda>g c. length g \<le> length c) gs cs"
    and eq: "concat (takeWhile (\<lambda>x. x \<noteq> []) gs) = concat cs"
  shows "gs = cs"
proof -
  have split: "concat gs = concat (takeWhile (\<lambda>x. x \<noteq> []) gs) @ concat (dropWhile (\<lambda>x. x \<noteq> []) gs)"
    by (metis concat_append takeWhile_dropWhile_id)
  have all2: "list_all2 (\<le>) (map length gs) (map length cs)" using le by (simp add: list_all2_map1 list_all2_map2)
  have "sum_list (map length cs) \<le> sum_list (map length gs)"
    using arg_cong [OF split, of length] eq by (simp add: length_concat)
  then have len: "map length gs = map length cs" using all2 by (rule sum_list_eq_pointwise [rotated])
  then have len2: "length (concat gs) = length (concat cs)" by (simp add: length_concat)
  obtain d where d: "concat gs = concat cs @ d" using split eq by metis
  with len2 have "d = []" using arg_cong [OF d, of length] by simp
  with d have "concat gs = concat cs" by simp
  moreover have "length gs = length cs" using len by (rule map_eq_imp_length_eq)
  moreover have "length (fst p) = length (snd p)" if p: "p \<in> set (zip gs cs)" for p
  proof -
    obtain k where "k < length gs" "k < length cs" "fst p = gs ! k" "snd p = cs ! k"
      using p by (auto simp: in_set_zip)
    then show ?thesis using arg_cong [OF len, of "\<lambda>l. l ! k"] by simp
  qed
  ultimately show ?thesis by (simp add: concat_eq_concat_iff case_prod_beta)
qed

lemma read_back_iff:
  assumes b: "0 < b"
  shows "read_back H ovr b c = c \<longleftrightarrow> length c \<le> b \<or> blocks_consistent (blocks_of H ovr b 1 c)"
proof (cases "length c \<le> b")
  case False
  define B where "B = blocks_of H ovr b 1 c"
  let ?gs = "map (block_of B \<circ> fst) B"
  obtain bl x where bl: "B = bl @ [x]" and full: "\<forall>p \<in> set bl. length (snd p) = b" and last: "length (snd x) < b"
    unfolding B_def using blocks_of_lengths [OF b] by blast
  have c: "concat (map snd B) = c" unfolding B_def by (rule concat_blocks_of)
  have "concat (takeWhile (\<lambda>x. x \<noteq> []) ?gs) = c \<longleftrightarrow> blocks_consistent B"
  proof
    assume "blocks_consistent B"
    then have gs: "?gs = map snd B" by (simp add: blocks_consistent_iff)
    have "\<forall>y \<in> set (map snd bl). y \<noteq> []" using full b by auto
    then have "concat (takeWhile (\<lambda>x. x \<noteq> []) (map snd bl @ [snd x])) = concat (map snd bl @ [snd x])"
      by (subst takeWhile_append2) auto
    with c show "concat (takeWhile (\<lambda>x. x \<noteq> []) ?gs) = c" unfolding gs by (simp add: bl)
  next
    assume eq: "concat (takeWhile (\<lambda>x. x \<noteq> []) ?gs) = c"
    have "length (snd q) \<le> b" if "q \<in> set B" for q using that full last by (auto simp: bl)
    from this [OF block_of_mem] have mem: "length (block_of B (fst p)) \<le> b" if "p \<in> set B" for p
      using that by simp
    have "block_of B (fst x) = snd x" by (simp add: bl block_of_def)
    with mem full have "length (block_of B (fst p)) \<le> length (snd p)" if "p \<in> set B" for p
      using that by (metis UnE bl empty_iff list.set(1) order_refl set_ConsD set_append)
    then have "list_all2 (\<lambda>g c. length g \<le> length c) ?gs (map snd B)"
      by (simp add: list.rel_map list.rel_refl_strong)
    from concat_takeWhile_eq [OF this] eq c have "?gs = map snd B" by simp
    then show "blocks_consistent B" by (simp add: blocks_consistent_iff)
  qed
  with False show ?thesis by (simp only: read_back_def Let_def B_def [symmetric] if_False simp_thms)
qed (simp add: read_back_def)

text \<open>The cache of public files: an entry's path is the public path of its key, or empty for a failed load.\<close>

definition pub_cache_ok :: "blockstore \<Rightarrow> (string, public_file) lru_cache \<Rightarrow> bool" where
  "pub_cache_ok st c \<longleftrightarrow> lru_inv c \<and>
     list_all (\<lambda>(k, pf). pf_path pf = [] \<or> pf_path pf = bs_pub_dir st @ k) (lru_container c)"

lemma pf_destroy_frame:
  assumes "fs_spec fs nd" and "q \<noteq> pf_path pf"
  shows "nd (pf_destroy fs pf w) q = nd w q"
proof -
  obtain r w' where run: "fs_remove fs (pf_path pf) w = (r, w')" by fastforce
  from fs_remove_effect [OF assms(1) run] assms(2) run show ?thesis by (auto simp: pf_destroy_def)
qed

lemma bs_get_file_miss:
  assumes fs: "fs_spec fs nd" and c: "bs_pubfile_cache st = Some c" "pub_cache_ok st c"
    and miss: "i \<notin> set (lru_get_keys c)" and i: "i \<noteq> []"
    and load: "bs_load_file fs ovr st i w = (r, w1)"
    and run: "bs_get_file fs ovr i res (st, w) = (r', (st', w'))"
  shows "r' = (case r of Return pf \<Rightarrow> Return (if pf_good pf then (True, pf_path pf) else (False, res))
      | Throw e \<Rightarrow> Throw e | Stuck \<Rightarrow> Stuck)"
    and "nd w' (bs_pub_dir st @ i) = nd w1 (bs_pub_dir st @ i)"
proof -
  have none: "map_of (lru_container c) i = None"
    using miss by (simp add: lru_get_keys_def map_of_eq_None_iff)
  have inv: "lru_inv c" using c by (simp add: pub_cache_ok_def)
  have "r' = (case r of Return pf \<Rightarrow> Return (if pf_good pf then (True, pf_path pf) else (False, res))
      | Throw e \<Rightarrow> Throw e | Stuck \<Rightarrow> Stuck) \<and> nd w' (bs_pub_dir st @ i) = nd w1 (bs_pub_dir st @ i)"
  proof (cases r)
    case (Return pf)
    from inv none obtain ev c1 where ins: "lru_insert i pf c = Return (ev, c1)" by (rule lru_insert_ok)
    have "bs_pub_dir st @ i \<noteq> pf_path u" if ev: "ev = Some u" for u
    proof -
      have "u \<in> snd ` set (lru_container c)"
        using ins ev by (auto simp: lru_insert_def Let_def split: if_splits list.splits)
      then obtain k where "(k, u) \<in> set (lru_container c)" by force
      moreover from this miss have "k \<noteq> i" by (force simp: lru_get_keys_def)
      ultimately show ?thesis using c(2) i by (auto simp: pub_cache_ok_def list_all_iff)
    qed
    with run load Return ins none c show ?thesis
      by (cases ev) (auto simp: bs_get_file_def lru_call_def Let_def pf_destroy_frame [OF fs])
  qed (use run load none c in \<open>auto simp: bs_get_file_def lru_call_def Let_def\<close>)
  then show "r' = (case r of Return pf \<Rightarrow> Return (if pf_good pf then (True, pf_path pf) else (False, res))
      | Throw e \<Rightarrow> Throw e | Stuck \<Rightarrow> Stuck)" and "nd w' (bs_pub_dir st @ i) = nd w1 (bs_pub_dir st @ i)" by auto
qed

section \<open>Keys and values read back\<close>

lemma bs_load_block_found:
  assumes "fs_spec fs nd" and "128 \<le> length i" and "nd w (block_file st i) = Some (File v)" and "length v < 2 ^ 32"
  shows "bs_load_block fs st i w = (Return \<lparr>blk_data = v, blk_size = length v\<rparr>, w)"
  using assms fs_read_file [OF assms(1), of w "block_file st i" v] follow_File [of "nd w" "block_file st i" v]
  by (simp add: bs_load_block_def hash_to_path_ok io_simps block_file_def)

lemma bs_load_block_missing:
  assumes "fs_spec fs nd" and "128 \<le> length i" and "follow (nd w) (block_file st i) = None"
  shows "bs_load_block fs st i w = (Throw File_not_found, w)"
  using assms fs_read_missing [OF assms(1), of w "block_file st i"]
  by (simp add: bs_load_block_def hash_to_path_ok io_simps block_file_def)

text \<open>A block that is loaded is answered, and remembered.\<close>

lemma bs_kv_get_block:
  assumes fs: "fs_spec fs nd" and H: "sha512_size H" and cache: "bs_block_cache st = Some c" "lru_inv c"
    and miss: "validate_key H k \<notin> set (lru_get_keys c)"
    and blk: "nd w (block_file st (validate_key H k)) = Some (File v)" "length v < 2 ^ 32"
  shows "\<exists>c'. bs_kv_get H fs k (st, w) = (Return (True, [(toHex (H v), v)]), (st\<lparr>bs_block_cache := Some c'\<rparr>, w))
    \<and> map_of (lru_container c') (validate_key H k) = Some \<lparr>blk_data = v, blk_size = length v\<rparr>"
proof -
  let ?k = "validate_key H k" and ?v = "\<lparr>blk_data = v, blk_size = length v\<rparr>"
  have load: "bs_load_block fs st ?k w = (Return ?v, w)"
    using fs length_validate_key [OF H] blk by (rule bs_load_block_found)
  have none: "map_of (lru_container c) ?k = None"
    using miss by (simp add: lru_get_keys_def map_of_eq_None_iff)
  obtain ev c1 where ins: "lru_insert ?k ?v c = Return (ev, c1)"
    and con: "lru_container c1 = drop (Suc (length (lru_container c)) - lru_capacity c) (lru_container c) @ [(?k, ?v)]"
    using cache(2) none by (rule lru_insert_ok)
  have "map_of (drop n (lru_container c)) ?k = None" for n
    using none by (auto simp: map_of_eq_None_iff dest: in_set_dropD)
  then have "map_of (lru_container c1) ?k = Some ?v" by (simp add: con map_add_Some_iff)
  moreover have "bs_kv_get H fs k (st, w) = (Return (True, [(toHex (H v), v)]), (st\<lparr>bs_block_cache := Some c1\<rparr>, w))"
    using load none ins cache by (cases ev) (simp_all add: bs_kv_get_def lru_call_def Let_def)
  ultimately show ?thesis by blast
qed

text \<open>A value put under a key nothing is stored for.\<close>

lemma bs_kv_put_unique:
  assumes fs: "fs_spec fs nd" and H: "sha512_size H" and link: "no_links (bs_unique_dir st) (nd w)"
    and k: "validate_key H k = toHex (H v)" and put: "bs_kv_put H fs st k v w = (Return True, w')"
  shows "nd w' (block_file st (validate_key H k)) = Some (File v)"
proof -
  let ?f = "block_file st (toHex (H v))"
  obtain w1 w2 where dirs: "require_directories fs (remove_filename ?f) w = (Return True, w1)"
    and opened: "fs_open_write fs ?f w1 = (True, w2)" and w': "w' = fs_append fs ?f v w2"
    using put k hash_to_path_hash [OF H, of v]
    by (auto simp: bs_kv_put_def bs_store_block_def Let_def block_file_def
        elim!: io_bind_returnE split: if_splits prod.splits bool.splits)
  have "nd w ?f \<noteq> Some (Symlink t)" for t using link by (simp add: no_links_def block_file_def)
  from write_path_effect [OF fs this dirs opened, of v] show ?thesis by (auto simp: w' k)
qed

definition mid_dir :: "(string \<Rightarrow> string) \<Rightarrow> blockstore \<Rightarrow> string \<Rightarrow> string" where
  "mid_dir H st k = bs_mid_dir st @ hpath (validate_key H k)"

lemma bs_kv_put_mid:
  assumes fs: "fs_spec fs nd" and H: "sha512_size H" and ap: "apart (bs_unique_dir st) (bs_mid_dir st)"
    and k: "validate_key H k \<noteq> toHex (H v)"
    and empty: "children (nd w) (mid_dir H st k) = {}"
    and missing: "nd w (block_file st (validate_key H k)) = None"
    and put: "bs_kv_put H fs st k v w = (Return True, w')"
  shows "nd w' (mid_dir H st k) = Some Dir" and "children (nd w') (mid_dir H st k) = {mid_dir H st k @ slash # toHex (H v)}"
    and "nd w' (mid_dir H st k @ slash # toHex (H v)) = Some (File v)"
    and "nd w' (block_file st (validate_key H k)) = None"
proof -
  let ?d = "mid_dir H st k"
  let ?f = "?d @ slash # toHex (H v)"
  have rf: "remove_filename (?d @ ''/x'') = ?d" using remove_filename_snoc [of "''x''" ?d] by simp
  obtain w1 w2 where dirs: "require_directories fs ?d w = (Return True, w1)"
    and opened: "fs_open_write fs ?f w1 = (True, w2)" and w': "w' = fs_append fs ?f v w2"
    using put k hash_to_path_validated [OF H, of k] rf
    by (auto simp: bs_kv_put_def Let_def mid_dir_def
        elim!: io_bind_returnE split: if_splits prod.splits bool.splits)
  note eff = require_directories_effect(2) [OF fs dirs]
  have nochild: "nd w (?d @ slash # n) = None" if "n \<noteq> []" "slash \<notin> set n" for n
    using empty that unfolding children_def by blast
  have hex: "toHex (H v) \<noteq> []" using H by (metis length_hash length_toHex list.size(3) mult_eq_0_iff zero_neq_numeral)
  have notbelow: "\<not> below (?d @ slash # n) ?d" for n
    by (auto simp: below_def prefix_def)
  have nochild1: "nd w1 (?d @ slash # n) = None" if "n \<noteq> []" "slash \<notin> set n" for n
    using dirs_added_cases [OF eff, of "?d @ slash # n"] nochild [OF that] notbelow by auto
  have "nd w1 ?f \<noteq> Some (Symlink t)" for t using nochild1 [OF hex] by simp
  note wr = fs_open_write_effect [OF fs opened this]
  have w2: "nd w2 = (nd w1)(?f \<mapsto> File [])" using wr(1) by simp
  have w'': "nd w' = (nd w1)(?f \<mapsto> File v)"
    unfolding w' using fs_append_effect [OF fs, of w2 ?f "[]" v] by (simp add: w2)
  have "?d \<noteq> []" by (simp add: mid_dir_def hpath_def)
  then have dir: "nd w1 ?d = Some Dir" using wr(2) by (simp add: parent_ok_def)
  then show "nd w' ?d = Some Dir" by (simp add: w'')
  show "nd w' ?f = Some (File v)" by (simp add: w'')
  show "children (nd w') ?d = {?f}"
  proof (rule set_eqI)
    fix q show "q \<in> children (nd w') ?d \<longleftrightarrow> q \<in> {?f}"
      using nochild1 hex by (cases "q = ?f") (auto simp: children_def w'')
  qed
  have "\<not> below (block_file st (validate_key H k)) ?d" "block_file st (validate_key H k) \<noteq> ?f"
    using ap not_below_apart [OF ap] apart_append_neq [OF ap] by (simp_all add: block_file_def mid_dir_def)
  then show "nd w' (block_file st (validate_key H k)) = None"
    using dirs_added_cases [OF eff, of "block_file st (validate_key H k)"] missing by (auto simp: w'')
qed

lemma bs_kv_get_mid_single:
  assumes fs: "fs_spec fs nd" and H: "sha512_size H"
    and "nd w (mid_dir H st k) = Some Dir" and "children (nd w) (mid_dir H st k) = {f}"
    and "nd w f = Some (File v)"
  shows "bs_kv_get_mid H fs st (validate_key H k) [] w = (Return (True, [(toHex (H v), v)]), w)"
proof -
  obtain qs where qs: "fs_directory fs (mid_dir H st k) w = (Return qs, w)" "distinct qs" "set qs = {f}"
    using fs_directory_dir [OF fs assms(3)] assms(4) by metis
  then have "qs = [f]" by (metis distinct_singleton list.set_intros(1) remdups_id_iff_distinct set_eq_iff singletonD distinct.simps(2) empty_iff empty_set insert_iff list.exhaust list.simps(15))
  moreover have "fs_is_directory fs (mid_dir H st k) w"
    using fs_is_directory_iff [OF fs] follow_Dir [of "nd w", OF assms(3)] by simp
  moreover have "fs_read fs f w = Some v" using fs_read_file [OF fs follow_File] assms(5) by blast
  ultimately show ?thesis
    using hash_to_path_validated [OF H, of k] qs(1)
    by (simp add: bs_kv_get_mid_def io_simps Let_def mid_dir_def)
qed

section \<open>Properties\<close>

text \<open>
  C12: A file that \<open>store_file\<close> has accepted under a new id is handed out by \<open>get_file\<close> (when its id
  is not cached) at the public path of its id, or \<open>file_not_found\<close> is thrown because the public file
  cannot be opened; there is no other answer. The public file has the stored content exactly when the
  file fits one block or no two different blocks of it were given the same id. Full blocks are hashed
  only up to their first zero byte, so the second condition can fail for ordinary files. The four
  largest sizes that fit one block are excluded: see the next property.
\<close>

theorem bs_file_round_trip:
  assumes fs: "fs_spec fs nd" and H: "sha512_size H" and wf: "bs_wf st"
    and link: "no_links (bs_unique_dir st) (nd w)" "no_links (bs_pub_dir st) (nd w)"
    and src: "follow (nd w) src = Some (File c)" and small: "length c < 2 ^ 32"
    and size: "length c \<le> bs_blocksize st - 4 \<or> bs_blocksize st < length c"
    and fresh: "nd w (block_file st (toHex (H c))) = None"
    and own: "toHex (H c) \<notin> fst ` set (blocks_of H ovr (bs_blocksize st) 1 c)"
    and store: "bs_store_file H fs ovr st src res w = (Return (True, i), w1)"
    and cache: "bs_pubfile_cache st = Some pc" "pub_cache_ok st pc" "i \<notin> set (lru_get_keys pc)"
    and get: "bs_get_file fs ovr' i res' (st, w1) = (r, (st', w2))"
  shows "i = toHex (H c) \<and> (r = Throw File_not_found \<or>
    r = Return (True, bs_pub_dir st @ i)
    \<and> (nd w2 (bs_pub_dir st @ i) = Some (File c) \<longleftrightarrow>
         length c \<le> bs_blocksize st \<or> blocks_consistent (blocks_of H ovr (bs_blocksize st) 1 c)))"
proof -
  note st = bs_store_file_stored [OF fs H wf src small link(1) fresh own store]
  have nl: "no_links (bs_pub_dir st) (nd w1)"
    using link(2) st(3)
  proof (rule no_links_grown)
    fix p t assume "bs_pub_dir st @ p \<in> insert (block_file st i) (block_file st ` fst ` set (blocks_of H ovr (bs_blocksize st) 1 c))"
    then show "nd w1 (bs_pub_dir st @ p) \<noteq> Some (Symlink t)"
      using wf apart_append_neq [OF apart_sym] by (fastforce simp: bs_wf_def block_file_def)
  qed
  obtain r1 w' where load: "bs_load_file fs ovr' st i w1 = (r1, w')" by fastforce
  have ne: "i \<noteq> []" using H st(1) by (metis length_hash length_toHex list.size(3) mult_eq_0_iff zero_neq_numeral)
  have b: "0 < bs_blocksize st" using wf by (simp add: bs_wf_def)
  from bs_load_file_stored [OF fs H wf small size st(2) nl load [unfolded st(1)]]
    bs_get_file_miss [OF fs cache ne load get] read_back_iff [OF b, of H ovr c]
  show ?thesis by (auto simp: st(1))
qed

text \<open>
  C28: A file of one of the four largest sizes that fit one block is stored inline, with its id
  returned and true, but is read as a list of block ids: \<open>get_file\<close> answers false or throws,
  unless the first 128 bytes of the file happen to be the id of a stored block.
\<close>

theorem bs_inline_boundary:
  assumes fs: "fs_spec fs nd" and H: "sha512_size H" and wf: "bs_wf st" "132 \<le> bs_blocksize st"
    and link: "no_links (bs_unique_dir st) (nd w)" "no_links (bs_pub_dir st) (nd w)"
    and src: "follow (nd w) src = Some (File c)"
    and size: "bs_blocksize st - 4 < length c" "length c \<le> bs_blocksize st"
    and fresh: "nd w (block_file st (toHex (H c))) = None"
    and store: "bs_store_file H fs ovr st src res w = (Return (True, i), w1)"
    and noblock: "nd w1 (block_file st (take 128 c)) = None"
    and cache: "bs_pubfile_cache st = Some pc" "pub_cache_ok st pc" "i \<notin> set (lru_get_keys pc)"
    and get: "bs_get_file fs ovr' i res' (st, w1) = (r, (st', w2))"
  shows "r = Throw File_not_found \<or> r = Return (False, res')"
proof -
  have small: "length c < 2 ^ 32" using size wf(1) by (simp add: bs_wf_def)
  have b: "0 < bs_blocksize st" using wf(2) by simp
  obtain m w0 where i: "i = toHex (H c)" and m: "grown (nd w) m {}"
    and w0: "nd w0 = m(block_file st i \<mapsto> File (le_bytes 4 (length c)))"
    and w1: "w1 = fs_append fs (block_file st i) c w0"
    using bs_store_file_start [OF fs H b src small link(1) fresh store] size(2) by auto
  have hdr: "nd w1 (block_file st i) = Some (File (le_bytes 4 (length c) @ c))"
    unfolding w1 using fs_append_effect [OF fs, of w0 "block_file st i"] by (simp add: w0)
  have rd: "fs_read fs (bs_unique_dir st @ hpath i) w1 = Some (le_bytes 4 (length c) @ c)"
    using fs_read_file [OF fs, of w1 "block_file st i"] follow_File [of "nd w1", OF hdr] by (simp add: block_file_def)
  have ap: "apart (bs_unique_dir st) (bs_pub_dir st)" using wf(1) by (simp add: bs_wf_def)
  have g1: "grown (nd w) (nd w1) {block_file st i}"
    unfolding w1 using fs_append_effect [OF fs, of w0 "block_file st i"]
    by (simp add: w0) (intro grown_upd grown_mono [OF m]; simp)
  have nl: "no_links (bs_pub_dir st) (nd w1)"
    using link(2) g1 by (rule no_links_grown) (use hdr in auto)
  obtain o1 wo where opened: "fs_open_write fs (bs_pub_dir st @ i) w1 = (o1, wo)" by fastforce
  have wo: "nd wo = (if o1 then (nd w1)(bs_pub_dir st @ i \<mapsto> File []) else nd w1)"
    using fs_open_write_effect(1) [OF fs opened] nl by (simp add: no_links_def)
  have nb: "fs_read fs (bs_unique_dir st @ hpath (take 128 c)) wo = None"
    using fs_read_missing [OF fs follow_missing, of wo "block_file st (take 128 c)"] noblock apart_append_neq [OF ap]
    by (auto simp: wo block_file_def)
  have len: "length i = 128" using H i by simp
  have sub: "size_t_minus (bs_blocksize st) 4 = bs_blocksize st - 4"
    using wf by (intro size_t_minus_ge) (auto simp: bs_wf_def)
  have loop: "fst (bs_load_blocks fs ovr' st (bs_pub_dir st @ i) True 0 c wo)
      \<in> {Throw File_not_found, Return (Some \<lparr>pf_path = [], pf_good = False\<rparr>)}"
    using nb size wf(2) by (subst bs_load_blocks.simps) (auto simp: HASH_SIZE_def Let_def hash_to_path_ok)
  obtain r1 w' where load: "bs_load_file fs ovr' st i w1 = (r1, w')" by fastforce
  have "r1 = Throw File_not_found \<or> r1 = Return \<lparr>pf_path = [], pf_good = False\<rparr>"
    using load opened rd loop len size small
    by (auto simp: bs_load_file_def hash_to_path_ok io_simps Let_def sub le_value_bytes
        split: bool.splits prod.splits if_splits)
  moreover have "i \<noteq> []" using len by auto
  ultimately show ?thesis using bs_get_file_miss(1) [OF fs cache _ load get] by auto
qed

text \<open>
  C15: A value put under a key that has nothing stored is what the next \<open>kv_get\<close> of the key returns,
  filed under the hash of its content, both for a block (the key is the value's hash) and for other keys.
\<close>

theorem bs_kv_put_get:
  assumes fs: "fs_spec fs nd" and H: "sha512_size H" and ap: "apart (bs_unique_dir st) (bs_mid_dir st)"
    and link: "no_links (bs_unique_dir st) (nd w)" and v: "length v < 2 ^ 32"
    and cache: "bs_block_cache st = Some c" "lru_inv c" and miss: "validate_key H k \<notin> set (lru_get_keys c)"
    and empty: "children (nd w) (mid_dir H st k) = {}" "nd w (block_file st (validate_key H k)) = None"
    and put: "bs_kv_put H fs st k v w = (Return True, w')"
  shows "fst (bs_kv_get H fs k (st, w')) = Return (True, [(toHex (H v), v)])"
proof (cases "validate_key H k = toHex (H v)")
  case True
  from bs_kv_get_block [OF fs H cache miss bs_kv_put_unique [OF fs H link True put] v] show ?thesis by auto
next
  case False
  note eff = bs_kv_put_mid [OF fs H ap False empty put]
  have load: "bs_load_block fs st (validate_key H k) w' = (Throw File_not_found, w')"
    using fs length_validate_key [OF H] follow_missing [of "nd w'", OF eff(4)] by (rule bs_load_block_missing)
  have none: "map_of (lru_container c) (validate_key H k) = None"
    using miss by (simp add: lru_get_keys_def map_of_eq_None_iff)
  have "bs_kv_get_mid H fs (st\<lparr>bs_block_cache := Some c\<rparr>) (validate_key H k) [] w'
      = (Return (True, [(toHex (H v), v)]), w')"
    using bs_kv_get_mid_single [OF fs H, of w' st k _ v] eff by (simp add: bs_kv_get_mid_def)
  with load none cache show ?thesis
    by (simp add: bs_kv_get_def lru_call_def Let_def lift_fs_def)
qed

text \<open>
  C29: A block that was read stays readable after \<open>kv_remove\<close> returned true and its file is gone: the
  block cache is not told.
\<close>

theorem bs_kv_remove_stale:
  assumes fs: "fs_spec fs nd" and H: "sha512_size H" and cache: "bs_block_cache st = Some c" "lru_inv c"
    and miss: "validate_key H k \<notin> set (lru_get_keys c)"
    and blk: "nd w (block_file st (validate_key H k)) = Some (File v)" "length v < 2 ^ 32"
    and get: "bs_kv_get H fs k (st, w) = (r, (st', w1))"
    and rem: "bs_kv_remove H fs st' k w1 = (Return True, w2)"
  shows "r = Return (True, [(toHex (H v), v)]) \<and> nd w2 (block_file st' (validate_key H k)) = None
    \<and> fst (bs_kv_get H fs k (st', w2)) = r"
proof -
  let ?k = "validate_key H k"
  obtain c' where eq: "bs_kv_get H fs k (st, w) = (Return (True, [(toHex (H v), v)]), (st\<lparr>bs_block_cache := Some c'\<rparr>, w))"
    and hit: "map_of (lru_container c') ?k = Some \<lparr>blk_data = v, blk_size = length v\<rparr>"
    using bs_kv_get_block [OF fs H cache miss blk] by blast
  from eq get have r: "r = Return (True, [(toHex (H v), v)])" and st': "st' = st\<lparr>bs_block_cache := Some c'\<rparr>" and w1: "w1 = w"
    by auto
  obtain b w3 where rm: "fs_remove fs (block_file st ?k) w = (Return b, w3)" and "b \<Longrightarrow> w2 = w3"
    using rem hash_to_path_validated [OF H, of k]
    by (auto simp: bs_kv_remove_def st' w1 Let_def block_file_def elim!: io_bind_returnE split: if_splits)
  with fs_remove_effect [OF fs rm] blk(1) have "nd w2 (block_file st' ?k) = None" by (auto simp: st' block_file_def)
  moreover have "fst (bs_kv_get H fs k (st', w2)) = r"
    using hit by (simp add: bs_kv_get_def lru_call_def Let_def st' r)
  ultimately show ?thesis using r by simp
qed

end
