(* ===== verification/BlockstoreRuns.thy ===== *)
theory BlockstoreRuns
  imports Blockstore "HOL-Library.Code_Target_Nat"
begin

text \<open>
  Concrete runs of the block store on the in-memory file system, with \<^const>\<open>pad64\<close> for the digest:
  a store with blocks of eight bytes and a text and a binary file to put into it, and one with blocks
  of 132 bytes and a file of 130. Natural numbers are evaluated in binary here.
\<close>

definition bs_st0 :: blockstore where
  "bs_st0 = \<lparr>bs_path = ''/b/'', bs_pub_dir = ''/p/'', bs_mid_dir = ''/m/'', bs_unique_dir = ''/u/'', bs_data_dir = ''/'',
     bs_blocksize = 8, bs_block_cache = Some \<lparr>lru_capacity = 1, lru_container = []\<rparr>,
     bs_pubfile_cache = Some \<lparr>lru_capacity = 1, lru_container = []\<rparr>\<rparr>"

definition bs_text :: string where
  "bs_text = ''one block after another''"

definition bs_zeros :: string where
  "bs_zeros = CHR 0x00 # ''AAAAAAA'' @ CHR 0x00 # ''BBBBBBB'' @ ''C''"

definition bs_w0 :: posix where
  "bs_w0 = \<lparr>px_nodes = [(''/u'', Dir), (''/p'', Dir), (''/m'', Dir), (''/t'', File bs_text), (''/z'', File bs_zeros)],
     px_denied = []\<rparr>"

definition no_ovr :: "nat \<Rightarrow> string" where
  "no_ovr n = []"

definition bs_run :: "string \<Rightarrow> (bool \<times> string) outcome \<times> posix" where
  "bs_run f = bs_store_file pad64 posix_ops no_ovr bs_st0 f [] bs_w0"

definition bs_fetch :: "string \<Rightarrow> (bool \<times> string) outcome \<times> blockstore \<times> posix" where
  "bs_fetch f = bs_get_file posix_ops no_ovr (toHex (HashFile pad64 posix_ops f bs_w0)) [] (bs_st0, snd (bs_run f))"

lemma bs_store_text: "fst (bs_run ''/t'') = Return (True, toHex (pad64 bs_text))"
  by code_simp

lemma bs_store_zeros: "fst (bs_run ''/z'') = Return (True, toHex (pad64 bs_zeros))"
  by code_simp

lemma bs_fetch_text: "fst (bs_fetch ''/t'') = Return (True, ''/p/'' @ toHex (pad64 bs_text))"
  by code_simp

lemma bs_fetch_zeros: "fst (bs_fetch ''/z'') = Return (True, ''/p/'' @ toHex (pad64 bs_zeros))"
  by code_simp

lemma bs_blocks_text: "blocks_consistent (blocks_of pad64 no_ovr 8 1 bs_text)
    \<and> toHex (pad64 bs_text) \<notin> fst ` set (blocks_of pad64 no_ovr 8 1 bs_text)"
  by code_simp

lemma bs_blocks_zeros: "\<not> blocks_consistent (blocks_of pad64 no_ovr 8 1 bs_zeros)
    \<and> toHex (pad64 bs_zeros) \<notin> fst ` set (blocks_of pad64 no_ovr 8 1 bs_zeros)"
  by code_simp

lemma bs_concrete:
  "bs_wf bs_st0" "no_links (bs_unique_dir bs_st0) (posix_nd bs_w0)" "no_links (bs_pub_dir bs_st0) (posix_nd bs_w0)"
  "bs_blocksize bs_st0 = 8" "bs_pub_dir bs_st0 = ''/p/''"
  "bs_pubfile_cache bs_st0 = Some \<lparr>lru_capacity = 1, lru_container = []\<rparr>"
  "pub_cache_ok bs_st0 \<lparr>lru_capacity = 1, lru_container = []\<rparr>"
  "follow (posix_nd bs_w0) ''/t'' = Some (File bs_text)" "follow (posix_nd bs_w0) ''/z'' = Some (File bs_zeros)"
  "posix_nd bs_w0 (block_file bs_st0 i) = None"
  "length bs_text = 23" "length bs_zeros = 17"
  by (auto simp: bs_wf_def bs_st0_def bs_w0_def no_links_def posix_nd_def apart_def pub_cache_ok_def lru_inv_def
      follow_def block_file_def bs_text_def bs_zeros_def hpath_def)

theorem bs_file_round_trip_witness:
  "posix_nd (snd (snd (bs_fetch ''/t''))) (''/p/'' @ toHex (pad64 bs_text)) = Some (File bs_text)
   \<and> posix_nd (snd (snd (bs_fetch ''/z''))) (''/p/'' @ toHex (pad64 bs_zeros)) \<noteq> Some (File bs_zeros)"
proof -
  have t: "bs_store_file pad64 posix_ops no_ovr bs_st0 ''/t'' [] bs_w0 = (Return (True, toHex (pad64 bs_text)), snd (bs_run ''/t''))"
    using bs_store_text by (simp add: bs_run_def prod_eq_iff)
  have z: "bs_store_file pad64 posix_ops no_ovr bs_st0 ''/z'' [] bs_w0 = (Return (True, toHex (pad64 bs_zeros)), snd (bs_run ''/z''))"
    using bs_store_zeros by (simp add: bs_run_def prod_eq_iff)
  have ht: "HashFile pad64 posix_ops ''/t'' bs_w0 = pad64 bs_text" and hz: "HashFile pad64 posix_ops ''/z'' bs_w0 = pad64 bs_zeros"
    using fs_read_file [OF posix_fs_spec bs_concrete(8)] fs_read_file [OF posix_fs_spec bs_concrete(9)]
    by (simp_all add: HashFile_def)
  have gt: "bs_get_file posix_ops no_ovr (toHex (pad64 bs_text)) [] (bs_st0, snd (bs_run ''/t''))
      = (Return (True, ''/p/'' @ toHex (pad64 bs_text)), snd (bs_fetch ''/t''))"
    using bs_fetch_text by (simp add: bs_fetch_def ht prod_eq_iff)
  have gz: "bs_get_file posix_ops no_ovr (toHex (pad64 bs_zeros)) [] (bs_st0, snd (bs_run ''/z''))
      = (Return (True, ''/p/'' @ toHex (pad64 bs_zeros)), snd (bs_fetch ''/z''))"
    using bs_fetch_zeros by (simp add: bs_fetch_def hz prod_eq_iff)
  obtain s1 v1 where f1: "snd (bs_fetch ''/t'') = (s1, v1)" by fastforce
  obtain s2 v2 where f2: "snd (bs_fetch ''/z'') = (s2, v2)" by fastforce
  note rt = bs_file_round_trip [OF posix_fs_spec pad64_size bs_concrete(1-3)]
  have "posix_nd v1 (''/p/'' @ toHex (pad64 bs_text)) = Some (File bs_text)"
    using rt [OF bs_concrete(8) _ _ bs_concrete(10) _ t bs_concrete(6,7) _ gt [unfolded f1]] bs_blocks_text
    by (simp add: bs_concrete lru_get_keys_def)
  moreover have "posix_nd v2 (''/p/'' @ toHex (pad64 bs_zeros)) \<noteq> Some (File bs_zeros)"
    using rt [OF bs_concrete(9) _ _ bs_concrete(10) _ z bs_concrete(6,7) _ gz [unfolded f2]] bs_blocks_zeros
    by (simp add: bs_concrete lru_get_keys_def)
  ultimately show ?thesis by (simp add: f1 f2)
qed

definition bs_long :: string where
  "bs_long = replicate 130 CHR ''x''"

definition bs_st1 :: blockstore where
  "bs_st1 = bs_st0\<lparr>bs_blocksize := 132\<rparr>"

definition bs_w1 :: posix where
  "bs_w1 = \<lparr>px_nodes = [(''/u'', Dir), (''/p'', Dir), (''/m'', Dir), (''/l'', File bs_long)], px_denied = []\<rparr>"

definition bs_long_run :: "(bool \<times> string) outcome \<times> posix" where
  "bs_long_run = bs_store_file pad64 posix_ops no_ovr bs_st1 ''/l'' [] bs_w1"

lemma bs_long_run: "fst bs_long_run = Return (True, toHex (pad64 bs_long))"
  "posix_nd (snd bs_long_run) (block_file bs_st1 (take 128 bs_long)) = None"
  by code_simp+

lemma bs_concrete1:
  "bs_wf bs_st1" "132 \<le> bs_blocksize bs_st1"
  "no_links (bs_unique_dir bs_st1) (posix_nd bs_w1)" "no_links (bs_pub_dir bs_st1) (posix_nd bs_w1)"
  "follow (posix_nd bs_w1) ''/l'' = Some (File bs_long)"
  "bs_blocksize bs_st1 - 4 < length bs_long" "length bs_long \<le> bs_blocksize bs_st1"
  "posix_nd bs_w1 (block_file bs_st1 i) = None"
  "bs_pubfile_cache bs_st1 = Some \<lparr>lru_capacity = 1, lru_container = []\<rparr>"
  "pub_cache_ok bs_st1 \<lparr>lru_capacity = 1, lru_container = []\<rparr>"
  by (simp_all add: bs_wf_def bs_st1_def bs_st0_def bs_w1_def no_links_def posix_nd_def apart_def pub_cache_ok_def
      lru_inv_def follow_def block_file_def bs_long_def hpath_def)

theorem bs_inline_boundary_witness:
  "fst bs_long_run = Return (True, toHex (pad64 bs_long))
   \<and> fst (bs_get_file posix_ops no_ovr (toHex (pad64 bs_long)) [] (bs_st1, snd bs_long_run))
       \<in> {Throw File_not_found, Return (False, [])}"
proof -
  have t: "bs_store_file pad64 posix_ops no_ovr bs_st1 ''/l'' [] bs_w1 = (Return (True, toHex (pad64 bs_long)), snd bs_long_run)"
    using bs_long_run(1) by (simp add: bs_long_run_def prod_eq_iff)
  obtain r s v where g: "bs_get_file posix_ops no_ovr (toHex (pad64 bs_long)) [] (bs_st1, snd bs_long_run) = (r, (s, v))"
    by (metis prod.exhaust)
  from bs_inline_boundary [OF posix_fs_spec pad64_size bs_concrete1(1-8) t bs_long_run(2) bs_concrete1(9,10) _ g]
  show ?thesis using bs_long_run(1) g by (simp add: lru_get_keys_def)
qed

definition bs_put :: "string \<Rightarrow> bool outcome \<times> posix" where
  "bs_put k = bs_kv_put pad64 posix_ops bs_st0 k ''value'' bs_w0"

lemma bs_put_run: "fst (bs_put ''key'') = Return True" "fst (bs_put (toHex (pad64 ''value''))) = Return True"
  by code_simp+

lemma bs_put_block: "posix_nd (snd (bs_put (toHex (pad64 ''value'')))) (block_file bs_st0 (toHex (pad64 ''value''))) = Some (File ''value'')"
  by code_simp

lemma bs_concrete2:
  "apart (bs_unique_dir bs_st0) (bs_mid_dir bs_st0)"
  "bs_block_cache bs_st0 = Some \<lparr>lru_capacity = 1, lru_container = []\<rparr>"
  "lru_inv \<lparr>lru_capacity = 1, lru_container = []\<rparr>"
  "children (posix_nd bs_w0) (mid_dir pad64 bs_st0 k) = {}"
  by (auto simp: bs_st0_def bs_w0_def posix_nd_def apart_def lru_inv_def children_def mid_dir_def hpath_def)

theorem bs_kv_put_get_witness:
  "fst (bs_kv_get pad64 posix_ops ''key'' (bs_st0, snd (bs_put ''key''))) = Return (True, [(toHex (pad64 ''value''), ''value'')])"
proof -
  have "bs_kv_put pad64 posix_ops bs_st0 ''key'' ''value'' bs_w0 = (Return True, snd (bs_put ''key''))"
    using bs_put_run(1) by (simp add: bs_put_def prod_eq_iff)
  from bs_kv_put_get [OF posix_fs_spec pad64_size bs_concrete2(1) bs_concrete(2) _ bs_concrete2(2,3) _ bs_concrete2(4) bs_concrete(10) this]
  show ?thesis by (simp add: lru_get_keys_def)
qed

definition bs_read :: "(bool \<times> kv_res) outcome \<times> blockstore \<times> posix" where
  "bs_read = bs_kv_get pad64 posix_ops (toHex (pad64 ''value'')) (bs_st0, snd (bs_put (toHex (pad64 ''value''))))"

lemma bs_remove_run: "fst (bs_kv_remove pad64 posix_ops (fst (snd bs_read)) (toHex (pad64 ''value'')) (snd (snd bs_read))) = Return True"
  by code_simp

theorem bs_kv_remove_stale_witness:
  "fst (bs_kv_get pad64 posix_ops (toHex (pad64 ''value''))
      (fst (snd bs_read), snd (bs_kv_remove pad64 posix_ops (fst (snd bs_read)) (toHex (pad64 ''value'')) (snd (snd bs_read)))))
   = Return (True, [(toHex (pad64 ''value''), ''value'')])"
proof -
  let ?k = "toHex (pad64 ''value'')"
  have k: "validate_key pad64 ?k = ?k" using pad64_size by (simp add: validate_key_def)
  have get: "bs_kv_get pad64 posix_ops ?k (bs_st0, snd (bs_put ?k)) = (fst bs_read, (fst (snd bs_read), snd (snd bs_read)))"
    by (simp add: bs_read_def)
  obtain w where rem: "bs_kv_remove pad64 posix_ops (fst (snd bs_read)) ?k (snd (snd bs_read)) = (Return True, w)"
    using bs_remove_run by (metis prod.collapse)
  from bs_kv_remove_stale [OF posix_fs_spec pad64_size bs_concrete2(2,3) _ _ _ get rem, of "''value''"]
  show ?thesis using bs_put_block by (simp add: k rem lru_get_keys_def)
qed

end
