(* ===== verification/Storage.thy ===== *)
theory Storage
  imports Blockstore
begin

text \<open>
  The storage manager, \<open>src/daemon/storage.{h,cc}\<close>: files as vectors of data blocks, loaded through the
  module manager's key-value and block signals and kept in an LRU cache, and the stream operators
  through which the FUSE file system reads and writes them.

  A file's \<open>_current_block\<close> shares a block with its \<open>data_blocks\<close>: it is modelled by the index of that
  block (elements are never removed from the vector); \<open>None\<close> is the null pointer. A member the
  constructor leaves uninitialised is \<open>None\<close> until it is assigned. Reads and writes outside an array,
  an out-of-range subscript, a null pointer and a branch on an uninitialised value are stuck.
  \<open>file::write\<close>, \<open>file::store\<close> and the stream operators lack their \<open>return\<close>; no caller uses the value, so
  it is not modelled. The mounting of the file system (\<open>StorageManager::run\<close>) is left out.
\<close>

section \<open>Files\<close>

definition AN_ID_LENGTH :: nat where
  "AN_ID_LENGTH = 64"

text \<open>\<open>sizeof(block_header)\<close>: an \<open>unsigned long\<close> and \<open>char next[AN_ID_LENGTH]\<close>.\<close>

definition sizeof_block_header :: nat where
  "sizeof_block_header = 8 + AN_ID_LENGTH"

record an_file =
  f_size :: int
  f_read_offset :: int
  f_write_offset :: int
  f_block_ids :: "string list"
  f_data_blocks :: "block option list"
  f_block_offset :: "int option"
  f_current_block :: "nat option"
  f_current_block_id :: nat

definition new_file :: an_file where
  "new_file = \<lparr>f_size = 0, f_read_offset = 0, f_write_offset = 0, f_block_ids = [], f_data_blocks = [],
     f_block_offset = None, f_current_block = None, f_current_block_id = 0\<rparr>"

text \<open>Conversion to a 32-bit \<open>int\<close>.\<close>

definition to_int32 :: "int \<Rightarrow> int" where
  "to_int32 x = (x + 2 ^ 31) mod 2 ^ 32 - 2 ^ 31"

text \<open>\<open>n\<close> bytes at \<open>data + i\<close>, where \<open>data\<close> is the \<open>c_str()\<close> of a string: its bytes and the final zero.\<close>

definition mem_read :: "string \<Rightarrow> nat \<Rightarrow> nat \<Rightarrow> string outcome" where
  "mem_read arr i n = (if i + n \<le> length arr + 1 then Return (take n (drop i (arr @ [CHR 0x00]))) else Stuck)"

text \<open>\<open>block(const char *p, uint s)\<close>\<close>

definition new_block :: "string \<Rightarrow> nat \<Rightarrow> nat \<Rightarrow> block outcome" where
  "new_block arr i n =
     out_bind (mem_read arr i (n mod 2 ^ 32)) (\<lambda>bytes. Return \<lparr>blk_data = bytes, blk_size = n mod 2 ^ 32\<rparr>)"

definition file_add_block :: "an_file \<Rightarrow> block \<Rightarrow> an_file" where
  "file_add_block f b =
     f\<lparr>f_data_blocks := f_data_blocks f @ [Some b], f_size := to_int32 (f_size f + int (blk_size b)),
       f_current_block := Some (length (f_data_blocks f)), f_current_block_id := length (f_data_blocks f)\<rparr>"

text \<open>\<open>data_blocks.front()\<close> of an empty vector is undefined.\<close>

definition file_reset_offset :: "an_file \<Rightarrow> an_file outcome" where
  "file_reset_offset f =
     (if f_data_blocks f = [] then Stuck
      else Return (f\<lparr>f_write_offset := 0, f_block_offset := Some 0, f_current_block_id := 0, f_current_block := Some 0\<rparr>))"

definition file_next_block :: "an_file \<Rightarrow> an_file outcome" where
  "file_next_block f =
     (let k = Suc (f_current_block_id f) in
      if length (f_data_blocks f) \<le> k then Stuck
      else Return (f\<lparr>f_current_block_id := k, f_current_block := Some k, f_block_offset := Some 0\<rparr>))"

text \<open>The integer quotient is computed before \<open>ceil\<close> sees it; it is an error to divide by zero.\<close>

definition file_block_for_offset :: "int \<Rightarrow> int \<Rightarrow> int outcome" where
  "file_block_for_offset bs offset =
     (if bs = 0 then Stuck else Return (to_int32 (if (0 \<le> offset) = (0 < bs) then \<bar>offset\<bar> div \<bar>bs\<bar> else - (\<bar>offset\<bar> div \<bar>bs\<bar>))))"

text \<open>The block \<open>_current_block\<close> points to, and that block replaced.\<close>

definition file_current :: "an_file \<Rightarrow> (nat \<times> block) outcome" where
  "file_current f =
     (case f_current_block f of
        None \<Rightarrow> Stuck
      | Some k \<Rightarrow> if k < length (f_data_blocks f)
          then (case f_data_blocks f ! k of None \<Rightarrow> Stuck | Some b \<Rightarrow> Return (k, b)) else Stuck)"

definition file_set_block :: "an_file \<Rightarrow> nat \<Rightarrow> block \<Rightarrow> an_file" where
  "file_set_block f k b = f\<lparr>f_data_blocks := (f_data_blocks f)[k := Some b]\<rparr>"

text \<open>\<open>memcpy(_current_block->data, data, n)\<close> and \<open>_current_block->size = n\<close>\<close>

definition file_overwrite :: "an_file \<Rightarrow> string \<Rightarrow> nat \<Rightarrow> bool \<Rightarrow> an_file outcome" where
  "file_overwrite f arr n copy =
     out_bind (file_current f) (\<lambda>(k, b).
     if copy then
       (if length (blk_data b) < n then Stuck
        else out_bind (mem_read arr 0 n) (\<lambda>bytes.
          Return (file_set_block f k (b\<lparr>blk_data := bytes @ drop n (blk_data b), blk_size := n mod 2 ^ 32\<rparr>))))
     else Return (file_set_block f k (b\<lparr>blk_size := n mod 2 ^ 32\<rparr>)))"

section \<open>Writing\<close>

lemma file_overwrite_shape:
  "file_overwrite f arr n copy = Return f' \<Longrightarrow>
     length (f_data_blocks f') = length (f_data_blocks f) \<and> f_current_block_id f' = f_current_block_id f"
  by (auto simp: file_overwrite_def file_set_block_def elim!: out_bind_returnE split: if_splits)

lemma file_next_block_shape:
  "file_next_block f = Return f' \<Longrightarrow>
     f_data_blocks f' = f_data_blocks f \<and> f_current_block_id f' = Suc (f_current_block_id f)
     \<and> Suc (f_current_block_id f) < length (f_data_blocks f)"
  by (auto simp: file_next_block_def Let_def split: if_splits)

text \<open>
  The loop of \<open>file::write\<close> for more than one block. Each round after the first moves on to a block
  that must exist already, so it ends.
\<close>

function file_write_loop :: "int \<Rightarrow> string \<Rightarrow> an_file \<Rightarrow> nat \<Rightarrow> int \<Rightarrow> int \<Rightarrow> (an_file \<times> int) outcome" where
  "file_write_loop bs arr f i sz rsize =
     (if sz \<le> 0 then Return (f, rsize)
      else
      let rs = (if sz < bs then sz else rsize) in
      if rs < 0 then Stuck
      else if f_data_blocks f = [] then
        out_bind (new_block arr i (nat rs)) (\<lambda>b.
        file_write_loop bs arr (file_add_block f b) (i + nat rs) (sz - rs) rs)
      else
        (case f_block_offset f of
           None \<Rightarrow> Stuck
         | Some off \<Rightarrow>
             if off < 0 then Stuck
             else
             (case out_bind (file_overwrite f arr (nat rs) (off = 0)) file_next_block of
                Return f' \<Rightarrow> file_write_loop bs arr f' (i + nat rs) (sz - rs) rs
              | Throw e \<Rightarrow> Throw e
              | Stuck \<Rightarrow> Stuck)))"
  by pat_completeness auto

termination
proof (relation "measure (\<lambda>(bs, arr, f, i, sz, rsize).
    if f_data_blocks f = [] then 2 else length (f_data_blocks f) - f_current_block_id f)", goal_cases)
  case (3 bs arr f i sz rsize rs off f')
  from 3(7) obtain f1 where "file_overwrite f arr (nat rs) (off = 0) = Return f1" "file_next_block f1 = Return f'"
    by (rule out_bind_returnE)
  then show ?case by (auto dest!: file_overwrite_shape file_next_block_shape)
qed (auto simp: file_add_block_def)

declare file_write_loop.simps [simp del]

definition file_write :: "int \<Rightarrow> an_file \<Rightarrow> string \<Rightarrow> int \<Rightarrow> an_file outcome" where
  "file_write bs f arr sz =
     (if sz \<le> bs then
        (if sz < 0 then Stuck
         else if f_data_blocks f = [] then
           out_bind (new_block arr 0 (nat sz)) (\<lambda>b. Return (file_add_block f b))
         else file_overwrite f arr (nat sz) True)
      else out_bind (file_write_loop bs arr f 0 sz bs) (\<lambda>(f', rsize). Return (f'\<lparr>f_block_offset := Some rsize\<rparr>)))"

text \<open>\<open>file::store\<close> has an empty body.\<close>

definition file_store :: "an_file \<Rightarrow> an_file" where
  "file_store f = f"

section \<open>The stream operators\<close>

text \<open>\<open>operator<<\<close> writes \<open>size\<close> bytes of every block.\<close>

fun an_file_out :: "block option list \<Rightarrow> string outcome" where
  "an_file_out [] = Return []"
| "an_file_out (None # bs) = Stuck"
| "an_file_out (Some b # bs) =
     (if length (blk_data b) < blk_size b then Stuck
      else out_bind (an_file_out bs) (\<lambda>r. Return (take (blk_size b) (blk_data b) @ r)))"

text \<open>\<open>isspace\<close> in the classic locale.\<close>

definition is_space :: "char \<Rightarrow> bool" where
  "is_space c \<longleftrightarrow> c \<in> {CHR '' '', CHR 0x09, CHR 0x0A, CHR 0x0B, CHR 0x0C, CHR 0x0D}"

definition skip_space :: "string \<Rightarrow> string" where
  "skip_space s = dropWhile is_space s"

definition word_of :: "string \<Rightarrow> string" where
  "word_of s = takeWhile (\<lambda>c. \<not> is_space c) s"

definition rest_of :: "string \<Rightarrow> string" where
  "rest_of s = dropWhile (\<lambda>c. \<not> is_space c) s"

text \<open>
  \<open>is >> buff\<close> on what the stream has left: white space is skipped; at the end of the stream the string
  keeps its value and the stream is no longer good, otherwise the string is the next word and the
  stream stays good if the word was ended by white space.
\<close>

definition read_word :: "string \<Rightarrow> string \<Rightarrow> string \<times> string \<times> bool" where
  "read_word buff s =
     (let r = skip_space s in
      if r = [] then (buff, [], False)
      else (word_of r, rest_of r, rest_of r \<noteq> []))"

lemma length_word_split: "length (word_of s) + length (rest_of s) = length s" "length (skip_space s) \<le> length s"
  by (simp_all add: word_of_def rest_of_def skip_space_def length_dropWhile_le flip: length_append)

lemma word_of_ne: "skip_space s \<noteq> [] \<Longrightarrow> word_of (skip_space s) \<noteq> []"
  using hd_dropWhile [of is_space s] by (cases "skip_space s") (auto simp: word_of_def skip_space_def)

lemma length_rest_of: "skip_space s \<noteq> [] \<Longrightarrow> length (rest_of (skip_space s)) < length s"
  using length_word_split(1) [of "skip_space s"] length_word_split(2) [of s] word_of_ne [of s]
  by (cases "word_of (skip_space s)") auto

text \<open>The loop of \<open>operator>>\<close>: the file, the stream and its state, \<open>buff\<close> and \<open>t_read\<close>.\<close>

function an_file_in_loop :: "int \<Rightarrow> an_file \<Rightarrow> string \<Rightarrow> bool \<Rightarrow> string \<Rightarrow> int \<Rightarrow> (an_file \<times> string \<times> int) outcome" where
  "an_file_in_loop bs f s good buff t_read =
     (if \<not> good then Return (f, buff, t_read)
      else
      (case read_word buff s of
         (buff', s', good') \<Rightarrow>
           let t = t_read + int (length buff') in
           if bs \<le> t then out_bind (file_write bs f buff' t) (\<lambda>f'. an_file_in_loop bs f' s' good' [] 0)
           else an_file_in_loop bs f s' good' buff' t))"
  by pat_completeness auto

termination
  by (relation "measure (\<lambda>(bs, f, s, good, buff, t_read). if good then Suc (length s) else 0)")
     (auto simp: read_word_def Let_def length_rest_of split: if_splits)

declare an_file_in_loop.simps [simp del]

definition an_file_in :: "int \<Rightarrow> an_file \<Rightarrow> string \<Rightarrow> an_file outcome" where
  "an_file_in bs f s =
     out_bind (an_file_in_loop bs f s True [] 0) (\<lambda>(f1, buff, t_read).
     out_bind (if 0 < t_read then file_write bs f1 buff t_read else Return f1) file_reset_offset)"

section \<open>Loading and opening\<close>

text \<open>
  The \<open>for\<close> loop of \<open>load_file\<close>: \<open>n\<close> rounds, each copying the id at \<open>offset\<close>, which never changes, and
  fetching the block of that id.
\<close>

fun load_data_blocks :: "'w module_manager \<Rightarrow> block \<Rightarrow> nat \<Rightarrow> an_file \<Rightarrow> ('w, an_file) io" where
  "load_data_blocks mm header 0 f = io_return f"
| "load_data_blocks mm header (Suc n) f =
     (let offset = sizeof_block_header in
      if length (blk_data header) < offset + AN_ID_LENGTH then io_stuck
      else
      let bid = takeWhile (\<lambda>c. c \<noteq> CHR 0x00) (take AN_ID_LENGTH (drop offset (blk_data header))) in
      io_bind (mm_get_block mm bid None) (\<lambda>(ok, sub).
      if \<not> ok then io_throw (Thrown_int 1)
      else load_data_blocks mm header n
             (f\<lparr>f_block_ids := f_block_ids f @ [bid], f_data_blocks := f_data_blocks f @ [sub]\<rparr>)))"

text \<open>
  An \<open>int\<close> from the \<open>ceil\<close> of a quotient of \<open>unsigned long\<close>s: the division is integral, and a value that
  does not fit is undefined.
\<close>

definition ulong_quotient :: "int \<Rightarrow> int \<Rightarrow> nat outcome" where
  "ulong_quotient a b =
     (let d = b mod 2 ^ 64; q = (a mod 2 ^ 64) div d in
      if d = 0 \<or> 2 ^ 31 \<le> q then Stuck else Return (nat q))"

text \<open>The entries of the result map that end in the magic bytes \<open>DH\<close> name a header block.\<close>

definition is_data_map :: "string \<Rightarrow> bool" where
  "is_data_map v \<longleftrightarrow> length v = AN_ID_LENGTH + 2 \<and> v ! AN_ID_LENGTH = CHR ''D'' \<and> v ! (AN_ID_LENGTH + 1) = CHR ''H''"

definition load_header :: "'w module_manager \<Rightarrow> int \<Rightarrow> string \<Rightarrow> an_file \<Rightarrow> ('w, an_file) io" where
  "load_header mm bs v f =
     (let blockid = take AN_ID_LENGTH v in
      io_bind (mm_get_block mm blockid None) (\<lambda>(ok, hd1).
      if \<not> ok then io_throw (Thrown_int 1)
      else
      (case hd1 of
         None \<Rightarrow> io_stuck
       | Some header \<Rightarrow>
           if blk_size header < sizeof_block_header then io_throw (Thrown_int 1)
           else if length (blk_data header) < sizeof_block_header then io_stuck
           else
           let fsize = le_value (take 8 (blk_data header)) in
           io_bind (io_of (ulong_quotient (int fsize) bs)) (\<lambda>blocks_needed.
           io_bind (io_of (ulong_quotient ((bs - int sizeof_block_header) mod 2 ^ 64) (int AN_ID_LENGTH))) (\<lambda>blocks_per_file.
           if blocks_per_file < blocks_needed then io_throw (Thrown_int 1)
           else load_data_blocks mm header blocks_needed (f\<lparr>f_size := to_int32 (int fsize)\<rparr>))))))"

fun load_entries :: "'w module_manager \<Rightarrow> int \<Rightarrow> kv_res \<Rightarrow> an_file \<Rightarrow> ('w, an_file) io" where
  "load_entries mm bs [] f = io_return f"
| "load_entries mm bs (e # es) f =
     (if is_data_map (snd e) then io_bind (load_header mm bs (snd e) f) (load_entries mm bs es)
      else load_entries mm bs es f)"

definition sm_load_file :: "(string \<Rightarrow> string) \<Rightarrow> 'w module_manager \<Rightarrow> int \<Rightarrow> string \<Rightarrow> ('w, an_file) io" where
  "sm_load_file H mm bs i =
     (let db_id = H (''DataMap'' @ i) in
      io_bind (mm_kv_get mm db_id None) (\<lambda>(ok, kres).
      if ok then (case kres of None \<Rightarrow> io_stuck | Some m \<Rightarrow> load_entries mm bs m new_file)
      else io_return new_file))"

text \<open>
  \<open>StorageManager\<close>: the cache \<open>init\<close> makes, and \<open>open\<close>. A cached file is shared with the callers that hold
  its pointer; the cache here holds its value at the time of loading. Dropping a file has no effect
  on the world.
\<close>

record storage_manager =
  sm_file_cache :: "(string, an_file) lru_cache"

definition sm_init :: "storage_manager outcome" where
  "sm_init = out_bind (lru_new 512) (\<lambda>c. Return \<lparr>sm_file_cache = c\<rparr>)"

definition sm_open ::
  "(string \<Rightarrow> string) \<Rightarrow> 'w module_manager \<Rightarrow> int \<Rightarrow> string \<Rightarrow> (storage_manager \<times> 'w, an_file) io" where
  "sm_open H mm bs i = (\<lambda>(sm, w).
     case lru_call (sm_load_file H mm bs) (\<lambda>_ w. w) i (sm_file_cache sm) w of
       (r, c', w') \<Rightarrow> (r, (sm\<lparr>sm_file_cache := c'\<rparr>, w')))"

section \<open>Lemmas\<close>

lemma new_block_ok: "n < 2 ^ 32 \<Longrightarrow> n \<le> length arr + 1 \<Longrightarrow>
   new_block arr 0 n = Return \<lparr>blk_data = take n (arr @ [CHR 0x00]), blk_size = n\<rparr>"
  by (simp add: new_block_def mem_read_def)

lemma new_block_overrun: "n < 2 ^ 32 \<Longrightarrow> length arr + 1 < n \<Longrightarrow> new_block arr 0 n = Stuck"
  by (simp add: new_block_def mem_read_def)

text \<open>The loop as a scan that writes nothing, as long as the count stays below the block size.\<close>

function scan_words :: "string \<Rightarrow> bool \<Rightarrow> string \<Rightarrow> nat \<Rightarrow> string \<times> nat" where
  "scan_words s good buff t =
     (if \<not> good then (buff, t)
      else (case read_word buff s of (buff', s', good') \<Rightarrow> scan_words s' good' buff' (t + length buff')))"
  by pat_completeness auto

termination
  by (relation "measure (\<lambda>(s, good, buff, t). if good then Suc (length s) else 0)")
     (auto simp: read_word_def Let_def length_rest_of split: if_splits)

declare scan_words.simps [simp del]

lemma scan_words_step:
  "scan_words s True buff t = (let r = skip_space s; d = rest_of r; u = word_of r in
     if r = [] then (buff, t + length buff)
     else if d = [] then (u, t + length u) else scan_words d True u (t + length u))"
  by (subst scan_words.simps) (auto simp: read_word_def Let_def scan_words.simps [of _ False])

lemma word_of_no_space: "\<forall>c \<in> set (word_of r). \<not> is_space c"
  by (auto simp: word_of_def dest: set_takeWhileD)

lemma scan_words_bound:
  assumes "scan_words s True buff t = (b, n)" and "\<forall>c \<in> set buff. \<not> is_space c"
  shows "t \<le> n \<and> n \<le> t + length buff + 2 * length s \<and> (\<forall>c \<in> set b. \<not> is_space c)"
  using assms
proof (induction "length s" arbitrary: s buff t rule: less_induct)
  case less
  let ?r = "skip_space s"
  let ?u = "word_of ?r" and ?d = "rest_of ?r"
  have len: "length ?u + length ?d \<le> length s"
    using length_word_split(1) [of ?r] length_word_split(2) [of s] by simp
  consider "?r = []" | "?r \<noteq> []" "?d = []" | "?r \<noteq> []" "?d \<noteq> []" by blast
  then show ?case
  proof cases
    case 1
    with less.prems show ?thesis by (auto simp: scan_words_step Let_def)
  next
    case 2
    with less.prems(1) have "b = ?u" "n = t + length ?u" by (auto simp: scan_words_step Let_def)
    with len word_of_no_space [of ?r] show ?thesis by auto
  next
    case 3
    with less.prems(1) have "scan_words ?d True ?u (t + length ?u) = (b, n)"
      by (subst (asm) scan_words_step) (simp add: Let_def)
    from less.hyps [OF length_rest_of [OF 3(1)] this word_of_no_space] len show ?thesis by auto
  qed
qed

lemma an_file_in_loop_scan:
  assumes "scan_words s True buff t = (b, n)" and "int (t + length buff + 2 * length s) < bs"
  shows "an_file_in_loop bs f s True buff (int t) = Return (f, b, int n)"
  using assms
proof (induction "length s" arbitrary: s buff t rule: less_induct)
  case less
  let ?r = "skip_space s"
  let ?u = "word_of ?r" and ?d = "rest_of ?r"
  have len: "length ?u + length ?d \<le> length s"
    using length_word_split(1) [of ?r] length_word_split(2) [of s] by simp
  note stop = an_file_in_loop.simps [of bs f "[]" False]
  consider "?r = []" | "?r \<noteq> []" "?d = []" | "?r \<noteq> []" "?d \<noteq> []" by blast
  then show ?case
  proof cases
    case 1
    with less.prems show ?thesis
      by (subst an_file_in_loop.simps) (auto simp: scan_words_step read_word_def Let_def stop)
  next
    case 2
    with less.prems len show ?thesis
      by (subst an_file_in_loop.simps) (auto simp: scan_words_step read_word_def Let_def stop)
  next
    case 3
    with less.prems(1) have scan: "scan_words ?d True ?u (t + length ?u) = (b, n)"
      by (subst (asm) scan_words_step) (simp add: Let_def)
    have "int (t + length ?u + length ?u + 2 * length ?d) < bs" using less.prems(2) len by linarith
    from less.hyps [OF length_rest_of [OF 3(1)] scan this] 3 less.prems(2) len show ?thesis
      by (subst an_file_in_loop.simps) (auto simp: read_word_def Let_def)
  qed
qed

text \<open>A new file written through the stream operator.\<close>

lemma an_file_in_new:
  assumes "scan_words s True [] 0 = (b, n)" and "2 * int (length s) < bs" and "bs \<le> 2 ^ 31"
  shows "an_file_in bs new_file s =
    (if n = 0 \<or> length b + 1 < n then Stuck
     else file_reset_offset (file_add_block new_file \<lparr>blk_data = take n (b @ [CHR 0x00]), blk_size = n\<rparr>))"
proof -
  have n: "int n < bs" "n < 2 ^ 32" using scan_words_bound [OF assms(1)] assms(2,3) by auto
  have "an_file_in_loop bs new_file s True [] 0 = Return (new_file, b, int n)"
    using an_file_in_loop_scan [OF assms(1), of bs new_file] assms(2) by simp
  moreover have "f_data_blocks new_file = []" by (simp add: new_file_def)
  ultimately show ?thesis using n
    by (auto simp: an_file_in_def file_write_def new_block_ok new_block_overrun file_reset_offset_def)
qed

lemma an_file_out_new:
  "file_reset_offset (file_add_block new_file \<lparr>blk_data = x, blk_size = length x\<rparr>) = Return f \<Longrightarrow>
     an_file_out (f_data_blocks f) = Return x"
  by (auto simp: file_reset_offset_def file_add_block_def new_file_def)

section \<open>Properties\<close>

text \<open>
  C14: Written into a new file through the stream operator, a text of less than half a block reads back
  unchanged exactly when it is one word: not empty and without white space. (The operator reads
  words, keeps only the last one, and writes as many bytes as it has read in all.)
\<close>

theorem an_file_round_trip_iff:
  assumes "2 * int (length s) < bs" and "bs \<le> 2 ^ 31"
  shows "(\<exists>f. an_file_in bs new_file s = Return f \<and> an_file_out (f_data_blocks f) = Return s)
     \<longleftrightarrow> s \<noteq> [] \<and> (\<forall>c \<in> set s. \<not> is_space c)"
proof -
  obtain b n where scan: "scan_words s True [] 0 = (b, n)" by fastforce
  note run = an_file_in_new [OF scan assms]
  have nsp: "\<not> is_space (CHR 0x00)" by (simp add: is_space_def)
  show ?thesis
  proof
    assume "\<exists>f. an_file_in bs new_file s = Return f \<and> an_file_out (f_data_blocks f) = Return s"
    then obtain f where f: "an_file_in bs new_file s = Return f" "an_file_out (f_data_blocks f) = Return s" by blast
    with run have n: "0 < n" "n \<le> length b + 1"
      and reset: "file_reset_offset (file_add_block new_file \<lparr>blk_data = take n (b @ [CHR 0x00]), blk_size = n\<rparr>) = Return f"
      by (auto split: if_splits)
    define x where "x = take n (b @ [CHR 0x00])"
    have "n = length x" using n(2) by (simp add: x_def)
    with an_file_out_new [of x f] reset [folded x_def] f(2) have "s = x" by simp
    note n(1) this [unfolded x_def]
    moreover have "\<forall>c \<in> set b. \<not> is_space c" using scan_words_bound [OF scan] by simp
    ultimately show "s \<noteq> [] \<and> (\<forall>c \<in> set s. \<not> is_space c)"
      using nsp by (auto dest!: in_set_takeD)
  next
    assume word: "s \<noteq> [] \<and> (\<forall>c \<in> set s. \<not> is_space c)"
    then have "skip_space s = s" "word_of s = s" "rest_of s = []"
      by (cases s; simp add: skip_space_def word_of_def rest_of_def)+
    with scan word have "b = s" "n = length s" by (auto simp: scan_words_step Let_def)
    with run word show "\<exists>f. an_file_in bs new_file s = Return f \<and> an_file_out (f_data_blocks f) = Return s"
      by (simp add: file_reset_offset_def file_add_block_def new_file_def)
  qed
qed

theorem an_file_round_trip_iff_witness:
  "(\<exists>f. an_file_in 1024 new_file ''word'' = Return f \<and> an_file_out (f_data_blocks f) = Return ''word'')
   \<and> \<not> (\<exists>f. an_file_in 1024 new_file ''two words'' = Return f \<and> an_file_out (f_data_blocks f) = Return ''two words'')"
  using an_file_round_trip_iff [of "''word''" 1024] an_file_round_trip_iff [of "''two words''" 1024]
  by (simp add: is_space_def)

text \<open>
  Writing more than one block into a new file is undefined behaviour, whatever the data: the
  second round of the loop branches on the uninitialised \<open>_block_offset\<close>.
\<close>

lemma file_large_write_stuck:
  assumes "0 < bs" and "bs < sz"
  shows "file_write bs new_file arr sz = Stuck"
proof -
  have stuck: "file_write_loop bs arr (file_add_block new_file b) (nat bs) (sz - bs) bs = Stuck" for b
    using assms by (subst file_write_loop.simps) (auto simp: file_add_block_def new_file_def Let_def)
  have "file_write_loop bs arr new_file 0 sz bs = Stuck"
    using assms by (subst file_write_loop.simps)
      (auto simp: new_file_def [THEN arg_cong, of f_data_blocks] Let_def stuck new_block_def mem_read_def)
  with assms show ?thesis by (simp add: file_write_def)
qed

lemma file_large_write_stuck_instance:
  "file_write 4 new_file ''abcdef'' 6 = Stuck"
  using file_large_write_stuck [of 4 6 "''abcdef''"] by simp

lemma load_data_blocks_ids:
  "load_data_blocks mm header n f w = (Return f', w') \<Longrightarrow>
     f_block_ids f' = f_block_ids f @ replicate n (takeWhile (\<lambda>c. c \<noteq> CHR 0x00) (take AN_ID_LENGTH (drop sizeof_block_header (blk_data header))))
     \<and> length (f_data_blocks f') = length (f_data_blocks f) + n \<and> f_size f' = f_size f"
proof (induction n arbitrary: f w)
  case (Suc n)
  then show ?case
    by (auto simp: Let_def replicate_append_same [symmetric] split: if_splits elim!: io_bind_returnE dest!: Suc.IH)
qed simp

text \<open>
  C16: A file that loads from a header block has as many data blocks as whole blocks fit its size: the
  last, partial block is missing, so a file smaller than a block comes back empty. All its blocks
  have one and the same id, the first of the header.
\<close>

theorem sm_load_header_blocks:
  assumes "0 < bs" and "bs < 2 ^ 31" and "load_header mm bs v new_file w = (Return f, w')"
  shows "\<exists>header w1. mm_get_block mm (take AN_ID_LENGTH v) None w = (Return (True, Some header), w1)
    \<and> f_size f = to_int32 (int (le_value (take 8 (blk_data header))))
    \<and> length (f_data_blocks f) = le_value (take 8 (blk_data header)) mod 2 ^ 64 div nat bs
    \<and> f_block_ids f = replicate (le_value (take 8 (blk_data header)) mod 2 ^ 64 div nat bs)
        (takeWhile (\<lambda>c. c \<noteq> CHR 0x00) (take AN_ID_LENGTH (drop sizeof_block_header (blk_data header))))"
proof -
  from assms(3) obtain header w1 n w2 where get: "mm_get_block mm (take AN_ID_LENGTH v) None w = (Return (True, Some header), w1)"
    and q: "ulong_quotient (int (le_value (take 8 (blk_data header)))) bs = Return n"
    and blocks: "load_data_blocks mm header n (new_file\<lparr>f_size := to_int32 (int (le_value (take 8 (blk_data header))))\<rparr>) w2 = (Return f, w')"
    by (auto simp: load_header_def Let_def elim!: io_bind_returnE split: if_splits option.splits)
  have "n = nat (int (le_value (take 8 (blk_data header))) mod 2 ^ 64 div bs)"
    using q assms(1,2) by (auto simp: ulong_quotient_def Let_def split: if_splits)
  also have "\<dots> = le_value (take 8 (blk_data header)) mod 2 ^ 64 div nat bs"
    using assms(1) by (simp add: nat_div_distrib nat_mod_distrib)
  finally show ?thesis using get load_data_blocks_ids [OF blocks] by (auto simp: new_file_def)
qed

text \<open>A module manager whose only block is the header of a two-block file.\<close>

definition sm_header :: block where
  "sm_header = \<lparr>blk_data = [CHR 0x00, CHR 0x08, CHR 0x00, CHR 0x00, CHR 0x00, CHR 0x00, CHR 0x00, CHR 0x00] @ replicate 128 (CHR ''a''),
     blk_size = 136\<rparr>"

definition sm_mm :: "unit module_manager" where
  "sm_mm = mm_new\<lparr>sig_get_block := [\<lambda>i res w. (Return (True, Some sm_header), w)]\<rparr>"

lemma sm_mm_get_block: "mm_get_block sm_mm i r w = (Return (True, Some sm_header), w)"
  by (simp add: mm_get_block_def sm_mm_def)

definition sm_loaded :: an_file where
  "sm_loaded = new_file\<lparr>f_size := 2048, f_block_ids := [replicate 64 (CHR ''a''), replicate 64 (CHR ''a'')],
     f_data_blocks := [Some sm_header, Some sm_header]\<rparr>"

lemma sm_header_facts:
  "blk_size sm_header = 136" "length (blk_data sm_header) = 136" "le_value (take 8 (blk_data sm_header)) = 2048"
  "takeWhile (\<lambda>c. c \<noteq> CHR 0x00) (take AN_ID_LENGTH (drop sizeof_block_header (blk_data sm_header))) = replicate 64 (CHR ''a'')"
  by (simp_all add: sm_header_def AN_ID_LENGTH_def sizeof_block_header_def)

lemma sm_load_run: "load_header sm_mm 1024 v new_file () = (Return sm_loaded, ())"
proof -
  have "ulong_quotient 2048 1024 = Return 2" by (simp add: ulong_quotient_def)
  moreover have "ulong_quotient ((1024 - int sizeof_block_header) mod 2 ^ 64) (int AN_ID_LENGTH) = Return 14"
    by (simp add: ulong_quotient_def sizeof_block_header_def AN_ID_LENGTH_def)
  moreover have "load_data_blocks sm_mm sm_header 2 f () = (Return (f\<lparr>
      f_block_ids := f_block_ids f @ [replicate 64 (CHR ''a''), replicate 64 (CHR ''a'')],
      f_data_blocks := f_data_blocks f @ [Some sm_header, Some sm_header]\<rparr>), ())" for f
    by (simp add: numeral_2_eq_2 Let_def io_simps sm_mm_get_block sm_header_facts(2,4))
       (simp add: sizeof_block_header_def AN_ID_LENGTH_def)
  ultimately show ?thesis
    by (simp add: load_header_def Let_def io_simps sm_mm_get_block sm_header_facts)
       (simp add: sizeof_block_header_def AN_ID_LENGTH_def sm_loaded_def to_int32_def new_file_def)
qed

theorem sm_load_header_blocks_witness:
  "load_header sm_mm 1024 [] new_file () = (Return sm_loaded, ())
   \<and> f_block_ids sm_loaded = replicate 2 (replicate 64 (CHR ''a''))"
proof -
  obtain header w1 where "mm_get_block sm_mm (take AN_ID_LENGTH []) None () = (Return (True, Some header), w1)"
    and ids: "f_block_ids sm_loaded = replicate (le_value (take 8 (blk_data header)) mod 2 ^ 64 div nat 1024)
        (takeWhile (\<lambda>c. c \<noteq> CHR 0x00) (take AN_ID_LENGTH (drop sizeof_block_header (blk_data header))))"
    using sm_load_header_blocks [OF _ _ sm_load_run, of "[]"] by auto
  then have "header = sm_header" by (simp add: sm_mm_get_block)
  with ids sm_load_run show ?thesis by (simp only: sm_header_facts) simp
qed

section \<open>Writing over several blocks\<close>

text \<open>A file that is set to one of its blocks, all of which hold at least \<open>bs\<close> bytes.\<close>

definition file_placed :: "int \<Rightarrow> nat \<Rightarrow> an_file \<Rightarrow> bool" where
  "file_placed bs i f \<longleftrightarrow> i < length (f_data_blocks f) \<and> f_current_block f = Some i \<and> f_current_block_id f = i
     \<and> f_block_offset f = Some 0 \<and> (\<forall>x \<in> set (f_data_blocks f). \<exists>b. x = Some b \<and> nat bs \<le> length (blk_data b))"

definition block_start :: "string \<Rightarrow> nat \<Rightarrow> block \<Rightarrow> block" where
  "block_start arr n b = b\<lparr>blk_data := take n arr @ drop n (blk_data b), blk_size := n\<rparr>"

text \<open>The blocks after a write of \<open>q\<close> whole blocks and \<open>r\<close> bytes from block \<open>i\<close> on.\<close>

definition blocks_written :: "string \<Rightarrow> nat \<Rightarrow> nat \<Rightarrow> nat \<Rightarrow> nat \<Rightarrow> block option list \<Rightarrow> block option list" where
  "blocks_written arr bs i q r bl = map (\<lambda>j. if i \<le> j \<and> j < i + q then map_option (block_start arr bs) (bl ! j)
     else if j = i + q then map_option (block_start arr r) (bl ! j) else bl ! j) [0..<length bl]"

lemma file_round:
  assumes "file_placed bs i f" and "0 \<le> rs" and "rs \<le> bs" and "bs < 2 ^ 31" and "rs \<le> int (length arr)"
  shows "out_bind (file_overwrite f arr (nat rs) True) file_next_block =
    (if Suc i < length (f_data_blocks f)
     then Return (f\<lparr>f_data_blocks := (f_data_blocks f)[i := map_option (block_start arr (nat rs)) (f_data_blocks f ! i)],
       f_current_block_id := Suc i, f_current_block := Some (Suc i), f_block_offset := Some 0\<rparr>)
     else Stuck)"
proof -
  from assms(1) obtain b where b: "f_data_blocks f ! i = Some b" "nat bs \<le> length (blk_data b)" and i: "i < length (f_data_blocks f)"
    by (auto simp: file_placed_def dest: nth_mem)
  have n: "nat rs \<le> length (blk_data b)" "nat rs \<le> length arr" "nat rs < 2 ^ 32" using assms b(2) by auto
  then have "file_overwrite f arr (nat rs) True = Return (file_set_block f i (block_start arr (nat rs) b))"
    using assms(1) b(1) i
    by (simp add: file_overwrite_def file_current_def file_placed_def mem_read_def block_start_def)
  then show ?thesis
    using assms(1) b(1) by (simp add: file_next_block_def file_set_block_def file_placed_def Let_def)
qed

lemma file_placed_next:
  assumes "file_placed bs i f" and "n \<le> nat bs" and "n \<le> length arr" and "Suc i < length (f_data_blocks f)"
  shows "file_placed bs (Suc i) (f\<lparr>f_data_blocks := (f_data_blocks f)[i := map_option (block_start arr n) (f_data_blocks f ! i)],
       f_current_block_id := Suc i, f_current_block := Some (Suc i), f_block_offset := Some 0\<rparr>)"
proof -
  from assms(4) have "f_data_blocks f ! i \<in> set (f_data_blocks f)" by simp
  with assms(1) obtain b where b: "f_data_blocks f ! i = Some b" "nat bs \<le> length (blk_data b)"
    unfolding file_placed_def by blast
  then have "nat bs \<le> length (blk_data (block_start arr n b))" using assms(2,3) by (simp add: block_start_def)
  with assms b(1) show ?thesis by (auto simp: file_placed_def dest!: set_update_subset_insert [THEN subsetD])
qed

lemma blocks_written_Suc:
  assumes "i < length bl"
  shows "blocks_written arr bs (Suc i) q r (bl[i := map_option (block_start arr bs) (bl ! i)]) = blocks_written arr bs i (Suc q) r bl"
  using assms by (auto simp: blocks_written_def nth_list_update)

lemma blocks_written_0:
  assumes "i < length bl"
  shows "blocks_written arr bs i 0 r bl = bl[i := map_option (block_start arr r) (bl ! i)]"
  using assms by (intro nth_equalityI) (auto simp: blocks_written_def nth_list_update)

lemma file_write_loop_placed:
  assumes "0 < bs" and "bs < 2 ^ 31" and "0 < r" and "r \<le> bs" and "file_placed bs i f" and "int q * bs + r \<le> int (length arr)"
  shows "file_write_loop bs arr f p (int q * bs + r) bs =
    (if i + Suc q < length (f_data_blocks f)
     then Return (f\<lparr>f_data_blocks := blocks_written arr (nat bs) i q (nat r) (f_data_blocks f),
       f_current_block_id := i + Suc q, f_current_block := Some (i + Suc q), f_block_offset := Some 0\<rparr>, r)
     else Stuck)"
  using assms(5,6)
proof (induction q arbitrary: i f p)
  case 0
  from 0(1) have i: "i < length (f_data_blocks f)" and ne: "f_data_blocks f \<noteq> []" and off: "f_block_offset f = Some 0"
    by (auto simp: file_placed_def)
  have stop: "file_write_loop bs arr g p' 0 r = Return (g, r)" for g p' by (subst file_write_loop.simps) simp
  have "file_write_loop bs arr f p r bs =
      (case out_bind (file_overwrite f arr (nat r) True) file_next_block of
         Return f' \<Rightarrow> file_write_loop bs arr f' (p + nat r) 0 r | Throw e \<Rightarrow> Throw e | Stuck \<Rightarrow> Stuck)"
  proof (cases "r < bs")
    case False
    with assms(4) have r: "r = bs" by simp
    show ?thesis unfolding r using assms(1) ne off by (subst file_write_loop.simps) (simp add: Let_def cong: outcome.case_cong)
  next
    case True
    with assms(3) ne off show ?thesis by (subst file_write_loop.simps) (simp add: Let_def cong: outcome.case_cong)
  qed
  also have "\<dots> = (if Suc i < length (f_data_blocks f)
     then Return (f\<lparr>f_data_blocks := (f_data_blocks f)[i := map_option (block_start arr (nat r)) (f_data_blocks f ! i)],
       f_current_block_id := Suc i, f_current_block := Some (Suc i), f_block_offset := Some 0\<rparr>, r)
     else Stuck)"
    using 0(2) assms(3) by (subst file_round [OF 0(1) _ assms(4,2)]) (auto simp: stop)
  finally show ?case using i by (simp add: blocks_written_0)
next
  case (Suc q)
  let ?s = "int (Suc q) * bs + r"
  from Suc.prems(1) have i: "i < length (f_data_blocks f)" and ne: "f_data_blocks f \<noteq> []" and off: "f_block_offset f = Some 0"
    by (auto simp: file_placed_def)
  have s: "bs \<le> ?s" "?s - bs = int q * bs + r" "\<not> ?s \<le> 0" using assms(1,3) by (simp_all add: algebra_simps add_pos_nonneg not_le)
  have arr: "bs \<le> int (length arr)" using s(1) Suc.prems(2) by linarith
  have round: "file_write_loop bs arr f p s bs =
      (case out_bind (file_overwrite f arr (nat bs) True) file_next_block of
         Return f' \<Rightarrow> file_write_loop bs arr f' (p + nat bs) t bs | Throw e \<Rightarrow> Throw e | Stuck \<Rightarrow> Stuck)"
    if "bs \<le> s" "s - bs = t" for s t
    unfolding that(2) [symmetric] using assms(1) ne off that(1)
    by (subst file_write_loop.simps) (simp add: Let_def cong: outcome.case_cong)
  note step = round [OF s(1,2)]
  show ?case
  proof (cases "Suc i < length (f_data_blocks f)")
    case False
    then show ?thesis
      unfolding step by (subst file_round [OF Suc.prems(1)]) (use assms(1,2) arr in auto)
  next
    case True
    let ?f = "f\<lparr>f_data_blocks := (f_data_blocks f)[i := map_option (block_start arr (nat bs)) (f_data_blocks f ! i)],
       f_current_block_id := Suc i, f_current_block := Some (Suc i), f_block_offset := Some 0\<rparr>"
    have "file_placed bs (Suc i) ?f"
      using file_placed_next [OF Suc.prems(1) _ _ True, of "nat bs" arr] arr by simp
    from Suc.IH [OF this] Suc.prems(2) s
    have "file_write_loop bs arr ?f (p + nat bs) (int q * bs + r) bs =
      (if Suc i + Suc q < length (f_data_blocks f)
       then Return (f\<lparr>f_data_blocks := blocks_written arr (nat bs) i (Suc q) (nat r) (f_data_blocks f),
         f_current_block_id := Suc i + Suc q, f_current_block := Some (Suc i + Suc q), f_block_offset := Some 0\<rparr>, r)
       else Stuck)"
      using assms(1) i by (simp add: blocks_written_Suc)
    with True show ?thesis
      unfolding step by (subst file_round [OF Suc.prems(1)]) (use assms(1,2) arr in auto)
  qed
qed

text \<open>
  C30: Writing more than a block over the blocks of a file that \<open>reset_offset\<close> has set to its first block is
  defined only if the file has a block more than the data fills. Then every block is given the beginning of the
  data, as much as fits it, instead of the piece that belongs there; the blocks behind are kept.
\<close>

theorem file_write_repeats:
  assumes "0 < bs" and "bs < 2 ^ 31" and "bs < sz" and "sz \<le> int (length arr)" and "file_placed bs 0 f"
  shows "if nat ((sz - 1) div bs) + 1 < length (f_data_blocks f)
    then \<exists>f'. file_write bs f arr sz = Return f' \<and> length (f_data_blocks f') = length (f_data_blocks f)
      \<and> (\<forall>j < length (f_data_blocks f). f_data_blocks f' ! j =
          (if int j * bs < sz then map_option (block_start arr (nat (min bs (sz - int j * bs)))) (f_data_blocks f ! j)
           else f_data_blocks f ! j))
    else file_write bs f arr sz = Stuck"
proof -
  define q r where "q = nat ((sz - 1) div bs)" and "r = (sz - 1) mod bs + 1"
  have q0: "int q = (sz - 1) div bs" using assms(1,3) by (simp add: q_def pos_imp_zdiv_nonneg_iff)
  have sz: "sz = int q * bs + r" unfolding q0 r_def using div_mult_mod_eq [of "sz - 1" bs] by linarith
  have r: "0 < r" "r \<le> bs" using assms(1) using pos_mod_bound [OF assms(1), of "sz - 1"] pos_mod_sign [OF assms(1), of "sz - 1"] by (simp_all add: r_def)
  have "file_write_loop bs arr f 0 sz bs =
    (if Suc q < length (f_data_blocks f)
     then Return (f\<lparr>f_data_blocks := blocks_written arr (nat bs) 0 q (nat r) (f_data_blocks f),
       f_current_block_id := Suc q, f_current_block := Some (Suc q), f_block_offset := Some 0\<rparr>, r)
     else Stuck)"
    using file_write_loop_placed [OF assms(1,2) r assms(5), of q arr 0] assms(4) by (simp add: sz)
  moreover have "blocks_written arr (nat bs) 0 q (nat r) bl ! j =
      (if int j * bs < sz then map_option (block_start arr (nat (min bs (sz - int j * bs)))) (bl ! j) else bl ! j)"
    if "j < length bl" for j bl
  proof -
    consider "j < q" | "j = q" | "q < j" by linarith
    then show ?thesis
    proof cases
      case 1
      then have "(int j + 1) * bs \<le> int q * bs" using assms(1) by (intro mult_right_mono) auto
      then have "int j * bs + bs < sz" using r sz by (simp add: algebra_simps)
      with 1 that assms(1) show ?thesis by (simp add: blocks_written_def)
    next
      case 2
      with that r show ?thesis by (simp add: blocks_written_def sz)
    next
      case 3
      then have "(int q + 1) * bs \<le> int j * bs" using assms(1) by (intro mult_right_mono) auto
      then have "\<not> int j * bs < sz" using r sz by (simp add: algebra_simps)
      with 3 that show ?thesis by (simp add: blocks_written_def)
    qed
  qed
  moreover have "length (blocks_written arr (nat bs) 0 q (nat r) bl) = length bl" for bl by (simp add: blocks_written_def)
  ultimately show ?thesis using assms(3) by (simp add: file_write_def q_def [symmetric])
qed

definition three_blocks :: an_file where
  "three_blocks = new_file\<lparr>f_data_blocks := replicate 3 (Some \<lparr>blk_data = ''----'', blk_size = 4\<rparr>),
     f_current_block := Some 0, f_block_offset := Some 0\<rparr>"

theorem file_write_repeats_witness:
  "(\<exists>f'. file_write 4 three_blocks ''abcdef'' 6 = Return f'
      \<and> f_data_blocks f' ! 1 = Some \<lparr>blk_data = ''ab--'', blk_size = 2\<rparr>)
   \<and> file_write 4 three_blocks ''abcdefghi'' 9 = Stuck"
proof -
  have "file_placed 4 0 three_blocks" by (simp add: file_placed_def three_blocks_def new_file_def)
  from file_write_repeats [OF _ _ _ _ this, of 6 "''abcdef''"] file_write_repeats [OF _ _ _ _ this, of 9 "''abcdefghi''"]
  show ?thesis by (auto simp: three_blocks_def block_start_def numeral_3_eq_3 dest!: spec [of _ 1])
qed

end
