(* ===== verification/Hostlist.thy ===== *)
theory Hostlist
  imports Storage "HOL-Library.Code_Target_Nat"
begin

text \<open>
  The bootstrap plugin \<open>src/modules/bootstrap/hostlist/hostlist.cc\<close>: it fetches a list of peers over HTTP
  and tries them one by one.

  Parameters: \<open>exchange\<close>, what the network does with a request to a host: it fails (an exception of the
  I/O library), or delivers the response in a number of reads and then ends, cleanly or with an error;
  and \<open>bfp\<close>, the member \<open>bootstrapFromPeer\<close>, which the class declares but no source defines (the function
  of that name in the file is not a member).
\<close>

section \<open>Reading a response\<close>

text \<open>\<open>boost::asio::read_until\<close>: reads until the buffer holds the delimiter; throws at the end of the stream.\<close>

fun read_until :: "string \<Rightarrow> string \<Rightarrow> string list \<Rightarrow> (string \<times> string list) option" where
  "read_until d buf [] = (if sublist d buf then Some (buf, []) else None)"
| "read_until d buf (c # cs) = (if sublist d buf then Some (buf, c # cs) else read_until d (buf @ c) cs)"

fun digits_value :: "nat \<Rightarrow> string \<Rightarrow> nat" where
  "digits_value acc [] = acc"
| "digits_value acc (c # cs) = digits_value (10 * acc + (of_char c - 48)) cs"

definition is_digit :: "char \<Rightarrow> bool" where
  "is_digit c \<longleftrightarrow> 48 \<le> (of_char c :: nat) \<and> (of_char c :: nat) \<le> 57"

text \<open>\<open>istream >> unsigned int\<close>: the value and what is left; \<open>None\<close> when the extraction fails.\<close>

definition read_uint :: "string \<Rightarrow> (nat \<times> string) option" where
  "read_uint s =
     (let r = skip_space s;
          neg = (r \<noteq> [] \<and> r ! 0 = CHR ''-'');
          r1 = (if r \<noteq> [] \<and> (r ! 0 = CHR ''-'' \<or> r ! 0 = CHR ''+'') then drop 1 r else r);
          ds = takeWhile is_digit r1; n = digits_value 0 ds in
      if ds = [] \<or> 2 ^ 32 \<le> n then None
      else Some (if neg then (2 ^ 32 - n) mod 2 ^ 32 else n, dropWhile is_digit r1))"

text \<open>\<open>std::getline\<close>: what is left after the line; \<open>None\<close> when there is nothing to read.\<close>

definition skip_line :: "string \<Rightarrow> string option" where
  "skip_line s = (if s = [] then None else Some (drop 1 (dropWhile (\<lambda>c. c \<noteq> CHR 0x0A) s)))"

definition crlf :: string where
  "crlf = [CHR 0x0D, CHR 0x0A]"

section \<open>http\_request\<close>

definition http_text :: "string \<Rightarrow> string \<Rightarrow> string" where
  "http_text url_server url_file =
     ''GET '' @ url_file @ '' HTTP/1.0'' @ crlf @ ''Host: '' @ url_server @ crlf @ ''Accept: *//*'' @ crlf
       @ ''Connection: close'' @ crlf @ crlf"

text \<open>
  The status line out of the buffer: the rest of the buffer when the response is valid and its code is
  200, \<open>None\<close> otherwise.
\<close>

definition http_status :: "string \<Rightarrow> string option" where
  "http_status buf =
     (case read_word [] buf of
        (http_version, s, _) \<Rightarrow>
          Option.bind (read_uint s) (\<lambda>(status_code, s1).
          Option.bind (skip_line s1) (\<lambda>s2.
          if take 5 http_version \<noteq> ''HTTP/'' then None
          else if status_code \<noteq> 200 then None
          else Some s2)))"

text \<open>
  What is in the buffer with the end of the headers goes into a local stream that nobody reads; the
  result is what the reads after that deliver. A failure inside the \<open>try\<close> block answers false; the
  \<open>substr\<close> before it throws for a URL without a slash.
\<close>

definition http_request ::
  "(string \<Rightarrow> string \<Rightarrow> 'w \<Rightarrow> (string list \<times> bool) outcome) \<Rightarrow> string \<Rightarrow> string \<Rightarrow> 'w \<Rightarrow> (bool \<times> string) outcome" where
  "http_request exchange url res w =
     (if slash \<notin> set url then Throw Out_of_range
      else
      let url_server = takeWhile (\<lambda>c. c \<noteq> slash) url; url_file = dropWhile (\<lambda>c. c \<noteq> slash) url in
      (case exchange url_server (http_text url_server url_file) w of
         Throw e \<Rightarrow> Return (False, res)
       | Stuck \<Rightarrow> Stuck
       | Return (chunks, clean) \<Rightarrow>
           (case read_until crlf [] chunks of
              None \<Rightarrow> Return (False, res)
            | Some (buf, cs) \<Rightarrow>
                (case http_status buf of
                   None \<Rightarrow> Return (False, res)
                 | Some buf1 \<Rightarrow>
                     (case read_until (crlf @ crlf) buf1 cs of
                        None \<Rightarrow> Return (False, res)
                      | Some (_, cs1) \<Rightarrow> if clean then Return (True, concat cs1) else Return (False, res))))))"

section \<open>bootstrapFromHostlist\<close>

lemma dropWhile_delim_shorter:
  "dropWhile (\<lambda>c. c \<noteq> d) s \<noteq> [] \<Longrightarrow> length (dropWhile (\<lambda>c. c = d) (dropWhile (\<lambda>c. c \<noteq> d) s)) < length s"
proof -
  assume *: "dropWhile (\<lambda>c. c \<noteq> d) s \<noteq> []"
  then obtain r where r: "dropWhile (\<lambda>c. c \<noteq> d) s = d # r"
    by (metis (mono_tags, lifting) hd_dropWhile list.collapse)
  then have "length (d # r) \<le> length s" by (metis length_dropWhile_le)
  with r length_dropWhile_le [of "\<lambda>c. c = d" r] show ?thesis by simp
qed

text \<open>\<open>boost::split\<close> with \<open>token_compress_on\<close>: tokens between runs of the delimiter; never empty.\<close>

function split_compress :: "char \<Rightarrow> string \<Rightarrow> string list" where
  "split_compress d s =
     takeWhile (\<lambda>c. c \<noteq> d) s #
       (let r = dropWhile (\<lambda>c. c \<noteq> d) s in if r = [] then [] else split_compress d (dropWhile (\<lambda>c. c = d) r))"
  by pat_completeness auto

termination
  by (relation "measure (\<lambda>(d, s). length s)") (auto simp: dropWhile_delim_shorter)

declare split_compress.simps [simp del]

text \<open>\<open>atoi\<close>\<close>

definition atoi :: "string \<Rightarrow> int" where
  "atoi s =
     (let r = skip_space s;
          neg = (r \<noteq> [] \<and> r ! 0 = CHR ''-'');
          r1 = (if r \<noteq> [] \<and> (r ! 0 = CHR ''-'' \<or> r ! 0 = CHR ''+'') then drop 1 r else r);
          n = int (digits_value 0 (takeWhile is_digit r1)) in
      if neg then - n else n)"

text \<open>The loop over the peers. A line without a colon has no second part, which is subscripted anyway.\<close>

fun try_peers :: "(string \<Rightarrow> int \<Rightarrow> ('w, bool) io) \<Rightarrow> string list \<Rightarrow> bool \<Rightarrow> ('w, bool) io" where
  "try_peers bfp [] fail = io_return fail"
| "try_peers bfp (peer # ps) fail =
     (case split_compress (CHR '':'') peer of
        host # port # _ \<Rightarrow> io_bind (bfp host (atoi port)) (\<lambda>ok. try_peers bfp ps (if ok then False else fail))
      | _ \<Rightarrow> io_stuck)"

definition bootstrapFromHostlist ::
  "(string \<Rightarrow> string \<Rightarrow> 'w \<Rightarrow> (string list \<times> bool) outcome) \<Rightarrow> (string \<Rightarrow> int \<Rightarrow> ('w, bool) io) \<Rightarrow> string \<Rightarrow> ('w, bool) io" where
  "bootstrapFromHostlist exchange bfp args =
     io_bind (\<lambda>w. (http_request exchange args [] w, w)) (\<lambda>(ok, hlist).
     if \<not> ok then io_return False
     else try_peers bfp (split_compress (CHR 0x0A) hlist) True)"

section \<open>Lemmas\<close>

lemma read_until_suffix: "read_until d buf cs = Some (buf', cs') \<Longrightarrow> \<exists>pre. cs = pre @ cs' \<and> buf' = buf @ concat pre"
proof (induction d buf cs rule: read_until.induct)
  case (2 d buf c cs)
  show ?case
  proof (cases "sublist d buf")
    case True
    with 2(2) show ?thesis by (intro exI [of _ "[]"]) auto
  next
    case False
    with 2 obtain pre where "cs = pre @ cs'" "buf' = (buf @ c) @ concat pre" by auto
    then show ?thesis by (intro exI [of _ "c # pre"]) auto
  qed
qed (auto split: if_splits)

lemma read_until_nonempty:
  assumes "read_until d [] cs = Some (buf', cs')" and "d \<noteq> []"
  shows "\<exists>pre. pre \<noteq> [] \<and> cs = pre @ cs'"
proof -
  have d: "\<not> sublist d []" using assms(2) by simp
  obtain c cs1 where cs: "cs = c # cs1" using assms(1) d by (cases cs) auto
  with assms(1) d have "read_until d c cs1 = Some (buf', cs')" by simp
  from read_until_suffix [OF this] cs show ?thesis by (metis Cons_eq_appendI list.distinct(1))
qed

lemma last_dropWhile_ne: "dropWhile P xs \<noteq> [] \<Longrightarrow> last (dropWhile P xs) = last xs"
  by (induction xs) auto

lemma split_compress_last:
  assumes "s = [] \<or> last s = d"
  shows "last (split_compress d s) = []"
  using assms
proof (induction d s rule: split_compress.induct)
  case (1 d s)
  let ?r = "dropWhile (\<lambda>c. c \<noteq> d) s"
  show ?case
  proof (cases "?r = []")
    case True
    with 1(2) have "s = []" by (metis (mono_tags, lifting) dropWhile_eq_Nil_conv last_in_set)
    then show ?thesis by (simp add: split_compress.simps)
  next
    case False
    let ?t = "dropWhile (\<lambda>c. c = d) ?r"
    have "?t = [] \<or> last ?t = d"
    proof (rule disjCI)
      assume "last ?t \<noteq> d"
      moreover have "s \<noteq> []" using False by auto
      then have "last ?r = d" using 1(2) last_dropWhile_ne [OF False] by simp
      ultimately show "?t = []" using last_dropWhile_ne [of "\<lambda>c. c = d" ?r] by metis
    qed
    with 1(1) False have "last (split_compress d ?t) = []" by blast
    moreover have "split_compress d ?t \<noteq> []" by (subst split_compress.simps) simp
    ultimately show ?thesis using False by (subst split_compress.simps) (auto simp: Let_def)
  qed
qed

text \<open>A peer's line has a host and a port.\<close>

definition peer_ok :: "string \<Rightarrow> bool" where
  "peer_ok l \<longleftrightarrow> 2 \<le> length (split_compress (CHR '':'') l)"

definition peer_host :: "string \<Rightarrow> string" where
  "peer_host l = split_compress (CHR '':'') l ! 0"

definition peer_port :: "string \<Rightarrow> int" where
  "peer_port l = atoi (split_compress (CHR '':'') l ! 1)"

lemma try_peers_pure:
  assumes "\<And>h n w. bfp h n w = (Return (acc h n), w)"
  shows "try_peers bfp ps fail w =
    (if \<forall>l \<in> set ps. peer_ok l then Return (fail \<and> (\<forall>l \<in> set ps. \<not> acc (peer_host l) (peer_port l))) else Stuck, w)"
proof (induction ps arbitrary: fail)
  case (Cons l ps)
  show ?case
  proof (cases "split_compress (CHR '':'') l")
    case (Cons h t)
    then show ?thesis
      using Cons.IH assms by (cases t) (auto simp: peer_ok_def peer_host_def peer_port_def io_simps)
  qed (simp add: peer_ok_def)
qed simp

section \<open>Properties\<close>

text \<open>
  C19: What \<open>bootstrapFromHostlist\<close> makes of a list it could fetch, when trying a peer has no other effect
  than its answer. The list is what the connection delivered after the read that completed the
  headers, never anything of that read itself. If every line has a host and a port the answer is
  true exactly when no peer accepted; a line without a colon is undefined behaviour, and a list that is
  empty or ends in a line end always has such a line.
\<close>

theorem hostlist_answer:
  assumes "\<And>h n w. bfp h n w = (Return (acc h n), w)"
    and "http_request exchange url [] w = Return (True, hlist)"
  shows "(\<exists>srv req chunks pre. exchange srv req w = Return (chunks, True) \<and> pre \<noteq> []
      \<and> (\<exists>post. chunks = pre @ post \<and> hlist = concat post))
    \<and> bootstrapFromHostlist exchange bfp url w =
        (if \<forall>l \<in> set (split_compress (CHR 0x0A) hlist). peer_ok l
         then Return (\<forall>l \<in> set (split_compress (CHR 0x0A) hlist). \<not> acc (peer_host l) (peer_port l)) else Stuck, w)
    \<and> ((hlist = [] \<or> last hlist = CHR 0x0A) \<longrightarrow> bootstrapFromHostlist exchange bfp url w = (Stuck, w))"
proof -
  have run: "bootstrapFromHostlist exchange bfp url w =
      (if \<forall>l \<in> set (split_compress (CHR 0x0A) hlist). peer_ok l
       then Return (\<forall>l \<in> set (split_compress (CHR 0x0A) hlist). \<not> acc (peer_host l) (peer_port l)) else Stuck, w)"
    using assms(2) try_peers_pure [of bfp acc "split_compress (CHR 0x0A) hlist" True w, OF assms(1)]
    by (auto simp: bootstrapFromHostlist_def io_simps)
  from assms(2) obtain srv req chunks buf cs buf1 buf2 post where ex: "exchange srv req w = Return (chunks, True)"
    and r1: "read_until crlf [] chunks = Some (buf, cs)" and r2: "read_until (crlf @ crlf) buf1 cs = Some (buf2, post)"
    and h: "hlist = concat post"
    by (auto simp: http_request_def Let_def split: if_splits outcome.splits option.splits prod.splits)
  obtain pre where "pre \<noteq> []" "chunks = pre @ cs" using read_until_nonempty [OF r1] by (auto simp: crlf_def)
  moreover obtain pre2 where "cs = pre2 @ post" using read_until_suffix [OF r2] by blast
  ultimately have net: "\<exists>srv req chunks pre. exchange srv req w = Return (chunks, True) \<and> pre \<noteq> []
      \<and> (\<exists>post. chunks = pre @ post \<and> hlist = concat post)"
    using ex h by (intro exI [of _ srv] exI [of _ req] exI [of _ chunks] exI [of _ "pre @ pre2"]) auto
  have "\<not> peer_ok []" by (simp add: peer_ok_def split_compress.simps)
  moreover have "split_compress (CHR 0x0A) hlist \<noteq> []" by (subst split_compress.simps) simp
  ultimately have "\<not> (\<forall>l \<in> set (split_compress (CHR 0x0A) hlist). peer_ok l)" if "hlist = [] \<or> last hlist = CHR 0x0A"
    using split_compress_last [OF that] last_in_set by metis
  then have "(hlist = [] \<or> last hlist = CHR 0x0A) \<longrightarrow> bootstrapFromHostlist exchange bfp url w = (Stuck, w)"
    unfolding run by auto
  with run net show ?thesis by blast
qed

definition demo_exchange :: "string list \<Rightarrow> string \<Rightarrow> string \<Rightarrow> unit \<Rightarrow> (string list \<times> bool) outcome" where
  "demo_exchange body srv req w = Return ((''HTTP/1.0 200 OK'' @ crlf @ ''Server: x'' @ crlf @ crlf) # body, True)"

definition demo_bfp :: "string \<Rightarrow> int \<Rightarrow> (unit, bool) io" where
  "demo_bfp h n = io_return (h = ''b'')"

lemma demo_bfp_pure: "demo_bfp h n w = (Return (h = ''b''), w)"
  by (simp add: demo_bfp_def)

theorem hostlist_answer_witness:
  "bootstrapFromHostlist (demo_exchange [''a:1'', [CHR 0x0A], ''b:2'']) demo_bfp ''host/list'' () = (Return False, ())
   \<and> bootstrapFromHostlist (demo_exchange [''a:1'', [CHR 0x0A]]) demo_bfp ''host/list'' () = (Stuck, ())"
proof -
  have r1: "http_request (demo_exchange [''a:1'', [CHR 0x0A], ''b:2'']) ''host/list'' [] () = Return (True, ''a:1'' @ [CHR 0x0A] @ ''b:2'')"
    by code_simp
  have r2: "http_request (demo_exchange [''a:1'', [CHR 0x0A]]) ''host/list'' [] () = Return (True, ''a:1'' @ [CHR 0x0A])"
    by code_simp
  note pure = hostlist_answer [of demo_bfp "\<lambda>h n. h = ''b''", OF demo_bfp_pure]
  have s: "split_compress (CHR 0x0A) (''a:1'' @ [CHR 0x0A] @ ''b:2'') = [''a:1'', ''b:2'']"
    "split_compress (CHR '':'') ''a:1'' = [''a'', ''1'']" "split_compress (CHR '':'') ''b:2'' = [''b'', ''2'']"
    by (simp_all add: split_compress.simps)
  have "bootstrapFromHostlist (demo_exchange [''a:1'', [CHR 0x0A], ''b:2'']) demo_bfp ''host/list'' () = (Return False, ())"
    using pure [OF r1] s by (simp add: peer_ok_def peer_host_def)
  moreover have "last (''a:1'' @ [CHR 0x0A]) = CHR 0x0A" by simp
  ultimately show ?thesis using pure [OF r2] by blast
qed

end
