(* ===== verification/PatchText.thy ===== *)
theory PatchText
  imports Crypto Prelude
begin

text \<open>
  The escaping of texts in the patches of \<open>third-party/diff_match_patch-stl/diff_match_patch.h\<close>, instantiated with
  \<open>std::string\<close> as \<open>db.cc\<close> and \<open>db_manager.cc\<close> do: \<open>append_percent_encoded\<close> when a patch is written,
  \<open>percent_decode\<close> when it is read. The routines are written for wide characters: a unit is taken for a
  code point, encoded as UTF-8 and escaped. A \<open>char\<close> is signed and becomes an \<open>unsigned\<close> by sign extension, so
  bytes of \<open>0x80\<close> and above are no code points.

  The rest of the library (the search for differences, the placing of patches, the header lines) is not
  modelled; the objects take it as a parameter.
\<close>

unbundle bit_operations_syntax

section \<open>Writing\<close>

text \<open>The table marks the character behind the last safe one, too: the terminating zero of \<open>safe_chars\<close>.\<close>

definition safe_chars :: string where
  "safe_chars = ''0123456789ABCDEFGHIJKLMNOPQRSTUVWXYZabcdefghijklmnopqrstuvwxyz-_.~ !*'' @ [CHR 0x27] @ ''();/?:@&=+$,#'' @ [CHR 0x00]"

definition is_safe :: "8 word \<Rightarrow> bool" where
  "is_safe b \<longleftrightarrow> b \<in> set (map byte_of safe_chars)"

text \<open>\<open>diff_match_patch_utf32_direct<char>::to_utf32\<close> and \<open>from_utf32\<close>.\<close>

definition to_utf32 :: "char \<Rightarrow> 32 word" where
  "to_utf32 c = scast (byte_of c)"

definition from_utf32 :: "32 word \<Rightarrow> 8 word" where
  "from_utf32 u = ucast u"

text \<open>The characters a unit takes.\<close>

definition encoded_size :: "32 word \<Rightarrow> nat" where
  "encoded_size u = (if u \<ge> 0x10000 then 12 else if u \<ge> 0x800 then 9 else if u \<ge> 0x80 then 6
     else if is_safe (ucast u) then 1 else 3)"

definition utf8_bytes :: "32 word \<Rightarrow> 8 word list" where
  "utf8_bytes u =
     (if u < 0x80 then [ucast u]
      else if u < 0x800 then [ucast (drop_bit 6 u OR 0xC0), ucast ((u AND 0x3F) OR 0x80)]
      else if u < 0x10000 then [ucast (drop_bit 12 u OR 0xE0), ucast ((drop_bit 6 u AND 0x3F) OR 0x80), ucast ((u AND 0x3F) OR 0x80)]
      else [ucast (drop_bit 18 u OR 0xF0), ucast ((drop_bit 12 u AND 0x3F) OR 0x80),
            ucast ((drop_bit 6 u AND 0x3F) OR 0x80), ucast ((u AND 0x3F) OR 0x80)])"

definition char_of_byte8 :: "8 word \<Rightarrow> char" where
  "char_of_byte8 b = char_of (unat b)"

definition percent_byte :: "8 word \<Rightarrow> string" where
  "percent_byte b =
     (if is_safe b then [char_of_byte8 b]
      else [CHR ''%'', safe_chars ! unat (drop_bit 4 (b AND 0xF0)), safe_chars ! unat (b AND 0xF)])"

text \<open>The size is an \<open>int\<close>: \<open>2 ^ 31\<close> and more are undefined.\<close>

definition append_percent_encoded :: "string \<Rightarrow> string \<Rightarrow> string outcome" where
  "append_percent_encoded s1 s2 =
     (let n = sum_list (map (\<lambda>c. encoded_size (to_utf32 c)) s2) in
      if 2 ^ 31 \<le> n then Stuck
      else if n = length s2 then Return (s1 @ s2)
      else Return (s1 @ concat (map (\<lambda>c. concat (map percent_byte (utf8_bytes (to_utf32 c)))) s2)))"

section \<open>Reading\<close>

definition hex_digit_value :: "char \<Rightarrow> nat outcome" where
  "hex_digit_value c =
     (let n = of_char c :: nat in
      if 48 \<le> n \<and> n \<le> 57 then Return (n - 48)
      else if 65 \<le> n \<and> n \<le> 70 then Return (n - 55)
      else if 97 \<le> n \<and> n \<le> 102 then Return (n - 87)
      else Throw (Thrown_string (''Invalid character: '' @ [c])))"

text \<open>
  The first loop of \<open>percent_decode\<close>. The second digit is read by an operand whose order of evaluation is not
  specified: the first digit is taken to be converted first, and after a percent sign at the end, where the
  second digit is beyond the terminating zero, the run is stuck.
\<close>

fun unescape :: "string \<Rightarrow> string outcome" where
  "unescape [] = Return []"
| "unescape (c # cs) =
     (if c \<noteq> CHR ''%'' then out_bind (unescape cs) (\<lambda>r. Return (c # r))
      else case cs of
        [] \<Rightarrow> Stuck
      | [d1] \<Rightarrow> out_bind (hex_digit_value d1) (\<lambda>_. out_bind (hex_digit_value (CHR 0x00)) (\<lambda>_. Stuck))
      | d1 # d2 # rest \<Rightarrow>
          out_bind (hex_digit_value d1) (\<lambda>h1. out_bind (hex_digit_value d2) (\<lambda>h2.
          out_bind (unescape rest) (\<lambda>r. Return (char_of (h1 * 16 + h2) # r)))))"

text \<open>
  The second loop, which decodes UTF-8 in place; what is left over at the end is cut off. \<open>continue\<close> leaves the
  cursor at the byte that was looked at.
\<close>

definition continuation :: "8 word \<Rightarrow> bool" where
  "continuation b \<longleftrightarrow> (scast b AND 0xC0 :: 32 word) = 0x80"

definition low6 :: "8 word \<Rightarrow> 32 word" where
  "low6 b = scast b AND 0x3F"

fun utf8_decode :: "8 word list \<Rightarrow> 8 word list" where
  "utf8_decode [] = []"
| "utf8_decode (b # bs) =
     (let u = scast b :: 32 word in
      if u < 0x80 then from_utf32 u # utf8_decode bs
      else if drop_bit 5 u = 6 then
        (case bs of
           [] \<Rightarrow> []
         | b2 # bs2 \<Rightarrow>
             if \<not> continuation b2 then utf8_decode (b2 # bs2)
             else from_utf32 (push_bit 6 (u AND 0x1F) + low6 b2) # utf8_decode bs2)
      else if drop_bit 4 u = 0xE then
        (case bs of
           [] \<Rightarrow> []
         | b2 # bs2 \<Rightarrow>
             if \<not> continuation b2 then utf8_decode (b2 # bs2)
             else (case bs2 of
                 [] \<Rightarrow> []
               | b3 # bs3 \<Rightarrow>
                   if \<not> continuation b3 then utf8_decode (b3 # bs3)
                   else from_utf32 (push_bit 12 (u AND 0xF) + push_bit 6 (low6 b2) + low6 b3) # utf8_decode bs3))
      else if drop_bit 3 u = 0x1E then
        (case bs of
           [] \<Rightarrow> []
         | b2 # bs2 \<Rightarrow>
             if \<not> continuation b2 then utf8_decode (b2 # bs2)
             else (case bs2 of
                 [] \<Rightarrow> []
               | b3 # bs3 \<Rightarrow>
                   if \<not> continuation b3 then utf8_decode (b3 # bs3)
                   else (case bs3 of
                       [] \<Rightarrow> []
                     | b4 # bs4 \<Rightarrow>
                         if \<not> continuation b4 then utf8_decode (b4 # bs4)
                         else from_utf32 (push_bit 18 (u AND 7) + push_bit 12 (low6 b2) + push_bit 6 (low6 b3) + low6 b4)
                                # utf8_decode bs4)))
      else utf8_decode bs)"

definition percent_decode :: "string \<Rightarrow> string outcome" where
  "percent_decode str = out_bind (unescape str) (\<lambda>r. Return (map char_of_byte8 (utf8_decode (map byte_of r))))"

section \<open>Units\<close>

declare utf8_decode.simps(2) [simp del] unescape.simps(2) [simp del]

lemma sint_byte8: "sint (b :: 8 word) = (if uint b < 128 then uint b else uint b - 256)"
proof -
  have "sint (word_of_int (uint b) :: 8 word) = (uint b + 128) mod 256 - 128"
    by (simp only: sint_sbintrunc' signed_take_bit_eq_take_bit_shift take_bit_eq_mod) simp
  moreover have "0 \<le> uint b" "uint b < 256" using uint_lt2p [of b] by simp_all
  ultimately show ?thesis by (auto simp: mod_pos_geq)
qed

lemma uint_scast8: "uint (scast (b :: 8 word) :: 32 word) = (if uint b < 128 then uint b else uint b + 4294967040)"
proof -
  have "uint (word_of_int (sint b) :: 32 word) = sint b mod 4294967296"
    by (simp only: uint_word_of_int) simp
  moreover have "0 \<le> uint b" "uint b < 256" using uint_lt2p [of b] by simp_all
  moreover have "(x - 256) mod 4294967296 = x + 4294967040" if "128 \<le> x" "x < 256" for x :: int
    using that by (subst mod_add_self2 [symmetric]) simp
  ultimately show ?thesis by (simp only: scast_eq sint_byte8) simp
qed

text \<open>ASCII units, and the others: all their bytes are dropped one by one.\<close>

lemma ascii_unit:
  assumes "uint b < 128"
  shows "(scast (b :: 8 word) :: 32 word) < 0x80" and "from_utf32 (scast b) = b" and "ucast (scast b :: 32 word) = b"
proof -
  show "(scast b :: 32 word) < 0x80" using assms by (simp add: word_less_def uint_scast8)
  show u: "ucast (scast b :: 32 word) = b"
    using assms by (simp add: word_uint_eq_iff uint_scast8 unsigned_ucast_eq take_bit_eq_mod)
  then show "from_utf32 (scast b) = b" by (simp add: from_utf32_def)
qed

lemma utf8_decode_ascii: "uint b < 128 \<Longrightarrow> utf8_decode (b # bs) = b # utf8_decode bs"
  by (simp add: utf8_decode.simps(2) Let_def ascii_unit)

lemma uint_drop_bit: "uint (drop_bit n u) = uint u div 2 ^ n"
  using arg_cong [OF unat_drop_bit_eq [of n u], of int] by (simp only: uint_nat drop_bit_eq_div zdiv_int) simp

lemma utf8_decode_other:
  assumes "\<not> uint b < 128"
  shows "utf8_decode (b # bs) = utf8_decode bs"
proof -
  let ?u = "scast b :: 32 word"
  have u: "4294967168 \<le> uint ?u" using assms by (simp add: uint_scast8)
  then have "\<not> ?u < 0x80" by (simp add: word_less_def)
  moreover have "6 < uint (drop_bit 5 ?u)" "0xE < uint (drop_bit 4 ?u)" "0x1E < uint (drop_bit 3 ?u)"
    using u by (simp_all add: uint_drop_bit)
  then have "drop_bit 5 ?u \<noteq> 6" "drop_bit 4 ?u \<noteq> 0xE" "drop_bit 3 ?u \<noteq> 0x1E" by auto
  ultimately show ?thesis by (simp add: utf8_decode.simps(2) Let_def)
qed

lemma high_bit: "bit (b :: 8 word) 7 \<Longrightarrow> \<not> uint b < 128"
proof
  assume "bit b 7" and "uint b < 128"
  then have "drop_bit 7 b = 0" by (simp add: word_uint_eq_iff uint_drop_bit)
  moreover have "bit (drop_bit 7 b) 0" using \<open>bit b 7\<close> by (simp add: bit_drop_bit_eq)
  ultimately show False by simp
qed

lemma utf8_bytes_unit:
  "utf8_bytes (to_utf32 c) = (if of_char c < (128 :: nat) then [byte_of c] else utf8_bytes (to_utf32 c))
   \<and> (\<not> of_char c < (128 :: nat) \<longrightarrow> (\<forall>b \<in> set (utf8_bytes (to_utf32 c)). \<not> uint b < 128))"
proof (cases "of_char c < (128 :: nat)")
  case True
  then have "uint (byte_of c) < 128" by (simp add: uint_nat)
  with True show ?thesis by (simp add: utf8_bytes_def to_utf32_def ascii_unit)
next
  case False
  let ?u = "to_utf32 c"
  have "\<not> uint (byte_of c) < 128" using False by (simp add: uint_nat)
  then have "4294967168 \<le> uint ?u" by (simp add: to_utf32_def uint_scast8)
  then have "\<not> ?u < 0x80" "\<not> ?u < 0x800" "\<not> ?u < 0x10000" by (simp_all add: word_less_def)
  then have "utf8_bytes ?u = [ucast (drop_bit 18 ?u OR 0xF0), ucast ((drop_bit 12 ?u AND 0x3F) OR 0x80),
            ucast ((drop_bit 6 ?u AND 0x3F) OR 0x80), ucast ((?u AND 0x3F) OR 0x80)]"
    by (simp add: utf8_bytes_def)
  moreover have "bit (ucast (x OR 0xF0 :: 32 word) :: 8 word) 7" "bit (ucast (x OR 0x80 :: 32 word) :: 8 word) 7" for x
    by (simp_all add: bit_simps)
  ultimately have "\<forall>b \<in> set (utf8_bytes ?u). bit b 7" by simp
  with False show ?thesis by (auto dest: high_bit)
qed

section \<open>Escapes\<close>

lemma char_of_byte8_of [simp]: "char_of_byte8 (byte_of c) = c" "byte_of (char_of_byte8 b) = b"
proof -
  show "char_of_byte8 (byte_of c) = c" by (simp add: char_of_byte8_def)
  have "unat b < 2 ^ LENGTH(8)" by (rule unsigned_less)
  then have "unat b mod 256 = unat b" by simp
  then show "byte_of (char_of_byte8 b) = b" by (simp add: char_of_byte8_def byte_of_def)
qed

text \<open>The first sixteen safe characters are the digits of the escapes; the safe characters are ASCII and no percent sign.\<close>

lemma hex_digits: "k < 16 \<Longrightarrow> hex_digit_value (safe_chars ! k) = Return k"
proof -
  have "list_all (\<lambda>k. hex_digit_value (safe_chars ! k) = Return k) [0..<16]" by code_simp
  then show "k < 16 \<Longrightarrow> hex_digit_value (safe_chars ! k) = Return k" by (simp add: list_all_iff)
qed

lemma is_safe_byte: "is_safe (byte_of c) \<longleftrightarrow> c \<in> set safe_chars"
proof -
  have "byte_of c \<in> byte_of ` set safe_chars \<Longrightarrow> c \<in> set safe_chars"
    by (metis char_of_byte8_of(1) imageE)
  then show ?thesis by (auto simp: is_safe_def)
qed

lemma safe_ascii: "c \<in> set safe_chars \<Longrightarrow> c \<noteq> CHR ''%'' \<and> of_char c < (128 :: nat)"
proof -
  have "list_all (\<lambda>c. c \<noteq> CHR ''%'' \<and> of_char c < (128 :: nat)) safe_chars" by code_simp
  then show "c \<in> set safe_chars \<Longrightarrow> c \<noteq> CHR ''%'' \<and> of_char c < (128 :: nat)" by (simp add: list_all_iff)
qed

lemma unescape_byte: "unescape (percent_byte (byte_of c) @ r) = out_bind (unescape r) (\<lambda>r'. Return (c # r'))"
proof (cases "c \<in> set safe_chars")
  case True
  then show ?thesis using safe_ascii [OF True] by (simp add: percent_byte_def is_safe_byte unescape.simps(2))
next
  case False
  have n: "(of_char c :: nat) < 256" by (rule nat_of_char_less_256)
  then have "hex_digit_value (safe_chars ! (of_char c div 16)) = Return (of_char c div 16)"
    "hex_digit_value (safe_chars ! (of_char c mod 16)) = Return (of_char c mod 16)"
    by (simp_all add: hex_digits less_mult_imp_div_less)
  moreover have "(of_char c :: nat) div 16 * 16 + of_char c mod 16 = of_char c" by simp
  ultimately show ?thesis
    using False nibble_high [of c] nibble_low [of c]
    by (simp add: percent_byte_def is_safe_byte unescape.simps(2))
qed

lemma unescape_bytes:
  "unescape (concat (map percent_byte bs) @ r) = out_bind (unescape r) (\<lambda>r'. Return (map char_of_byte8 bs @ r'))"
proof (induction bs)
  case (Cons b bs)
  have "unescape (percent_byte (byte_of (char_of_byte8 b)) @ concat (map percent_byte bs) @ r)
    = out_bind (unescape r) (\<lambda>r'. Return (map char_of_byte8 (b # bs) @ r'))"
    unfolding unescape_byte Cons.IH by (cases "unescape r") simp_all
  then show ?case by simp
qed (cases "unescape r"; simp)

lemma unescape_plain: "\<forall>c \<in> set s. c \<noteq> CHR ''%'' \<Longrightarrow> unescape s = Return s"
  by (induction s) (simp_all add: unescape.simps(2))

lemma utf8_decode_unit:
  "utf8_decode (utf8_bytes (to_utf32 c) @ bs) = (if of_char c < (128 :: nat) then [byte_of c] else []) @ utf8_decode bs"
proof (cases "of_char c < (128 :: nat)")
  case True
  then have "uint (byte_of c) < 128" by (simp add: uint_nat)
  with True utf8_bytes_unit [of c] show ?thesis by (simp add: utf8_decode_ascii)
next
  case False
  have "utf8_decode (xs @ bs) = utf8_decode bs" if "\<forall>b \<in> set xs. \<not> uint b < 128" for xs
    using that by (induction xs) (simp_all add: utf8_decode_other)
  with False utf8_bytes_unit [of c] show ?thesis by simp
qed

lemma decode_units:
  "utf8_decode (concat (map (\<lambda>c. utf8_bytes (to_utf32 c)) s)) = map byte_of (filter (\<lambda>c. of_char c < (128 :: nat)) s)"
  by (induction s) (simp_all add: utf8_decode_unit)

lemma encoded_size_bounds: "1 \<le> encoded_size u" "encoded_size u \<le> 12"
  by (simp_all add: encoded_size_def)

text \<open>A text no longer than its code consists of safe characters.\<close>

lemma encoded_size_1: "encoded_size (to_utf32 c) = 1 \<Longrightarrow> c \<in> set safe_chars"
proof -
  assume "encoded_size (to_utf32 c) = 1"
  then have u: "to_utf32 c < 0x80" "is_safe (ucast (to_utf32 c))"
    by (auto simp: encoded_size_def not_le split: if_splits)
  then have "uint (byte_of c) < 128"
    by (simp add: word_less_def to_utf32_def uint_scast8 split: if_splits)
  with u(2) show ?thesis by (simp add: to_utf32_def ascii_unit is_safe_byte)
qed

lemma sizes_safe:
  "sum_list (map (\<lambda>c. encoded_size (to_utf32 c)) s) = length s \<Longrightarrow> set s \<subseteq> set safe_chars"
proof -
  have le: "length s \<le> sum_list (map (\<lambda>c. encoded_size (to_utf32 c)) s)" for s
    by (induction s) (auto intro: add_mono [OF encoded_size_bounds(1), simplified])
  show "sum_list (map (\<lambda>c. encoded_size (to_utf32 c)) s) = length s \<Longrightarrow> set s \<subseteq> set safe_chars"
  proof (induction s)
    case (Cons c s)
    with le [of s] encoded_size_bounds(1) [of "to_utf32 c"] have "encoded_size (to_utf32 c) = 1"
      "sum_list (map (\<lambda>c. encoded_size (to_utf32 c)) s) = length s" by simp_all
    with Cons encoded_size_1 show ?case by simp
  qed simp
qed

section \<open>Round trip\<close>

text \<open>
  Escaping the text of a difference and reading it back. The escaped text, appended to what is there, decodes
  without an error to the ASCII characters of the text, in order: every byte of \<open>0x80\<close> and above is lost. A text
  comes back exactly when it is ASCII. This is why the theorems on revisions assume of each history that its
  patches restore its contents (\<open>dmp_restores\<close> of \<open>Objects\<close>) and not that all patches do.
\<close>

lemma percent_round_trip:
  assumes "12 * length s < 2 ^ 31"
  shows "\<exists>code. append_percent_encoded pre s = Return (pre @ code)
    \<and> percent_decode code = Return (filter (\<lambda>c. of_char c < (128 :: nat)) s)
    \<and> (percent_decode code = Return s \<longleftrightarrow> (\<forall>c \<in> set s. of_char c < (128 :: nat)))"
proof -
  let ?n = "sum_list (map (\<lambda>c. encoded_size (to_utf32 c)) s)" and ?ascii = "\<lambda>c. of_char c < (128 :: nat)"
  let ?esc = "concat (map (\<lambda>c. concat (map percent_byte (utf8_bytes (to_utf32 c)))) s)"
  have "?n \<le> 12 * length s"
    by (induction s) (use encoded_size_bounds(2) in \<open>auto intro: add_mono\<close>)
  with assms have n: "\<not> 2 ^ 31 \<le> ?n" by simp
  have "\<exists>code. append_percent_encoded pre s = Return (pre @ code) \<and> percent_decode code = Return (filter ?ascii s)"
  proof (cases "?n = length s")
    case True
    have safe: "set s \<subseteq> set safe_chars" by (rule sizes_safe [OF True])
    then have plain: "unescape s = Return s" and ascii: "\<forall>c \<in> set s. ?ascii c"
      using safe_ascii by (auto intro: unescape_plain)
    have "utf8_decode (map byte_of s) = map byte_of s"
      using ascii by (induction s) (simp_all add: utf8_decode_ascii uint_nat)
    with plain ascii have "percent_decode s = Return (filter ?ascii s)"
      by (simp add: percent_decode_def comp_def)
    with n True show ?thesis by (auto simp: append_percent_encoded_def Let_def)
  next
    case False
    have esc: "?esc = concat (map percent_byte (concat (map (\<lambda>c. utf8_bytes (to_utf32 c)) s)))"
      by (induction s) simp_all
    have "unescape ?esc = Return (map char_of_byte8 (concat (map (\<lambda>c. utf8_bytes (to_utf32 c)) s)))"
      unfolding esc using unescape_bytes [of _ "[]"] by simp
    then have "percent_decode ?esc = Return (filter ?ascii s)"
      by (simp add: percent_decode_def comp_def decode_units)
    with n False show ?thesis by (auto simp: append_percent_encoded_def Let_def)
  qed
  then obtain code where "append_percent_encoded pre s = Return (pre @ code)" and dec: "percent_decode code = Return (filter ?ascii s)"
    by blast
  moreover have "percent_decode code = Return s \<longleftrightarrow> (\<forall>c \<in> set s. ?ascii c)"
    using dec by (simp add: filter_id_conv)
  ultimately show ?thesis by blast
qed

lemma percent_round_trip_instance:
  "\<exists>code. append_percent_encoded ''+'' [CHR ''a'', CHR 0xE9, CHR ''%''] = Return (''+'' @ code)
     \<and> percent_decode code = Return ''a%''"
proof -
  obtain code where c: "append_percent_encoded ''+'' [CHR ''a'', CHR 0xE9, CHR ''%''] = Return (''+'' @ code)"
    "percent_decode code = Return (filter (\<lambda>c. of_char c < (128 :: nat)) [CHR ''a'', CHR 0xE9, CHR ''%''])"
    using percent_round_trip [of "[CHR ''a'', CHR 0xE9, CHR ''%'']" "''+''"] by auto
  have "filter (\<lambda>c. of_char c < (128 :: nat)) [CHR ''a'', CHR 0xE9, CHR ''%''] = ''a%''" by code_simp
  with c show ?thesis by auto
qed

end
