(* ===== verification/Config.thy ===== *)
theory Config
  imports Blockstore
begin

text \<open>
  The configuration: property trees as \<open>boost::property_tree\<close> documents them, the configuration
  manager of \<open>src/daemon/config_manager.{h,cc}\<close> and \<open>Plugin::get_config\<close> of \<open>src/daemon/plugin_manager.cc\<close>.

  Parameters: \<open>parse\<close>, the INFO parser applied to the configuration file, which may throw; \<open>tr\<close>, the
  stream translator for integers; \<open>home\<close>, the environment variable \<open>HOME\<close> (\<open>None\<close> when unset, which
  makes \<open>std::string(getenv("HOME"))\<close> undefined); and the file system.
\<close>

section \<open>Property trees\<close>

datatype ptree = PTree string "(string \<times> ptree) list"

fun pt_data :: "ptree \<Rightarrow> string" where
  "pt_data (PTree d kids) = d"

fun pt_kids :: "ptree \<Rightarrow> (string \<times> ptree) list" where
  "pt_kids (PTree d kids) = kids"

text \<open>A path is split at its dots; the empty path names the tree itself.\<close>

fun split_dots_acc :: "string \<Rightarrow> string \<Rightarrow> string list" where
  "split_dots_acc acc [] = [rev acc]"
| "split_dots_acc acc (c # cs) =
     (if c = CHR ''.'' then rev acc # split_dots_acc [] cs else split_dots_acc (c # acc) cs)"

definition split_dots :: "string \<Rightarrow> string list" where
  "split_dots p = (if p = [] then [] else split_dots_acc [] p)"

fun ptree_walk :: "string list \<Rightarrow> ptree \<Rightarrow> ptree option" where
  "ptree_walk [] t = Some t"
| "ptree_walk (k # ks) t = Option.bind (map_of (pt_kids t) k) (ptree_walk ks)"

definition ptree_get_child :: "string \<Rightarrow> ptree \<Rightarrow> ptree outcome" where
  "ptree_get_child path t = (case ptree_walk (split_dots path) t of None \<Rightarrow> Throw Ptree_error | Some c \<Rightarrow> Return c)"

text \<open>The view of a tree that \<^const>\<open>ptree_get_str\<close> and \<^const>\<open>ptree_get_int\<close> read.\<close>

definition ptree_values :: "ptree \<Rightarrow> string \<rightharpoonup> string" where
  "ptree_values t = (\<lambda>path. map_option pt_data (ptree_walk (split_dots path) t))"

section \<open>The configuration manager\<close>

record config_manager =
  cm_pt :: ptree
  cm_modules :: "string list" \<comment> \<open>a \<open>std::set\<close>: sorted, without duplicates\<close>
  cm_port :: int
  cm_rpc_port :: int
  cm_threads :: int
  cm_bs :: int
  cm_data_dir :: string
  cm_log_dir :: string
  cm_dir :: string

definition ANARCHNET_RPC_PORT :: int where "ANARCHNET_RPC_PORT = 23666"
definition ANARCHNET_PORT :: int where "ANARCHNET_PORT = 23555"
definition ANARCHNET_THREADS :: int where "ANARCHNET_THREADS = 4"
definition ANARCHNET_BLOCKSIZE :: int where "ANARCHNET_BLOCKSIZE = 1024"

text \<open>\<open>std::set::insert\<close>\<close>

fun set_insert :: "string \<Rightarrow> string list \<Rightarrow> string list" where
  "set_insert k [] = [k]"
| "set_insert k (x # xs) = (if k < x then k # x # xs else if k = x then x # xs else x # set_insert k xs)"

definition modules_config :: "config_manager \<Rightarrow> string \<Rightarrow> ptree outcome" where
  "modules_config cm name = out_bind (ptree_get_child ''modules'' (cm_pt cm)) (ptree_get_child name)"

text \<open>\<open>Plugin::get_config\<close>: the plugin's section, or \<open>None\<close> with the exception caught.\<close>

definition get_config :: "config_manager \<Rightarrow> string \<Rightarrow> (string \<rightharpoonup> string) option outcome" where
  "get_config cm name =
     (case modules_config cm name of
        Return t \<Rightarrow> Return (Some (ptree_values t))
      | Throw e \<Rightarrow> if e = Ptree_error then Return None else Throw e
      | Stuck \<Rightarrow> Stuck)"

definition expand_home :: "string option \<Rightarrow> string \<Rightarrow> string outcome" where
  "expand_home home p =
     (if p \<noteq> [] \<and> p ! 0 = CHR ''~'' then (case home of None \<Rightarrow> Stuck | Some h \<Rightarrow> Return (h @ drop 1 p)) else Return p)"

text \<open>
  One of the three blocks on a directory: made when there is nothing, refused when there is something else.
\<close>

definition check_directory :: "'w fs_ops \<Rightarrow> string \<Rightarrow> ('w, bool) io" where
  "check_directory fs p = (\<lambda>w.
     if \<not> fs_exists fs p w then fs_create_directory fs p w
     else if \<not> fs_is_directory fs p w then (Return False, w)
     else (Return True, w))"

text \<open>What \<open>init\<close> reads out of the tree.\<close>

definition cm_read :: "(string \<Rightarrow> int option) \<Rightarrow> ptree \<Rightarrow> config_manager \<Rightarrow> config_manager outcome" where
  "cm_read tr pt cm =
     out_bind (ptree_get_child ''daemon.modules'' pt) (\<lambda>ms.
     let v = ptree_values pt in
     Return (cm\<lparr>cm_pt := pt,
       cm_modules := fold (\<lambda>kid s. set_insert (fst kid) s) (pt_kids ms) (cm_modules cm),
       cm_port := ptree_get_int tr v ''daemon.port'' ANARCHNET_PORT,
       cm_rpc_port := ptree_get_int tr v ''daemon.rpc_port'' ANARCHNET_RPC_PORT,
       cm_threads := ptree_get_int tr v ''daemon.threads'' ANARCHNET_THREADS,
       cm_bs := ptree_get_int tr v ''daemon.blocksize'' ANARCHNET_BLOCKSIZE,
       cm_dir := ptree_get_str v ''daemon.dir'' ''~/.anarchNet'',
       cm_data_dir := ptree_get_str v ''daemon.datadir'' ''~/.anarchNet/data'',
       cm_log_dir := ptree_get_str v ''daemon.logdir'' ''~/.anarchNet/log''\<rparr>))"

definition cm_expand :: "string option \<Rightarrow> config_manager \<Rightarrow> config_manager outcome" where
  "cm_expand home cm =
     out_bind (expand_home home (cm_dir cm)) (\<lambda>d.
     out_bind (expand_home home (cm_data_dir cm)) (\<lambda>dd.
     out_bind (expand_home home (cm_log_dir cm)) (\<lambda>ld.
     Return (cm\<lparr>cm_dir := d, cm_data_dir := dd, cm_log_dir := ld\<rparr>))))"

definition cm_init ::
  "(string \<Rightarrow> 'w \<Rightarrow> ptree outcome) \<Rightarrow> (string \<Rightarrow> int option) \<Rightarrow> string option \<Rightarrow> 'w fs_ops \<Rightarrow> string \<Rightarrow> config_manager \<Rightarrow>
   ('w, bool \<times> config_manager) io" where
  "cm_init parse tr home fs directory cm =
     (let config_file = directory @ ''/anarchnet.conf'' in
      io_bind (\<lambda>w. (parse config_file w, w)) (\<lambda>pt.
      io_bind (io_of (out_bind (cm_read tr pt cm) (cm_expand home))) (\<lambda>cm1.
      io_bind (check_directory fs (cm_dir cm1)) (\<lambda>ok1.
      if \<not> ok1 then io_return (False, cm1)
      else io_bind (check_directory fs (cm_data_dir cm1)) (\<lambda>ok2.
      if \<not> ok2 then io_return (False, cm1)
      else io_bind (check_directory fs (cm_log_dir cm1)) (\<lambda>ok3.
      io_return (ok3, cm1)))))))"

section \<open>Lemmas\<close>

lemma set_insert_sorted: "sorted xs \<and> distinct xs \<Longrightarrow> sorted (set_insert k xs) \<and> distinct (set_insert k xs)"
  and set_set_insert: "set (set_insert k xs) = insert k (set xs)"
proof -
  show eq: "set (set_insert k xs) = insert k (set xs)" for xs by (induction xs) auto
  show "sorted xs \<and> distinct xs \<Longrightarrow> sorted (set_insert k xs) \<and> distinct (set_insert k xs)"
    by (induction xs) (auto simp: eq)
qed

lemma fold_set_insert:
  "sorted xs \<and> distinct xs \<Longrightarrow> sorted (fold (\<lambda>kid s. set_insert (fst kid) s) kids xs)
     \<and> distinct (fold (\<lambda>kid s. set_insert (fst kid) s) kids xs)
     \<and> set (fold (\<lambda>kid s. set_insert (fst kid) s) kids xs) = fst ` set kids \<union> set xs"
proof (induction kids arbitrary: xs)
  case (Cons k kids)
  from Cons.IH [of "set_insert (fst k) xs"] set_insert_sorted [of xs "fst k"] Cons.prems show ?case
    by (auto simp: set_set_insert)
qed simp

lemma check_directory_effect:
  assumes fs: "fs_spec fs nd" and run: "check_directory fs p w = (Return True, w')"
  shows "follow (nd w') p = Some Dir"
    and "\<And>q n. nd w q = Some n \<Longrightarrow> nd w' q = Some n"
proof -
  have "follow (nd w') p = Some Dir \<and> (\<forall>q n. nd w q = Some n \<longrightarrow> nd w' q = Some n)"
  proof (cases "fs_exists fs p w")
    case True
    with run show ?thesis by (auto simp: check_directory_def fs_is_directory_iff [OF fs] split: if_splits)
  next
    case False
    with run have mk: "fs_create_directory fs p w = (Return True, w')" by (simp add: check_directory_def)
    from fs_create_directory_effect [OF fs mk] show ?thesis by (auto simp: follow_Dir)
  qed
  then show "follow (nd w') p = Some Dir" and "\<And>q n. nd w q = Some n \<Longrightarrow> nd w' q = Some n" by blast+
qed

lemma follow_Dir_mono:
  assumes "follow m p = Some Dir" and "\<And>q n. m q = Some n \<Longrightarrow> m' q = Some n"
  shows "follow m' p = Some Dir"
  using assms by (auto simp: follow_def split: option.splits node.splits)

section \<open>Properties\<close>

text \<open>
  C18: When the configuration manager's \<open>init\<close> returns true, the three directories it has settled on are
  directories; the data directory is the configured one, or the default, with a leading tilde replaced
  by \<open>HOME\<close>; and the modules to load are exactly the names listed under \<open>daemon.modules\<close>, once each and
  in ascending order, whatever their order in the file.
\<close>

theorem cm_init_spec:
  assumes "fs_spec fs nd" and "cm_modules cm = []"
    and "cm_init parse tr home fs directory cm w = (Return (True, cm'), w')"
  shows "follow (nd w') (cm_dir cm') = Some Dir \<and> follow (nd w') (cm_data_dir cm') = Some Dir
    \<and> follow (nd w') (cm_log_dir cm') = Some Dir
    \<and> (\<exists>pt ms. parse (directory @ ''/anarchnet.conf'') w = Return pt \<and> ptree_get_child ''daemon.modules'' pt = Return ms
       \<and> expand_home home (ptree_get_str (ptree_values pt) ''daemon.datadir'' ''~/.anarchNet/data'') = Return (cm_data_dir cm')
       \<and> sorted (cm_modules cm') \<and> distinct (cm_modules cm') \<and> set (cm_modules cm') = fst ` set (pt_kids ms))"
proof -
  from assms(3) obtain pt cm0 w1 w2 where pt: "parse (directory @ ''/anarchnet.conf'') w = Return pt"
    and rd: "cm_read tr pt cm = Return cm0" and ex: "cm_expand home cm0 = Return cm'"
    and d1: "check_directory fs (cm_dir cm') w = (Return True, w1)"
    and d2: "check_directory fs (cm_data_dir cm') w1 = (Return True, w2)"
    and d3: "check_directory fs (cm_log_dir cm') w2 = (Return True, w')"
    by (auto simp: cm_init_def Let_def elim!: io_bind_returnE out_bind_returnE split: if_splits)
  note e1 = check_directory_effect [OF assms(1) d1] and e2 = check_directory_effect [OF assms(1) d2]
    and e3 = check_directory_effect [OF assms(1) d3]
  have "follow (nd w') (cm_dir cm') = Some Dir"
    using follow_Dir_mono [OF follow_Dir_mono [OF e1(1) e2(2)] e3(2)] .
  moreover have "follow (nd w') (cm_data_dir cm') = Some Dir" using follow_Dir_mono [OF e2(1) e3(2)] .
  moreover obtain ms where "ptree_get_child ''daemon.modules'' pt = Return ms"
    and "cm_modules cm0 = fold (\<lambda>kid s. set_insert (fst kid) s) (pt_kids ms) []"
    and "cm_data_dir cm0 = ptree_get_str (ptree_values pt) ''daemon.datadir'' ''~/.anarchNet/data''"
    using rd assms(2) by (auto simp: cm_read_def Let_def elim!: out_bind_returnE)
  moreover have "cm_modules cm' = cm_modules cm0" "expand_home home (cm_data_dir cm0) = Return (cm_data_dir cm')"
    using ex by (auto simp: cm_expand_def elim!: out_bind_returnE)
  ultimately show ?thesis using e3(1) pt fold_set_insert [of "[]" "pt_kids ms"] by auto
qed

text \<open>A configuration with two modules, a data directory that exists and a log directory below \<open>HOME\<close>.\<close>

definition conf_tree :: ptree where
  "conf_tree = PTree [] [(''daemon'', PTree []
     [(''modules'', PTree [] [(''libls_flatfile'', PTree [] []), (''libls_blockstore'', PTree [] []), (''libls_flatfile'', PTree [] [])]),
      (''dir'', PTree ''/d'' []), (''datadir'', PTree ''/d'' []), (''logdir'', PTree ''~/log'' [])])]"

definition conf_w0 :: posix where
  "conf_w0 = \<lparr>px_nodes = [(''/d'', Dir), (''/h'', Dir)], px_denied = []\<rparr>"

definition conf_cm0 :: config_manager where
  "conf_cm0 = \<lparr>cm_pt = PTree [] [], cm_modules = [], cm_port = 0, cm_rpc_port = 0, cm_threads = 0, cm_bs = 0,
     cm_data_dir = [], cm_log_dir = [], cm_dir = []\<rparr>"

definition conf_cm1 :: config_manager where
  "conf_cm1 = \<lparr>cm_pt = conf_tree, cm_modules = [''libls_blockstore'', ''libls_flatfile''], cm_port = 23555, cm_rpc_port = 23666,
     cm_threads = 4, cm_bs = 1024, cm_data_dir = ''/d'', cm_log_dir = ''/h/log'', cm_dir = ''/d''\<rparr>"

definition conf_w1 :: posix where
  "conf_w1 = \<lparr>px_nodes = [(''/h/log'', Dir), (''/d'', Dir), (''/h'', Dir)], px_denied = []\<rparr>"

lemma conf_run:
  "cm_init (\<lambda>f w. Return conf_tree) (\<lambda>s. None) (Some ''/h'') posix_ops ''.'' conf_cm0 conf_w0 = (Return (True, conf_cm1), conf_w1)"
  by code_simp

theorem cm_init_spec_witness:
  "follow (posix_nd conf_w1) (cm_log_dir conf_cm1) = Some Dir \<and> cm_log_dir conf_cm1 = ''/h/log''
   \<and> sorted (cm_modules conf_cm1) \<and> set (cm_modules conf_cm1) = {''libls_flatfile'', ''libls_blockstore''}"
proof -
  have "cm_modules conf_cm0 = []" by (simp add: conf_cm0_def)
  from cm_init_spec [OF posix_fs_spec this conf_run] show ?thesis by (auto simp: conf_cm1_def)
qed

end
