(* ===== verification/Plugins.thy ===== *)
theory Plugins
  imports Config Database
begin

text \<open>
  Plugins: the kernel of \<open>third-party/pugg/include\<close> (servers, drivers, loaded libraries), the plugin
  manager of \<open>src/daemon/plugin_manager.cc\<close>, \<open>ModuleManager::init\<close> of \<open>src/daemon/module_manager.cc\<close> and the
  registration and start of the storage plugins.

  A driver is its name and what \<open>createPlugin\<close> followed by \<open>initialise\<close> does: it may connect slots to the
  module manager's signals, and yields the plugin's virtual functions. Parameter: \<open>libs\<close>, what the
  dynamic linker finds: for a path the library's \<open>registerPlugin\<close>, or nothing when the library cannot be
  opened or does not have it. \<open>CastToServerType\<close> is a reinterpreting cast, so a server's kind is that of
  its drivers.
\<close>

section \<open>Servers and drivers\<close>

type_synonym 'w plugin_start = "'w module_manager \<Rightarrow> ('w, bool \<times> 'w module_manager \<times> 'w localstorage) io"

record 'w driver =
  drv_name :: string
  drv_start :: "'w plugin_start"

record 'w plugin_server =
  srv_name :: string
  srv_version :: int
  srv_drivers :: "(string \<times> 'w driver) list" \<comment> \<open>a \<open>std::map\<close>: sorted by name\<close>

record 'w kernel =
  k_plugins :: "string list"
  k_servers :: "(string \<times> 'w plugin_server) list"

text \<open>Assignment through \<open>std::map::operator[]\<close>.\<close>

fun map_assign :: "string \<Rightarrow> 'a \<Rightarrow> (string \<times> 'a) list \<Rightarrow> (string \<times> 'a) list" where
  "map_assign k v [] = [(k, v)]"
| "map_assign k v ((k', v') # m) =
     (if k < k' then (k, v) # (k', v') # m
      else if k = k' then (k, v) # m
      else (k', v') # map_assign k v m)"

definition new_server :: "string \<Rightarrow> int \<Rightarrow> 'w plugin_server" where
  "new_server name version = \<lparr>srv_name = name, srv_version = version, srv_drivers = []\<rparr>"

text \<open>\<open>Server::addDriver\<close>: the versions must match. \<open>getAllDrivers\<close>: in the order of their names.\<close>

definition add_driver :: "'w driver \<Rightarrow> int \<Rightarrow> 'w plugin_server \<Rightarrow> 'w plugin_server" where
  "add_driver d version s =
     (if version = srv_version s then s\<lparr>srv_drivers := map_assign (drv_name d) d (srv_drivers s)\<rparr> else s)"

definition get_all_drivers :: "'w plugin_server \<Rightarrow> 'w driver list" where
  "get_all_drivers s = map snd (srv_drivers s)"

definition add_server :: "'w plugin_server \<Rightarrow> 'w kernel \<Rightarrow> 'w kernel" where
  "add_server s K = (if map_of (k_servers K) (srv_name s) = None
     then K\<lparr>k_servers := map_assign (srv_name s) s (k_servers K)\<rparr> else K)"

definition get_server :: "'w kernel \<Rightarrow> string \<Rightarrow> 'w plugin_server option" where
  "get_server K name = map_of (k_servers K) name"

text \<open>\<open>Kernel::loadPlugin\<close>: a library is loaded and registered once; a second attempt answers false.\<close>

definition kernel_load :: "(string \<rightharpoonup> ('w kernel \<Rightarrow> 'w kernel outcome)) \<Rightarrow> string \<Rightarrow> 'w kernel \<Rightarrow> (bool \<times> 'w kernel) outcome" where
  "kernel_load libs path K =
     (if path \<in> set (k_plugins K) then Return (False, K)
      else
      (case libs path of
         None \<Rightarrow> Return (False, K)
       | Some register \<Rightarrow>
           out_bind (register (K\<lparr>k_plugins := path # k_plugins K\<rparr>)) (\<lambda>K'. Return (True, K'))))"

section \<open>The plugin manager\<close>

definition PLG_BOOTSTRAP_SERVER_NAME :: string where "PLG_BOOTSTRAP_SERVER_NAME = ''BootstrapServer''"
definition PLG_LOCALSTORAGE_SERVER_NAME :: string where "PLG_LOCALSTORAGE_SERVER_NAME = ''LocalStorageServer''"
definition PLG_REMOTESTORAGE_SERVER_NAME :: string where "PLG_REMOTESTORAGE_SERVER_NAME = ''RemoteStorageServer''"
definition PLG_SESSION_SERVER_NAME :: string where "PLG_SESSION_SERVER_NAME = ''SessionServer''"
definition PLG_UTIL_SERVER_NAME :: string where "PLG_UTIL_SERVER_NAME = ''GenericServer''"

text \<open>All five servers have version 1.\<close>

definition pm_init :: "'w kernel \<Rightarrow> bool \<times> 'w kernel" where
  "pm_init K = (True,
     add_server (new_server PLG_UTIL_SERVER_NAME 1)
     (add_server (new_server PLG_SESSION_SERVER_NAME 1)
     (add_server (new_server PLG_REMOTESTORAGE_SERVER_NAME 1)
     (add_server (new_server PLG_LOCALSTORAGE_SERVER_NAME 1)
     (add_server (new_server PLG_BOOTSTRAP_SERVER_NAME 1) K)))))"

definition pm_loadPlugin ::
  "(string \<rightharpoonup> ('w kernel \<Rightarrow> 'w kernel outcome)) \<Rightarrow> string \<Rightarrow> string \<Rightarrow> string \<Rightarrow> 'w kernel \<Rightarrow> (bool \<times> 'w kernel) outcome" where
  "pm_loadPlugin libs plugin_name plugin_path plugin_working_directory K = kernel_load libs plugin_path K"

text \<open>A plugin library's \<open>registerPlugin\<close>, with its assertion that the server exists.\<close>

definition register_driver :: "string \<Rightarrow> int \<Rightarrow> 'w driver \<Rightarrow> 'w kernel \<Rightarrow> 'w kernel outcome" where
  "register_driver server version d K =
     (case get_server K server of
        None \<Rightarrow> Stuck
      | Some s \<Rightarrow> Return (K\<lparr>k_servers := map_assign server (add_driver d version s) (k_servers K)\<rparr>))"

section \<open>ModuleManager::init\<close>

fun load_modules :: "(string \<rightharpoonup> ('w kernel \<Rightarrow> 'w kernel outcome)) \<Rightarrow> string list \<Rightarrow> 'w kernel \<Rightarrow> (bool \<times> 'w kernel) outcome" where
  "load_modules libs [] K = Return (True, K)"
| "load_modules libs (m # ms) K =
     out_bind (pm_loadPlugin libs m (''./'' @ m @ ''.so'') m K) (\<lambda>(ok, K').
     if \<not> ok then Return (False, K') else load_modules libs ms K')"

text \<open>The loops over drivers: create, initialise, remember; the first failure ends them.\<close>

fun start_plugins :: "'w driver list \<Rightarrow> 'w module_manager \<Rightarrow> 'w localstorage list \<Rightarrow>
    ('w, bool \<times> 'w module_manager \<times> 'w localstorage list) io" where
  "start_plugins [] mm done = io_return (True, mm, done)"
| "start_plugins (d # ds) mm done =
     io_bind (drv_start d mm) (\<lambda>(ok, mm', plg).
     if \<not> ok then io_return (False, mm', done) else start_plugins ds mm' (done @ [plg]))"

definition mm_init ::
  "(string \<rightharpoonup> ('w kernel \<Rightarrow> 'w kernel outcome)) \<Rightarrow> string list \<Rightarrow> 'w kernel \<Rightarrow> 'w module_manager \<Rightarrow>
   ('w, bool \<times> 'w module_manager \<times> 'w kernel) io" where
  "mm_init libs modules K mm =
     io_bind (io_of (load_modules libs modules K)) (\<lambda>(ok, K').
     if \<not> ok then io_return (False, mm, K')
     else
     (case get_server K' PLG_LOCALSTORAGE_SERVER_NAME of
        None \<Rightarrow> io_stuck
      | Some ls \<Rightarrow>
          io_bind (start_plugins (get_all_drivers ls) mm (mm_localstorages mm)) (\<lambda>(ok1, mm1, plgs).
          let mm2 = mm1\<lparr>mm_localstorages := plgs\<rparr> in
          if \<not> ok1 then io_return (False, mm2, K')
          else
          (case get_server K' PLG_UTIL_SERVER_NAME of
             None \<Rightarrow> io_stuck
           | Some us \<Rightarrow>
               io_bind (start_plugins (get_all_drivers us) mm2 []) (\<lambda>(ok2, mm3, _).
               io_return (ok2, mm3, K'))))))"

section \<open>The storage plugins\<close>

definition ff_plugin :: "(string \<Rightarrow> string) \<Rightarrow> 'w fs_ops \<Rightarrow> ffstore \<Rightarrow> 'w localstorage" where
  "ff_plugin H fs st = ls_default\<lparr>ls_getName := ''ffstore'',
     ls_kv_put := ff_kv_put H fs st,
     ls_kv_get := (\<lambda>k _. io_bind (ff_kv_get H fs st k) (\<lambda>(b, m). io_return (b, Some m))),
     ls_kv_get_unique := default_kv_get_unique (\<lambda>k _. io_bind (ff_kv_get H fs st k) (\<lambda>(b, m). io_return (b, Some m))),
     ls_kv_remove := ff_kv_remove H fs st\<rparr>"

text \<open>
  \<open>FFStoreDriver::createPlugin\<close> and \<open>FFStore::initialise\<close>: the slots are bound to the plugin, so they act
  on the fields it has after the start. A failed \<open>get_config\<close> leaves the configuration empty.
\<close>

definition ff_start :: "(string \<Rightarrow> string) \<Rightarrow> 'w fs_ops \<Rightarrow> config_manager \<Rightarrow> 'w plugin_start" where
  "ff_start H fs cm mm =
     io_bind (io_of (get_config cm ''ffstore'')) (\<lambda>config.
     let cfg = (case config of None \<Rightarrow> (\<lambda>_. None) | Some c \<Rightarrow> c) in
     io_bind (ff_initialise fs (cm_data_dir cm) cfg \<lparr>ff_path = [], ff_link_dir = [], ff_data_dir = []\<rparr>) (\<lambda>(ok, st).
     io_return (ok, mm\<lparr>sig_kv_put := sig_kv_put mm @ [ff_kv_put H fs st],
       sig_kv_get := sig_kv_get mm @ [\<lambda>k r. io_bind (ff_kv_get H fs st k) (\<lambda>(b, m). io_return (b, Some m))],
       sig_kv_remove := sig_kv_remove mm @ [ff_kv_remove H fs st]\<rparr>, ff_plugin H fs st)))"

definition ff_driver :: "(string \<Rightarrow> string) \<Rightarrow> 'w fs_ops \<Rightarrow> config_manager \<Rightarrow> 'w driver" where
  "ff_driver H fs cm = \<lparr>drv_name = ''FFstore_driver'', drv_start = ff_start H fs cm\<rparr>"

definition ff_register :: "(string \<Rightarrow> string) \<Rightarrow> 'w fs_ops \<Rightarrow> config_manager \<Rightarrow> 'w kernel \<Rightarrow> 'w kernel outcome" where
  "ff_register H fs cm = register_driver PLG_LOCALSTORAGE_SERVER_NAME 1 (ff_driver H fs cm)"

text \<open>The block store, whose fields and caches are part of the state its functions act on.\<close>

definition bs_start ::
  "(string \<Rightarrow> string) \<Rightarrow> 'w fs_ops \<Rightarrow> (nat \<Rightarrow> string) \<Rightarrow> (string \<Rightarrow> int option) \<Rightarrow> config_manager \<Rightarrow> (blockstore \<times> 'w) plugin_start" where
  "bs_start H fs ovr tr cm mm = (\<lambda>(st, w).
     io_bind (io_of (get_config cm ''blockstore'')) (\<lambda>config (st, w).
       case bs_initialise fs tr (cm_data_dir cm) config st w of
         (Return (ok, st'), w') \<Rightarrow> (Return (ok, bs_connect H fs ovr mm, bs_plugin H fs ovr), (st', w'))
       | (Throw e, w') \<Rightarrow> (Throw e, (st, w'))
       | (Stuck, w') \<Rightarrow> (Stuck, (st, w'))) (st, w))"

definition bs_driver ::
  "(string \<Rightarrow> string) \<Rightarrow> 'w fs_ops \<Rightarrow> (nat \<Rightarrow> string) \<Rightarrow> (string \<Rightarrow> int option) \<Rightarrow> config_manager \<Rightarrow> (blockstore \<times> 'w) driver" where
  "bs_driver H fs ovr tr cm = \<lparr>drv_name = ''blockstore_driver'', drv_start = bs_start H fs ovr tr cm\<rparr>"

definition bs_register ::
  "(string \<Rightarrow> string) \<Rightarrow> 'w fs_ops \<Rightarrow> (nat \<Rightarrow> string) \<Rightarrow> (string \<Rightarrow> int option) \<Rightarrow> config_manager \<Rightarrow>
   (blockstore \<times> 'w) kernel \<Rightarrow> (blockstore \<times> 'w) kernel outcome" where
  "bs_register H fs ovr tr cm = register_driver PLG_LOCALSTORAGE_SERVER_NAME 1 (bs_driver H fs ovr tr cm)"

section \<open>Lemmas\<close>

lemma map_of_map_assign: "map_of (map_assign k v m) = (map_of m)(k \<mapsto> v)" if "sorted (map fst m)"
  using that
proof (induction m)
  case (Cons p m)
  obtain k' v' where p: "p = (k', v')" by (cases p)
  from Cons show ?case by (auto simp: p fun_eq_iff)
qed auto

lemma map_assign_sorted:
  "sorted (map fst m) \<and> distinct (map fst m) \<Longrightarrow> sorted (map fst (map_assign k v m)) \<and> distinct (map fst (map_assign k v m))"
proof (induction m)
  case (Cons p m)
  obtain k' v' where p: "p = (k', v')" by (cases p)
  have keys: "fst ` set (map_assign k v m) = insert k (fst ` set m)" for m :: "(string \<times> 'a) list"
    by (induction k v m rule: map_assign.induct) auto
  from Cons show ?case by (auto simp: p keys)
qed simp

text \<open>Names are keys: sorted and unique, for the servers and for the drivers of each.\<close>

definition keyed :: "(string \<times> 'a) list \<Rightarrow> bool" where
  "keyed m \<longleftrightarrow> sorted (map fst m) \<and> distinct (map fst m)"

definition server_ok :: "string \<times> 'w plugin_server \<Rightarrow> bool" where
  "server_ok p \<longleftrightarrow> srv_name (snd p) = fst p \<and> keyed (srv_drivers (snd p))
     \<and> (\<forall>(n, d) \<in> set (srv_drivers (snd p)). drv_name d = n)"

definition kernel_ok :: "'w kernel \<Rightarrow> bool" where
  "kernel_ok K \<longleftrightarrow> distinct (k_plugins K) \<and> keyed (k_servers K) \<and> (\<forall>p \<in> set (k_servers K). server_ok p)"

lemma keyed_assign: "keyed m \<Longrightarrow> keyed (map_assign k v m)"
  unfolding keyed_def by (rule map_assign_sorted)

lemma set_map_assign: "set (map_assign k v m) \<subseteq> insert (k, v) (set m)"
  by (induction k v m rule: map_assign.induct) auto

lemma server_ok_add_driver: "server_ok (n, s) \<Longrightarrow> server_ok (n, add_driver d version s)"
  using set_map_assign [of "drv_name d" d "srv_drivers s"]
  by (auto simp: server_ok_def add_driver_def keyed_assign)

lemma kernel_ok_add_server: "kernel_ok K \<Longrightarrow> server_ok (srv_name s, s) \<Longrightarrow> kernel_ok (add_server s K)"
  using set_map_assign [of "srv_name s" s "k_servers K"]
  by (auto simp: kernel_ok_def add_server_def keyed_assign)

lemma server_ok_new: "server_ok (srv_name (new_server n v), new_server n v)"
  by (simp add: server_ok_def new_server_def keyed_def)

lemma kernel_ok_pm_init: "kernel_ok K \<Longrightarrow> kernel_ok (snd (pm_init K))"
  by (simp add: pm_init_def kernel_ok_add_server server_ok_new)

lemma kernel_ok_register:
  assumes "kernel_ok K" and "register_driver n v d K = Return K'"
  shows "kernel_ok K' \<and> k_plugins K' = k_plugins K"
proof -
  from assms(2) obtain s where s: "map_of (k_servers K) n = Some s"
    and K': "K' = K\<lparr>k_servers := map_assign n (add_driver d v s) (k_servers K)\<rparr>"
    by (auto simp: register_driver_def get_server_def split: option.splits)
  from s have "(n, s) \<in> set (k_servers K)" by (rule map_of_SomeD)
  with assms(1) have "server_ok (n, s)" by (auto simp: kernel_ok_def)
  then have "server_ok (n, add_driver d v s)" by (rule server_ok_add_driver)
  with assms(1) set_map_assign [of n "add_driver d v s" "k_servers K"] show ?thesis
    by (auto simp: K' kernel_ok_def keyed_assign)
qed

text \<open>Every library registers one driver with one server, as the six of the repository do.\<close>

definition libs_ok :: "(string \<rightharpoonup> ('w kernel \<Rightarrow> 'w kernel outcome)) \<Rightarrow> bool" where
  "libs_ok libs \<longleftrightarrow> (\<forall>p f. libs p = Some f \<longrightarrow> (\<exists>n v d. f = register_driver n v d))"

lemma kernel_load_ok:
  assumes "libs_ok libs" and "kernel_ok K" and "kernel_load libs path K = Return (ok, K')"
  shows "kernel_ok K' \<and> (if ok then path \<notin> set (k_plugins K) \<and> k_plugins K' = path # k_plugins K else K' = K)"
proof (cases "path \<in> set (k_plugins K) \<or> libs path = None")
  case True
  with assms(2,3) show ?thesis by (auto simp: kernel_load_def split: if_splits)
next
  case False
  then obtain f where f: "libs path = Some f" by auto
  with assms(1) obtain n v d where fd: "f = register_driver n v d" unfolding libs_ok_def by blast
  let ?K = "K\<lparr>k_plugins := path # k_plugins K\<rparr>"
  have "kernel_ok ?K" using assms(2) False by (simp add: kernel_ok_def)
  moreover from assms(3) False f fd have "register_driver n v d ?K = Return K'" "ok"
    by (auto simp: kernel_load_def elim!: out_bind_returnE)
  ultimately show ?thesis using kernel_ok_register [of ?K n v d K'] False by simp
qed

lemma load_modules_ok:
  assumes "libs_ok libs" and "kernel_ok K" and "load_modules libs ms K = Return (ok, K')"
  shows "kernel_ok K' \<and> (ok \<longrightarrow> distinct (map (\<lambda>m. ''./'' @ m @ ''.so'') ms)
    \<and> set (k_plugins K') = (\<lambda>m. ''./'' @ m @ ''.so'') ` set ms \<union> set (k_plugins K)
    \<and> set (k_plugins K) \<inter> (\<lambda>m. ''./'' @ m @ ''.so'') ` set ms = {})"
  using assms(2,3)
proof (induction ms arbitrary: K)
  case (Cons m ms)
  from Cons.prems(2) obtain ok1 K1 where ld: "kernel_load libs (''./'' @ m @ ''.so'') K = Return (ok1, K1)"
    and rest: "(if \<not> ok1 then Return (False, K1) else load_modules libs ms K1) = Return (ok, K')"
    by (auto simp: pm_loadPlugin_def elim!: out_bind_returnE)
  note step = kernel_load_ok [OF assms(1) Cons.prems(1) ld]
  show ?case
  proof (cases ok1)
    case True
    with rest Cons.IH [of K1] step show ?thesis by auto
  next
    case False
    with rest step show ?thesis by auto
  qed
qed simp

section \<open>A daemon with the flat file store\<close>

definition kernel_new :: "'w kernel" where
  "kernel_new = \<lparr>k_plugins = [], k_servers = []\<rparr>"

definition kernel_ff :: "(string \<Rightarrow> string) \<Rightarrow> 'w fs_ops \<Rightarrow> config_manager \<Rightarrow> 'w kernel" where
  "kernel_ff H fs cm = \<lparr>k_plugins = [''./libls_flatfile.so''], k_servers =
     [(''BootstrapServer'', new_server ''BootstrapServer'' 1), (''GenericServer'', new_server ''GenericServer'' 1),
      (''LocalStorageServer'', \<lparr>srv_name = ''LocalStorageServer'', srv_version = 1, srv_drivers = [(''FFstore_driver'', ff_driver H fs cm)]\<rparr>),
      (''RemoteStorageServer'', new_server ''RemoteStorageServer'' 1), (''SessionServer'', new_server ''SessionServer'' 1)]\<rparr>"

lemmas server_names = PLG_BOOTSTRAP_SERVER_NAME_def PLG_LOCALSTORAGE_SERVER_NAME_def PLG_REMOTESTORAGE_SERVER_NAME_def
  PLG_SESSION_SERVER_NAME_def PLG_UTIL_SERVER_NAME_def

lemma load_ff:
  assumes "libs ''./libls_flatfile.so'' = Some (ff_register H fs cm)"
  shows "load_modules libs [''libls_flatfile''] (snd (pm_init kernel_new)) = Return (True, kernel_ff H fs cm)"
  using assms
  by (simp add: pm_loadPlugin_def kernel_load_def ff_register_def register_driver_def pm_init_def kernel_new_def
      add_server_def new_server_def get_server_def add_driver_def server_names kernel_ff_def ff_driver_def)

text \<open>The manager that a start with the flat file store leaves, on a data directory without one.\<close>

lemma mm_init_ff:
  assumes "sha512_size H" and "fs_spec fs nd" and "libs ''./libls_flatfile.so'' = Some (ff_register H fs cm)"
    and "get_config cm ''ffstore'' = Return None"
    and "\<And>p. nd w (cm_data_dir cm @ ''/ffstore/'' @ p) = None"
    and "mm_init libs [''libls_flatfile''] (snd (pm_init kernel_new)) mm_new w = (Return (True, mm, K), w')"
  shows "\<exists>st. mm = (mm_ff H fs st)\<lparr>mm_localstorages := [ff_plugin H fs st]\<rparr> \<and> ff_inv H fs nd st w'
    \<and> (\<forall>k. ff_vals H nd st w' k = {}) \<and> (\<forall>p. nd w' (ff_data_dir st @ p) = None)"
proof -
  have srv: "get_server (kernel_ff H fs cm) ''LocalStorageServer'' =
      Some \<lparr>srv_name = ''LocalStorageServer'', srv_version = 1, srv_drivers = [(''FFstore_driver'', ff_driver H fs cm)]\<rparr>"
    "get_server (kernel_ff H fs cm) ''GenericServer'' = Some (new_server ''GenericServer'' 1)"
    by (simp_all add: get_server_def kernel_ff_def)
  have "mm_init libs [''libls_flatfile''] (snd (pm_init kernel_new)) mm_new
      = io_bind (start_plugins [ff_driver H fs cm] mm_new []) (\<lambda>(ok1, mm1, plgs).
          io_return (ok1, mm1\<lparr>mm_localstorages := plgs\<rparr>, kernel_ff H fs cm))"
    unfolding mm_init_def load_ff [of libs, OF assms(3)]
    by (simp add: srv server_names get_all_drivers_def new_server_def mm_new_def Let_def)
       (rule arg_cong [of _ _ "io_bind _"], auto simp: fun_eq_iff srv server_names get_all_drivers_def new_server_def)
  with assms(6) obtain st where
      run: "ff_initialise fs (cm_data_dir cm) (\<lambda>_. None) \<lparr>ff_path = [], ff_link_dir = [], ff_data_dir = []\<rparr> w = (Return (True, st), w')"
    and mm: "mm = (mm_ff H fs st)\<lparr>mm_localstorages := [ff_plugin H fs st]\<rparr>"
    by (auto simp: ff_driver_def ff_start_def assms(4) Let_def mm_ff_def mm_new_def elim!: io_bind_returnE split: if_splits)
  from ff_initialise_inv [OF assms(1,2,5) run] ff_initialise_raw_empty [OF assms(2,5) run] mm show ?thesis by blast
qed

interpretation started: object_db "ff_kv_put H fs st" "ff_kv_get H fs st" "ff_kv_remove H fs st"
  "ff_inv H fs nd st" "ff_vals H nd st" "\<lambda>v. toHex (H v)" "ff_storable H nd st" "ff_clash H"
  "(mm_ff H fs st)\<lparr>mm_localstorages := ps\<rparr>" for H fs nd st ps
  by unfold_locales (auto simp: mm_ff_def mm_kv_put_single mm_kv_remove_single mm_kv_get_def io_simps
      split: prod.splits outcome.splits)

section \<open>Properties\<close>

text \<open>
  C20: Loading modules keeps the plugin kernel well formed: servers and drivers are filed under their own
  names, each name once, and a library is registered at most once. When all modules load, the loaded
  libraries are exactly those of the modules besides the ones loaded before, and the modules were
  pairwise different and new: a module listed after its library was loaded makes \<open>init\<close> fail.
\<close>

theorem load_modules_kernel:
  assumes "libs_ok libs" and "kernel_ok K" and "load_modules libs ms (snd (pm_init K)) = Return (ok, K')"
  shows "kernel_ok K' \<and> (ok \<longrightarrow> distinct ms
    \<and> set (k_plugins K') = (\<lambda>m. ''./'' @ m @ ''.so'') ` set ms \<union> set (k_plugins (snd (pm_init K)))
    \<and> set (k_plugins (snd (pm_init K))) \<inter> (\<lambda>m. ''./'' @ m @ ''.so'') ` set ms = {})"
  using load_modules_ok [OF assms(1) kernel_ok_pm_init [OF assms(2)] assms(3)] by (auto simp: distinct_map)

lemma kernel_ok_new: "kernel_ok kernel_new"
  by (simp add: kernel_ok_def kernel_new_def keyed_def)

definition ff_libs :: "config_manager \<Rightarrow> string \<rightharpoonup> (posix kernel \<Rightarrow> posix kernel outcome)" where
  "ff_libs cm = [''./libls_flatfile.so'' \<mapsto> ff_register pad64 posix_ops cm]"

theorem load_modules_kernel_witness:
  "load_modules (ff_libs conf_cm1) [''libls_flatfile''] (snd (pm_init kernel_new)) = Return (True, kernel_ff pad64 posix_ops conf_cm1)
   \<and> kernel_ok (kernel_ff pad64 posix_ops conf_cm1)"
proof -
  have libs: "libs_ok (ff_libs conf_cm1)"
    by (auto simp: libs_ok_def ff_libs_def ff_register_def split: if_splits)
  have ld: "load_modules (ff_libs conf_cm1) [''libls_flatfile''] (snd (pm_init kernel_new)) = Return (True, kernel_ff pad64 posix_ops conf_cm1)"
    by (rule load_ff) (simp add: ff_libs_def)
  from load_modules_kernel [OF libs kernel_ok_new ld] ld show ?thesis by blast
qed

text \<open>
  C13: From start to storage. When the module manager has started with the flat file store (the library
  \<open>libls_flatfile\<close>, as the build names it) as its only module, on a data directory without one, whatever object is created first is what loading its id gives back.
\<close>

theorem daemon_start_create_load:
  assumes "sha512_size H" and "fs_spec fs nd" and "archive_spec ar"
    and "libs ''./libls_flatfile.so'' = Some (ff_register H fs cm)" and "get_config cm ''ffstore'' = Return None"
    and "\<And>p. nd w (cm_data_dir cm @ ''/ffstore/'' @ p) = None"
    and "mm_init libs [''libls_flatfile''] (snd (pm_init kernel_new)) mm_new w = (Return (True, mm, K), w1)"
    and "key_ok cid" and "object_create_as H d clk ar mm new_Object inp cid w1 = (Return (True, obj), w2)"
    and "length (oarchive ar obj) < 2 ^ 32"
  shows "\<exists>obj'. object_load ar mm cid into w2 = (Return (True, obj'), w2) \<and> object_get obj' = inp"
proof -
  from mm_init_ff [OF assms(1,2,4-7)] obtain st where
    mm: "mm = (mm_ff H fs st)\<lparr>mm_localstorages := [ff_plugin H fs st]\<rparr>" and inv: "ff_inv H fs nd st w1"
    and emp: "\<And>k. ff_vals H nd st w1 k = {}" and raw: "\<And>p. nd w1 (ff_data_dir st @ p) = None" by blast
  have "ff_storable H nd st w1 (oarchive ar obj)" using assms(10) raw by (simp add: ff_storable_def raw_file_def)
  from started.object_create_as_stored [OF inv assms(8) emp this assms(9) [unfolded mm]]
  have st: "db_stored (ff_inv H fs nd st) (ff_vals H nd st) ar obj w2" and i: "obj_id obj = cid"
    and h: "obj_history H d [inp] obj" by auto
  from started.load_stored [OF assms(3) st, of "[ff_plugin H fs st]" into] i obj_history_head [OF h] show ?thesis
    unfolding mm by (simp add: object_load_def object_get_def)
qed

text \<open>A configuration manager without sections for the plugins.\<close>

definition mm1 :: "posix module_manager" where
  "mm1 = mm0\<lparr>mm_localstorages := [ff_plugin pad64 posix_ops ff_st1]\<rparr>"

lemma conf_no_section: "get_config conf_cm1 ''ffstore'' = Return None"
  by (simp add: get_config_def modules_config_def ptree_get_child_def split_dots_def conf_cm1_def conf_tree_def)

lemma start_run:
  "mm_init (ff_libs conf_cm1) [''libls_flatfile''] (snd (pm_init kernel_new)) mm_new ff_w0
   = (Return (True, mm1, kernel_ff pad64 posix_ops conf_cm1), ff_w1)"
proof -
  have "cm_data_dir conf_cm1 = ''/d''" by (simp add: conf_cm1_def)
  then show ?thesis
    using load_ff [of "ff_libs conf_cm1" pad64 posix_ops conf_cm1] ff_start_run
    by (simp add: mm_init_def ff_libs_def kernel_ff_def get_server_def server_names get_all_drivers_def new_server_def
        ff_driver_def ff_start_def conf_no_section io_simps Let_def mm_new_def mm1_def mm_ff_def del: load_modules.simps)
qed

lemma create_run1:
  "object_create_as pad64 prefix_dmp (\<lambda>_. Some 5) plain_archive mm1 new_Object ''ab'' ''note'' ff_w1 = (Return (True, note1), db_w1)"
  using db_create_run
  by (simp add: object_create_as_def db_create_object_def mm_kv_put_def mm1_def Let_def cong: if_cong)

theorem daemon_start_create_load_witness:
  "\<exists>obj'. object_load plain_archive mm1 ''note'' new_Object db_w1 = (Return (True, obj'), db_w1) \<and> object_get obj' = ''ab''"
proof -
  have libs: "ff_libs conf_cm1 ''./libls_flatfile.so'' = Some (ff_register pad64 posix_ops conf_cm1)"
    by (simp add: ff_libs_def)
  have fresh: "posix_nd ff_w0 (cm_data_dir conf_cm1 @ ''/ffstore/'' @ p) = None" for p
    using ff_w0_fresh by (simp add: conf_cm1_def)
  from daemon_start_create_load [of pad64, OF pad64_size posix_fs_spec plain_archive_spec libs conf_no_section fresh start_run _ create_run1]
  show ?thesis using note_archives(1) by (simp add: key_ok_def)
qed

end
