(* ===== verification/Daemon.thy ===== *)
theory Daemon
  imports Plugins Storage RpcServer
begin

text \<open>
  The daemon around the managers: \<open>src/daemon/daemon.cc\<close>, \<open>main.cc\<close>, \<open>net_manager.{h,cc}\<close>, the severity
  levels of the loggers, the plugin \<open>file_logger\<close>, and the registration of the utility plugins.

  Parameters, as one record: what the other theories take as parameters, and what the daemon asks of
  the operating system and the I/O library: making the log file's sink, opening a listening socket,
  running the I/O service until it is stopped, \<open>fork\<close> and \<open>setsid\<close>.
\<close>

section \<open>The environment and the daemon's state\<close>

record 'w daemon_env =
  env_H :: "string \<Rightarrow> string"
  env_dmp :: dmp_ops
  env_clk :: "'w \<Rightarrow> ptime"
  env_ar :: archive
  env_parse :: "string \<Rightarrow> 'w \<Rightarrow> ptree outcome"
  env_tr :: "string \<Rightarrow> int option"
  env_home :: "string option"
  env_fs :: "'w fs_ops"
  env_libs :: "config_manager \<Rightarrow> string \<rightharpoonup> ('w kernel \<Rightarrow> 'w kernel outcome)"
  env_logger :: "string \<Rightarrow> ('w, bool) io"
  env_listen :: "int \<Rightarrow> ('w, unit) io"
  env_run :: "'w rpc_method list \<Rightarrow> ('w, unit) io"
  env_fork :: "('w, int) io"
  env_setsid :: "('w, int) io"

text \<open>
  \<open>Singleton\<close>: whether \<open>call_once\<close> has run, and the scoped pointer. \<open>instance\<close> after \<open>kill\<close> dereferences a null
  pointer, since the constructor is called once only.
\<close>

record 'a singleton =
  sg_flag :: bool
  sg_t :: "'a option"

definition sg_instance :: "'a \<Rightarrow> 'a singleton \<Rightarrow> ('a \<times> 'a singleton) outcome" where
  "sg_instance new s =
     (if sg_flag s then (case sg_t s of Some a \<Rightarrow> Return (a, s) | None \<Rightarrow> Stuck)
      else Return (new, \<lparr>sg_flag = True, sg_t = Some new\<rparr>))"

definition sg_kill :: "'a singleton \<Rightarrow> 'a singleton" where
  "sg_kill s = s\<lparr>sg_t := None\<rparr>"

definition sg_new :: "'a singleton" where
  "sg_new = \<lparr>sg_flag = False, sg_t = None\<rparr>"

text \<open>
  The managers of the process that keep state; \<open>dm_io_stopped\<close> is whether the I/O services of the network and
  RPC managers were stopped.
\<close>

record 'w daemon =
  dm_config :: config_manager
  dm_kernel :: "'w kernel"
  dm_modules :: "'w module_manager singleton"
  dm_io_stopped :: bool
  dm_storage :: "storage_manager option"
  dm_net :: "'w rpc_method list option"
  dm_rpc :: "'w rpc_method list option"

text \<open>\<open>p2p::Discovery\<close> and the server of the network manager. Its \<open>run\<close> is never called.\<close>

definition p2p_Hello :: "json \<Rightarrow> json \<Rightarrow> ('w, bool \<times> json) io" where
  "p2p_Hello root response = io_return (False, response)"

definition p2p_GetPeers :: "json \<Rightarrow> json \<Rightarrow> ('w, bool \<times> json) io" where
  "p2p_GetPeers root response = io_return (False, response)"

text \<open>\<open>RpcServer\<close>'s constructor takes the port as a \<open>short\<close>.\<close>

definition to_short :: "int \<Rightarrow> int" where
  "to_short x = (x + 2 ^ 15) mod 2 ^ 16 - 2 ^ 15"

definition net_init :: "'w daemon_env \<Rightarrow> config_manager \<Rightarrow> ('w, 'w rpc_method list) io" where
  "net_init env cm =
     io_bind (env_listen env (to_short (cm_port cm))) (\<lambda>_.
     io_return (AddMethod (rpc_entry p2p_GetPeers ''GetPeers'') (AddMethod (rpc_entry p2p_Hello ''Hello'') new_Handler)))"

definition rpc_init :: "'w daemon_env \<Rightarrow> config_manager \<Rightarrow> 'w module_manager \<Rightarrow> ('w, 'w rpc_method list) io" where
  "rpc_init env cm mm =
     io_bind (env_listen env (to_short (cm_rpc_port cm))) (\<lambda>_.
     io_return (rpc_manager_init (env_H env) (env_dmp env) (env_clk env) (env_ar env) mm))"

section \<open>anDaemon\<close>

text \<open>\<open>anDaemon::init\<close>: the managers one after the other; the first that fails ends it.\<close>

definition daemon_init :: "'w daemon_env \<Rightarrow> string \<Rightarrow> 'w daemon \<Rightarrow> ('w, bool \<times> 'w daemon) io" where
  "daemon_init env directory d =
     io_bind (cm_init (env_parse env) (env_tr env) (env_home env) (env_fs env) directory (dm_config d)) (\<lambda>(ok, cm).
     let d1 = d\<lparr>dm_config := cm\<rparr> in
     if \<not> ok then io_return (False, d1)
     else
     io_bind (env_logger env ''ad.log'') (\<lambda>ok.
     if \<not> ok then io_return (False, d1)
     else
     let (ok, K) = pm_init (dm_kernel d1); d2 = d1\<lparr>dm_kernel := K\<rparr> in
     if \<not> ok then io_return (False, d2)
     else
     io_bind (io_of (sg_instance mm_new (dm_modules d2))) (\<lambda>(mm0, sg).
     io_bind (mm_init (env_libs env cm) (cm_modules cm) K mm0) (\<lambda>(ok, mm, K').
     let d3 = d2\<lparr>dm_kernel := K', dm_modules := sg\<lparr>sg_t := Some mm\<rparr>\<rparr> in
     if \<not> ok then io_return (False, d3)
     else
     io_bind (io_of sm_init) (\<lambda>sm.
     io_bind (net_init env cm) (\<lambda>net.
     io_bind (rpc_init env cm mm) (\<lambda>rpc.
     io_return (True, d3\<lparr>dm_storage := Some sm, dm_net := Some net, dm_rpc := Some rpc\<rparr>))))))))"

text \<open>
  \<open>anDaemon::run\<close>: the RPC manager's \<open>run\<close> in a thread, joined; it catches and logs standard exceptions. Another
  exception leaves the thread function, which terminates the process.
\<close>

definition daemon_run :: "'w daemon_env \<Rightarrow> 'w daemon \<Rightarrow> ('w, unit) io" where
  "daemon_run env d =
     (case dm_rpc d of
        None \<Rightarrow> io_stuck
      | Some ms \<Rightarrow> io_catch (env_run env ms) (\<lambda>e. case e of
            Thrown_string s \<Rightarrow> Some io_stuck | Thrown_int i \<Rightarrow> Some io_stuck | _ \<Rightarrow> Some (io_return ())))"

text \<open>
  \<open>anDaemon::stop\<close>: the I/O services are told to stop, which does not wait for running handlers; the module
  manager is destroyed (so is the database manager, which has no state).
\<close>

definition daemon_stop :: "'w daemon \<Rightarrow> 'w daemon" where
  "daemon_stop d = d\<lparr>dm_io_stopped := True, dm_modules := sg_kill (dm_modules d)\<rparr>"

section \<open>main\<close>

record options =
  opt_help :: bool
  opt_version :: bool
  opt_daemonize :: bool
  opt_directory :: string

definition EXIT_SUCCESS :: int where "EXIT_SUCCESS = 0"
definition EXIT_FAILURE :: int where "EXIT_FAILURE = 1"

text \<open>The fork of a daemon: an exit code, or \<open>None\<close> to go on in the child.\<close>

definition daemonize :: "'w daemon_env \<Rightarrow> ('w, int option) io" where
  "daemonize env =
     io_bind (env_fork env) (\<lambda>pid.
     if pid < 0 then io_return (Some EXIT_FAILURE)
     else if 0 < pid then io_return (Some EXIT_SUCCESS)
     else io_bind (env_setsid env) (\<lambda>sid.
       if sid < 0 then io_return (Some EXIT_FAILURE) else io_return None))"

text \<open>
  \<open>main\<close> on the parsed command line (the parser may throw): the exit code of the process. All exceptions
  are caught. Installing the signal handlers can only print a message.
\<close>

definition main_prog :: "'w daemon_env \<Rightarrow> options outcome \<Rightarrow> 'w daemon \<Rightarrow> ('w, int) io" where
  "main_prog env opts d =
     io_catch
       (io_bind (io_of opts) (\<lambda>vm.
        if opt_help vm then io_return 1
        else if opt_version vm then io_return 0
        else
        io_bind (io_of (expand_home (env_home env) (opt_directory vm))) (\<lambda>directory.
        io_bind (daemon_init env directory d) (\<lambda>(ok, d1).
        if \<not> ok then io_return EXIT_FAILURE
        else
        io_bind (if opt_daemonize vm then daemonize env else io_return None) (\<lambda>code.
        case code of
          Some c \<Rightarrow> io_return c
        | None \<Rightarrow> io_bind (daemon_run env d1) (\<lambda>_. io_return EXIT_SUCCESS))))))
       (\<lambda>e. Some (io_return EXIT_FAILURE))"

text \<open>\<open>signal_handler\<close>: the signals that stop the daemon.\<close>

datatype os_signal = SIGINT | SIGHUP | SIGQUIT | SIGKILL | SIGTERM | Other_signal int

definition signal_handler :: "os_signal \<Rightarrow> 'w daemon \<Rightarrow> 'w daemon" where
  "signal_handler code d = (case code of Other_signal _ \<Rightarrow> d | _ \<Rightarrow> daemon_stop d)"

section \<open>Severity levels and the file logger\<close>

datatype severity_level = DEBUG | INFO | WARNING | ERROR | FATAL

definition severity_number :: "severity_level \<Rightarrow> nat" where
  "severity_number l = (case l of DEBUG \<Rightarrow> 0 | INFO \<Rightarrow> 1 | WARNING \<Rightarrow> 2 | ERROR \<Rightarrow> 3 | FATAL \<Rightarrow> 4)"

definition severity_names :: "string list" where
  "severity_names = [''debug'', ''info'', ''warning'', ''error'', ''fatal'']"

text \<open>The inserter of \<open>logger.cc\<close> (\<open>num\<close> prints an integer), on the number an enumeration value holds.\<close>

definition severity_text :: "(nat \<Rightarrow> string) \<Rightarrow> nat \<Rightarrow> string" where
  "severity_text num lvl = (if lvl < length severity_names then severity_names ! lvl else num lvl)"

text \<open>\<open>Logger::_log\<close> of the plugin: the level, the message, a line end.\<close>

definition flog_line :: "(nat \<Rightarrow> string) \<Rightarrow> nat \<Rightarrow> string \<Rightarrow> string" where
  "flog_line num lvl message = severity_text num lvl @ '': '' @ message @ [CHR 0x0A]"

text \<open>
  \<open>Logger::log\<close> of the plugin. The comma in \<open>std::cout << level,message\<close> is the comma operator, so only the
  level reaches the output; it has no inserter here and is printed as a number.
\<close>

definition flog_log :: "(nat \<Rightarrow> string) \<Rightarrow> int \<Rightarrow> severity_level \<Rightarrow> string \<Rightarrow> string \<Rightarrow> bool \<times> string" where
  "flog_log num threshold level message out =
     (True, if threshold \<le> int (severity_number level) then out @ num (severity_number level) else out)"

definition flog_initialise :: "config_manager \<Rightarrow> bool \<times> string" where
  "flog_initialise cm = (True, cm_log_dir cm)"

section \<open>Registration of the utility and bootstrap plugins\<close>

text \<open>
  None of these is a storage plugin and none connects a slot; the module manager keeps the first two
  among its utilities, and never starts a bootstrap plugin. The updater's thread is modelled in \<open>Updater\<close>.
\<close>

definition flog_driver :: "config_manager \<Rightarrow> 'w driver" where
  "flog_driver cm = \<lparr>drv_name = ''simple_file_store_driver'', drv_start = (\<lambda>mm. io_return (fst (flog_initialise cm), mm, ls_default))\<rparr>"

definition flog_register :: "config_manager \<Rightarrow> 'w kernel \<Rightarrow> 'w kernel outcome" where
  "flog_register cm = register_driver PLG_UTIL_SERVER_NAME 1 (flog_driver cm)"

definition pdb_driver :: "'w driver" where
  "pdb_driver = \<lparr>drv_name = ''pdb updater'', drv_start = (\<lambda>mm. io_return (True, mm, ls_default))\<rparr>"

definition pdb_register :: "'w kernel \<Rightarrow> 'w kernel outcome" where
  "pdb_register = register_driver PLG_UTIL_SERVER_NAME 1 pdb_driver"

definition hostlist_driver :: "'w driver" where
  "hostlist_driver = \<lparr>drv_name = ''hostlist_driver'', drv_start = (\<lambda>mm. io_return (True, mm, ls_default))\<rparr>"

definition hostlist_register :: "'w kernel \<Rightarrow> 'w kernel outcome" where
  "hostlist_register = register_driver PLG_BOOTSTRAP_SERVER_NAME 1 hostlist_driver"

section \<open>Properties\<close>

text \<open>Both utilities in one start: they are initialised in the order of their drivers' names and leave the module manager as it was.\<close>

lemma start_utilities:
  assumes "keyed (k_servers K)" and "flog_register cm K = Return K1" and "pdb_register K1 = Return K2"
    and "get_server K PLG_UTIL_SERVER_NAME = Some s" "srv_version s = 1" "srv_drivers s = []"
  shows "\<exists>s'. get_server K2 PLG_UTIL_SERVER_NAME = Some s' \<and> get_all_drivers s' = [pdb_driver, flog_driver cm]
    \<and> start_plugins (get_all_drivers s') mm [] w = (Return (True, mm, [ls_default, ls_default]), w)"
proof -
  have "sorted (map fst m)" if "keyed m" for m :: "(string \<times> 'a plugin_server) list" using that by (simp add: keyed_def)
  note look = map_of_map_assign [OF this]
  have "''pdb updater'' < ''simple_file_store_driver''" by code_simp
  then show ?thesis using assms
    by (auto simp: flog_register_def pdb_register_def register_driver_def get_server_def look keyed_assign add_driver_def
      get_all_drivers_def flog_driver_def pdb_driver_def flog_initialise_def io_simps)
qed

lemma daemon_init_table:
  assumes "daemon_init env directory d w = (Return (True, d1), w1)"
  shows "\<exists>mm. sg_t (dm_modules d1) = Some mm \<and> sg_flag (dm_modules d1)
    \<and> dm_rpc d1 = Some (rpc_manager_init (env_H env) (env_dmp env) (env_clk env) (env_ar env) mm)"
  using assms
  by (auto simp: daemon_init_def rpc_init_def sg_instance_def Let_def elim!: io_bind_returnE split: if_splits prod.splits option.splits)

text \<open>
  A signal after the start: the method table is still that of the module manager, which is gone, so a
  handler that is still running, or runs before the service stops, dereferences a null pointer.
\<close>

lemma signal_leaves_null:
  assumes "daemon_init env directory d w = (Return (True, d1), w1)"
  shows "sg_instance mm_new (dm_modules (signal_handler SIGTERM d1)) = Stuck
    \<and> dm_rpc (signal_handler SIGTERM d1) = dm_rpc d1 \<and> dm_rpc d1 \<noteq> None"
  using daemon_init_table [OF assms]
  by (auto simp: signal_handler_def daemon_stop_def sg_kill_def sg_instance_def)

lemma daemonize_code: "daemonize env w = (Return (Some c), w1) \<Longrightarrow> c = 0 \<or> c = 1"
  by (auto simp: daemonize_def EXIT_SUCCESS_def EXIT_FAILURE_def elim!: io_bind_returnE split: if_splits)

text \<open>The body of \<open>main\<close> between the handlers.\<close>

lemma main_body_return:
  assumes "io_bind (io_of opts) (\<lambda>vm.
        if opt_help vm then io_return 1
        else if opt_version vm then io_return 0
        else
        io_bind (io_of (expand_home (env_home env) (opt_directory vm))) (\<lambda>directory.
        io_bind (daemon_init env directory d) (\<lambda>(ok, d1).
        if \<not> ok then io_return EXIT_FAILURE
        else
        io_bind (if opt_daemonize vm then daemonize env else io_return None) (\<lambda>code.
        case code of
          Some c \<Rightarrow> io_return c
        | None \<Rightarrow> io_bind (daemon_run env d1) (\<lambda>_. io_return EXIT_SUCCESS))))) w = (Return c, w')"
  shows "(c = 0 \<or> c = 1) \<and> (c = 0 \<longrightarrow> (\<exists>vm. opts = Return vm \<and> \<not> opt_help vm \<and> (opt_version vm \<or>
        (\<exists>directory d1 w1. expand_home (env_home env) (opt_directory vm) = Return directory
           \<and> daemon_init env directory d w = (Return (True, d1), w1)
           \<and> (\<exists>mm. sg_t (dm_modules d1) = Some mm \<and> sg_flag (dm_modules d1)
               \<and> dm_rpc d1 = Some (rpc_manager_init (env_H env) (env_dmp env) (env_clk env) (env_ar env) mm))))))"
  using assms
  by (elim io_bind_returnE)
     (auto simp: EXIT_SUCCESS_def EXIT_FAILURE_def elim!: io_bind_returnE
       dest: daemon_init_table dest!: daemonize_code split: if_splits option.splits prod.splits)

text \<open>
  C17: The exit code of the process. No exception leaves \<open>main\<close>, and the code is 0 or 1. Code 0 means
  that only the version was asked for, or that all managers were initialised: then the module manager
  and the RPC method table are in place, the table being that of the started module manager.
\<close>

theorem main_exit_code:
  assumes "main_prog env opts d w = (r, w')"
  shows "(\<forall>e. r \<noteq> Throw e) \<and> (\<forall>c. r = Return c \<longrightarrow> c = 0 \<or> c = 1)
    \<and> (r = Return 0 \<longrightarrow> (\<exists>vm. opts = Return vm \<and> \<not> opt_help vm \<and> (opt_version vm \<or>
        (\<exists>directory d1 w1. expand_home (env_home env) (opt_directory vm) = Return directory
           \<and> daemon_init env directory d w = (Return (True, d1), w1)
           \<and> (\<exists>mm. sg_t (dm_modules d1) = Some mm \<and> sg_flag (dm_modules d1)
               \<and> dm_rpc d1 = Some (rpc_manager_init (env_H env) (env_dmp env) (env_clk env) (env_ar env) mm))))))"
  using assms by (auto simp: main_prog_def io_catch_apply EXIT_FAILURE_def dest: main_body_return split: io_splits)

text \<open>A start with the flat file store as the only module, on a file system with an empty data directory.\<close>

definition conf_tree_ff :: ptree where
  "conf_tree_ff = PTree [] [(''daemon'', PTree []
     [(''modules'', PTree [] [(''libls_flatfile'', PTree [] [])]),
      (''dir'', PTree ''/d'' []), (''datadir'', PTree ''/d'' []), (''logdir'', PTree ''/d'' [])])]"

definition env1 :: "posix daemon_env" where
  "env1 = \<lparr>env_H = pad64, env_dmp = prefix_dmp, env_clk = (\<lambda>_. Some 5), env_ar = plain_archive,
     env_parse = (\<lambda>f w. Return conf_tree_ff), env_tr = (\<lambda>s. None), env_home = Some ''/h'', env_fs = posix_ops,
     env_libs = ff_libs, env_logger = (\<lambda>f. io_return True), env_listen = (\<lambda>p. io_return ()),
     env_run = (\<lambda>ms. io_return ()), env_fork = io_return 0, env_setsid = io_return 7\<rparr>"

definition daemon0 :: "posix daemon" where
  "daemon0 = \<lparr>dm_config = conf_cm0, dm_kernel = kernel_new, dm_modules = sg_new, dm_io_stopped = False, dm_storage = None, dm_net = None, dm_rpc = None\<rparr>"

definition conf_cm2 :: config_manager where
  "conf_cm2 = \<lparr>cm_pt = conf_tree_ff, cm_modules = [''libls_flatfile''], cm_port = 23555, cm_rpc_port = 23666,
     cm_threads = 4, cm_bs = 1024, cm_data_dir = ''/d'', cm_log_dir = ''/d'', cm_dir = ''/d''\<rparr>"

lemma conf_run_ff:
  "cm_init (\<lambda>f w. Return conf_tree_ff) (\<lambda>s. None) (Some ''/h'') posix_ops ''.'' conf_cm0 ff_w0 = (Return (True, conf_cm2), ff_w0)"
  by code_simp

definition opts1 :: options where
  "opts1 = \<lparr>opt_help = False, opt_version = False, opt_daemonize = True, opt_directory = ''.''\<rparr>"

lemma conf2_no_section: "get_config conf_cm2 ''ffstore'' = Return None"
  by (simp add: get_config_def modules_config_def ptree_get_child_def split_dots_def conf_cm2_def conf_tree_ff_def)

lemma start_run2:
  "mm_init (ff_libs conf_cm2) [''libls_flatfile''] (snd (pm_init kernel_new)) mm_new ff_w0
   = (Return (True, mm1, kernel_ff pad64 posix_ops conf_cm2), ff_w1)"
proof -
  have "cm_data_dir conf_cm2 = ''/d''" by (simp add: conf_cm2_def)
  then show ?thesis
    using load_ff [of "ff_libs conf_cm2" pad64 posix_ops conf_cm2] ff_start_run
    by (simp add: mm_init_def ff_libs_def kernel_ff_def get_server_def server_names get_all_drivers_def new_server_def
        ff_driver_def ff_start_def conf2_no_section io_simps Let_def mm_new_def mm1_def mm_ff_def del: load_modules.simps)
qed

lemma pm_init_new: "pm_init kernel_new = (True, snd (pm_init kernel_new))"
  by (simp add: pm_init_def)

lemma main_run: "main_prog env1 (Return opts1) daemon0 ff_w0 = (Return 0, ff_w1)"
proof -
  have m: "cm_modules conf_cm2 = [''libls_flatfile'']" by (simp add: conf_cm2_def)
  have sm: "\<exists>sm. sm_init = Return sm" by (simp add: sm_init_def lru_new_def)
  then obtain sm where sm: "sm_init = Return sm" ..
  obtain K :: "posix kernel" where K: "pm_init kernel_new = (True, K)" using pm_init_new by blast
  with start_run2 have mm: "mm_init (ff_libs conf_cm2) [''libls_flatfile''] K mm_new ff_w0
    = (Return (True, mm1, kernel_ff pad64 posix_ops conf_cm2), ff_w1)" by simp
  obtain d1 where "daemon_init env1 ''.'' daemon0 ff_w0 = (Return (True, d1), ff_w1)" and "dm_rpc d1 \<noteq> None"
    by (simp add: daemon_init_def env1_def daemon0_def sg_new_def sg_instance_def conf_run_ff K mm m sm io_simps Let_def net_init_def rpc_init_def)
  then show ?thesis
    by (auto simp: main_prog_def opts1_def env1_def io_simps expand_home_def daemonize_def daemon_run_def EXIT_SUCCESS_def)
qed

theorem main_exit_code_witness:
  "main_prog env1 (Return opts1) daemon0 ff_w0 = (Return 0, ff_w1)
   \<and> (\<exists>directory d1 w1. daemon_init env1 directory daemon0 ff_w0 = (Return (True, d1), w1) \<and> dm_rpc d1 \<noteq> None)"
proof -
  have "\<not> opt_version opts1" by (simp add: opts1_def)
  with main_exit_code [OF main_run] main_run show ?thesis by auto
qed

end
