(* ===== verification/Updater.thy ===== *)
theory Updater
  imports Daemon
begin

text \<open>
  The \<open>pdb_updater\<close> plugin, \<open>src/modules/util/pdb_updater/pdb_updater.{h,cc}\<close>: a thread that asks the module manager
  for unchecked keys once a second. A step relation interleaves it with the thread that starts it and shuts it
  down, and with the daemon's \<open>stop\<close>, which destroys the module manager.

  Each step is what a thread does up to a point where another can come between: the call in the body of \<open>check\<close>,
  and, after the sleep, the test of \<open>_run\<close>; in \<open>shutdown\<close>, the clearing of \<open>_run\<close>, and the join, which is possible
  only when the thread has ended. \<open>check\<close> reads \<open>_run\<close> without the mutex that \<open>shutdown\<close> takes; the model lets a
  test see any earlier write of the flag. An exception that leaves \<open>check\<close> ends the process, as does using the
  module manager after it is destroyed (a null pointer): the thread is then \<open>Crashed\<close>.
\<close>

section \<open>State and steps\<close>

record kv_stat =
  st_key :: string
  st_last_check :: ptime
  st_n_successful_checks :: int

datatype checker = Not_started | Calling | Sleeping | Finished | Crashed

datatype pdb_caller = Idle | Joining | Joined

record 'w pdb =
  pdb_run :: bool
  pdb_checker :: checker
  pdb_caller :: pdb_caller
  pdb_modules :: "'w module_manager singleton"
  pdb_world :: 'w

text \<open>The body of the loop in \<open>PDB::check\<close>: a fresh vector, the singleton, the call for the last 15 minutes.\<close>

definition pdb_call :: "'w pdb \<Rightarrow> 'w pdb" where
  "pdb_call s =
     (let res = [] :: kv_stat list in
      case sg_instance mm_new (pdb_modules s) of
        Return (mm, sg) \<Rightarrow>
          (case mm_kv_get_unchecked_since mm (15 * 60) res (pdb_world s) of
             (Return _, w) \<Rightarrow> s\<lparr>pdb_modules := sg, pdb_world := w, pdb_checker := Sleeping\<rparr>
           | (Throw _, w) \<Rightarrow> s\<lparr>pdb_modules := sg, pdb_world := w, pdb_checker := Crashed\<rparr>
           | (Stuck, w) \<Rightarrow> s\<lparr>pdb_modules := sg, pdb_world := w, pdb_checker := Crashed\<rparr>)
      | _ \<Rightarrow> s\<lparr>pdb_checker := Crashed\<rparr>)"

text \<open>\<open>while (_run)\<close>, after the sleep.\<close>

definition pdb_test :: "'w pdb \<Rightarrow> 'w pdb" where
  "pdb_test s = s\<lparr>pdb_checker := (if pdb_run s then Calling else Finished)\<rparr>"

datatype pdb_event = Initialise | Call | Test | Shutdown | Join | Kill

text \<open>\<open>Kill\<close> is the module manager's part of \<open>anDaemon::stop\<close>.\<close>

inductive pdb_step :: "'w pdb \<Rightarrow> pdb_event \<Rightarrow> 'w pdb \<Rightarrow> bool" where
  pdb_initialise: "pdb_checker s = Not_started \<Longrightarrow> pdb_step s Initialise (s\<lparr>pdb_run := True, pdb_checker := Calling\<rparr>)"
| pdb_calls: "pdb_checker s = Calling \<Longrightarrow> pdb_step s Call (pdb_call s)"
| pdb_tests: "pdb_checker s = Sleeping \<Longrightarrow> pdb_step s Test (pdb_test s)"
| pdb_shutdown: "pdb_caller s = Idle \<Longrightarrow> pdb_checker s \<noteq> Not_started \<Longrightarrow>
    pdb_step s Shutdown (s\<lparr>pdb_run := False, pdb_caller := Joining\<rparr>)"
| pdb_join: "pdb_caller s = Joining \<Longrightarrow> pdb_checker s = Finished \<Longrightarrow> pdb_step s Join (s\<lparr>pdb_caller := Joined\<rparr>)"
| pdb_kill: "pdb_step s Kill (s\<lparr>pdb_modules := sg_kill (pdb_modules s)\<rparr>)"

inductive_cases pdb_stepE: "pdb_step s e s'"

inductive pdb_trace :: "'w pdb \<Rightarrow> pdb_event list \<Rightarrow> 'w pdb \<Rightarrow> bool" where
  pdb_nil: "pdb_trace s [] s"
| pdb_snoc: "pdb_trace s es s' \<Longrightarrow> pdb_step s' e s'' \<Longrightarrow> pdb_trace s (es @ [e]) s''"

text \<open>The callbacks.\<close>

definition pdb_on_event :: "string \<Rightarrow> bool" where
  "pdb_on_event key = False"

definition pdb_new :: "'w module_manager singleton \<Rightarrow> 'w \<Rightarrow> 'w pdb" where
  "pdb_new sg w = \<lparr>pdb_run = False, pdb_checker = Not_started, pdb_caller = Idle, pdb_modules = sg, pdb_world = w\<rparr>"

section \<open>The module manager the thread sees\<close>

text \<open>Destroyed: the flag of the singleton is set and its pointer is null.\<close>

definition destroyed :: "'a singleton \<Rightarrow> bool" where
  "destroyed sg \<longleftrightarrow> sg_flag sg \<and> sg_t sg = None"

lemma pdb_call_alive:
  assumes "\<not> destroyed (pdb_modules s)"
  obtains sg where "\<not> destroyed sg" and "pdb_call s = s\<lparr>pdb_modules := sg, pdb_checker := Sleeping\<rparr>"
proof (cases "sg_flag (pdb_modules s)")
  case True
  then obtain mm where "sg_t (pdb_modules s) = Some mm" using assms by (auto simp: destroyed_def)
  with True show ?thesis
    by (intro that [of "pdb_modules s"]) (use assms in \<open>simp_all add: pdb_call_def sg_instance_def mm_kv_get_unchecked_since_def io_simps\<close>)
next
  case False
  then show ?thesis
    by (intro that [of "\<lparr>sg_flag = True, sg_t = Some mm_new\<rparr>"])
      (simp_all add: pdb_call_def sg_instance_def destroyed_def mm_kv_get_unchecked_since_def io_simps)
qed

lemma pdb_call_destroyed: "destroyed (pdb_modules s) \<Longrightarrow> pdb_call s = s\<lparr>pdb_checker := Crashed\<rparr>"
  by (simp add: pdb_call_def sg_instance_def destroyed_def)

lemma pdb_call_keeps [simp]: "pdb_run (pdb_call s) = pdb_run s" "pdb_caller (pdb_call s) = pdb_caller s"
  by (simp_all add: pdb_call_def Let_def split: outcome.splits prod.splits)

section \<open>Shutting down\<close>

text \<open>The steps left before \<open>shutdown\<close> returns.\<close>

definition pdb_left :: "'w pdb \<Rightarrow> nat" where
  "pdb_left s = (case pdb_checker s of Calling \<Rightarrow> 3 | Sleeping \<Rightarrow> 2 | _ \<Rightarrow> 1) * (if pdb_caller s = Joined then 0 else 1)"

definition pdb_down :: "'w pdb \<Rightarrow> bool" where
  "pdb_down s \<longleftrightarrow> \<not> pdb_run s \<and> \<not> destroyed (pdb_modules s) \<and> pdb_caller s \<noteq> Idle
     \<and> pdb_checker s \<in> {Calling, Sleeping, Finished} \<and> (pdb_caller s = Joined \<longrightarrow> pdb_checker s = Finished)"

lemma pdb_down_step:
  assumes "pdb_down s" and "pdb_step s e s'" and "e \<noteq> Kill"
  shows "pdb_down s' \<and> Suc (pdb_left s') = pdb_left s \<and> e \<in> {Call, Test, Join}
    \<and> (e = Call \<longrightarrow> pdb_checker s = Calling \<and> pdb_checker s' = Sleeping)
    \<and> (e \<noteq> Call \<longrightarrow> pdb_checker s' \<noteq> Calling)"
  using assms(2)
proof (cases rule: pdb_step.cases)
  case pdb_calls
  from assms(1) have "\<not> destroyed (pdb_modules s)" by (simp add: pdb_down_def)
  then obtain sg where "\<not> destroyed sg" "pdb_call s = s\<lparr>pdb_modules := sg, pdb_checker := Sleeping\<rparr>"
    by (rule pdb_call_alive)
  with assms(1) pdb_calls show ?thesis by (auto simp: pdb_down_def pdb_left_def)
qed (use assms in \<open>auto simp: pdb_down_def pdb_left_def pdb_test_def\<close>)

lemma pdb_down_trace:
  assumes "pdb_trace s es s'" and "pdb_down s" and "Kill \<notin> set es"
  shows "pdb_down s' \<and> length es + pdb_left s' = pdb_left s
    \<and> length (filter (\<lambda>e. e = Call) es) + (if pdb_checker s' = Calling then 1 else 0) \<le> 1"
  using assms
proof (induction rule: pdb_trace.induct)
  case (pdb_nil s)
  then show ?case by simp
next
  case (pdb_snoc s es s' e s'')
  then have IH: "pdb_down s'" "length es + pdb_left s' = pdb_left s"
    "length (filter (\<lambda>e. e = Call) es) + (if pdb_checker s' = Calling then 1 else 0) \<le> 1" and e: "e \<noteq> Kill" by auto
  from pdb_down_step [OF IH(1) pdb_snoc.hyps(2) e] IH show ?case by (auto split: if_splits)
qed

lemma pdb_down_progress:
  assumes "pdb_down s" and "pdb_caller s \<noteq> Joined"
  shows "\<exists>e s'. e \<in> {Call, Test, Join} \<and> pdb_step s e s'"
proof -
  from assms consider "pdb_checker s = Calling" | "pdb_checker s = Sleeping" | "pdb_checker s = Finished" "pdb_caller s = Joining"
    by (cases "pdb_caller s") (auto simp: pdb_down_def)
  then show ?thesis by cases (blast intro: pdb_calls pdb_tests pdb_join)+
qed

section \<open>The daemon stops without shutting the plugin down\<close>

lemma pdb_killed_step:
  assumes "pdb_step s e s'" and "destroyed (pdb_modules s)" and "pdb_run s" and "pdb_checker s \<in> {Calling, Sleeping, Crashed}" and "e \<noteq> Shutdown"
  shows "destroyed (pdb_modules s') \<and> pdb_run s' \<and> pdb_checker s' \<in> {Calling, Sleeping, Crashed}"
  using assms by cases (auto simp: pdb_call_destroyed pdb_test_def destroyed_def sg_kill_def)

text \<open>
  The daemon never calls \<open>shutdown\<close> of a plugin. When it destroys the module manager while the updater runs, the
  updater's next call dereferences a null pointer; no run of the thread avoids that call.
\<close>

lemma pdb_killed_crashes:
  assumes "pdb_trace s es s'" and "destroyed (pdb_modules s)" and "pdb_run s" and "pdb_checker s \<in> {Calling, Sleeping, Crashed}"
    and "Shutdown \<notin> set es"
  shows "pdb_checker s' \<in> {Calling, Sleeping, Crashed} \<and> (\<forall>s''. pdb_step s' Call s'' \<longrightarrow> pdb_checker s'' = Crashed)"
proof -
  have "destroyed (pdb_modules s') \<and> pdb_run s' \<and> pdb_checker s' \<in> {Calling, Sleeping, Crashed}"
    using assms by (induction rule: pdb_trace.induct) (simp, use pdb_killed_step in fastforce)
  then show ?thesis by (auto elim!: pdb_stepE simp: pdb_call_destroyed)
qed

section \<open>Property\<close>

text \<open>
  C21: Shutting the database updater down. When \<open>shutdown\<close> is called on a running updater while the module manager
  exists, it returns after at most three more steps of the two threads, wherever the updater was in its round and
  however the steps interleave: as long as it has not returned some step is possible. It returns only when the
  thread has ended, the thread asks the module manager at most once more and does not crash.
\<close>

theorem pdb_shutdown_joins:
  assumes "pdb_step s Shutdown s1" and "pdb_checker s \<noteq> Crashed" and "\<not> destroyed (pdb_modules s)"
    and "pdb_trace s1 es s2" and "Kill \<notin> set es"
  shows "length es \<le> 3 \<and> length (filter (\<lambda>e. e = Call) es) \<le> 1 \<and> pdb_checker s2 \<noteq> Crashed
    \<and> (pdb_caller s2 = Joined \<longrightarrow> pdb_checker s2 = Finished)
    \<and> (pdb_caller s2 = Joined \<or> (\<exists>e s3. e \<in> {Call, Test, Join} \<and> pdb_step s2 e s3))"
proof -
  have down: "pdb_down s1"
    using assms(1-3) by (cases "pdb_checker s") (auto elim!: pdb_stepE simp: pdb_down_def)
  note tr = pdb_down_trace [OF assms(4) down assms(5)]
  have "pdb_left s1 \<le> 3" by (simp add: pdb_left_def split: checker.splits)
  with tr pdb_down_progress [of s2] show ?thesis by (auto simp: pdb_down_def)
qed

definition pdb_asleep :: "unit pdb" where
  "pdb_asleep = \<lparr>pdb_run = True, pdb_checker = Sleeping, pdb_caller = Idle, pdb_modules = \<lparr>sg_flag = True, sg_t = Some mm_new\<rparr>, pdb_world = ()\<rparr>"

theorem pdb_shutdown_joins_witness:
  "\<exists>s2 s3. pdb_trace (pdb_asleep\<lparr>pdb_run := False, pdb_caller := Joining\<rparr>) [Test] s2 \<and> pdb_caller s2 \<noteq> Joined
     \<and> pdb_checker s2 \<noteq> Crashed \<and> (\<exists>e. pdb_step s2 e s3)"
proof -
  let ?s1 = "pdb_asleep\<lparr>pdb_run := False, pdb_caller := Joining\<rparr>"
  have shut: "pdb_step pdb_asleep Shutdown ?s1" by (rule pdb_shutdown) (simp_all add: pdb_asleep_def)
  have "pdb_step ?s1 Test (pdb_test ?s1)" by (rule pdb_tests) (simp add: pdb_asleep_def)
  from pdb_snoc [OF pdb_nil this] have tr: "pdb_trace ?s1 [Test] (pdb_test ?s1)" by simp
  have "pdb_caller (pdb_test ?s1) \<noteq> Joined" by (simp add: pdb_test_def)
  moreover have "\<not> destroyed (pdb_modules pdb_asleep)" "pdb_checker pdb_asleep \<noteq> Crashed"
    by (simp_all add: pdb_asleep_def destroyed_def)
  ultimately show ?thesis using pdb_shutdown_joins [OF shut _ _ tr] tr by auto
qed

end
