(* ===== verification/Sql.thy ===== *)
theory Sql
  imports Prelude "HOL-Library.Multiset"
begin

text \<open>
  The SQL database as the SQL storage plugin sees it. The litesql library and SQLite are not part of the
  repository, so the calls the sources make are a parameter: a record \<open>sql_ops\<close> of functions on an unknown
  world \<open>'w\<close>. What the proofs rely on is \<open>sql_spec\<close>, their documented behaviour in terms of a view of the
  database: for each table a set of rows (maps from columns to values), and whether a transaction is
  open. Order and multiplicity of rows are not part of it. Every call may throw \<open>litesql::Except\<close>.

  \<open>litesql::Field\<close> and \<open>litesql::Persistent\<close> keep a value with a flag whether it was assigned to, and whether the
  object is in the database and under which key. The conversions between fields and text are not
  modelled: a value keeps its type.
\<close>

section \<open>Values, columns and expressions\<close>

datatype sql_value = SInt int | SText string | STime int

fun as_int :: "sql_value \<Rightarrow> int" where
  "as_int (SInt i) = i"
| "as_int (STime i) = i"
| "as_int (SText s) = 0"

fun as_text :: "sql_value \<Rightarrow> string" where
  "as_text (SText s) = s"
| "as_text (SInt i) = []"
| "as_text (STime i) = []"

datatype sql_type = A_field_type_integer | A_field_type_string | A_field_type_datetime

record field_type =
  ft_name :: string
  ft_type :: sql_type
  ft_table :: string

text \<open>\<open>litesql::Expr\<close>: the empty expression, a comparison, membership in a select of one column, a conjunction.\<close>

datatype expr =
    Expr
  | Eq field_type sql_value
  | In field_type string field_type expr
  | And expr expr

type_synonym row = "string \<rightharpoonup> sql_value"
type_synonym tables = "string \<Rightarrow> row set"

text \<open>Truth of an expression: \<open>env\<close> gives the row of each table of the query.\<close>

fun eval :: "tables \<Rightarrow> (string \<Rightarrow> row) \<Rightarrow> expr \<Rightarrow> bool" where
  "eval T env Expr \<longleftrightarrow> True"
| "eval T env (Eq ft v) \<longleftrightarrow> env (ft_table ft) (ft_name ft) = Some v"
| "eval T env (In ft t res e) \<longleftrightarrow>
     (\<exists>r \<in> T t. r (ft_name res) \<noteq> None \<and> r (ft_name res) = env (ft_table ft) (ft_name ft) \<and> eval T (\<lambda>_. r) e)"
| "eval T env (And e1 e2) \<longleftrightarrow> eval T env e1 \<and> eval T env e2"

definition column :: "(string \<Rightarrow> row) \<Rightarrow> field_type \<Rightarrow> sql_value" where
  "column env ft = (case env (ft_table ft) (ft_name ft) of Some v \<Rightarrow> v | None \<Rightarrow> SText [])"

section \<open>Fields and updates\<close>

record 'a field =
  fld :: 'a
  fld_modified :: bool

definition assigned :: "'a \<Rightarrow> 'a field" where
  "assigned v = \<lparr>fld = v, fld_modified = True\<rparr>"

definition unmodified :: "'a field \<Rightarrow> 'a field" where
  "unmodified f = f\<lparr>fld_modified := False\<rparr>"

text \<open>\<open>Persistent::Updates\<close>: per table the columns to set, in the order they were added.\<close>

type_synonym updates = "(string \<times> (string \<times> sql_value) list) list"

definition prepareUpdate :: "string \<Rightarrow> updates \<Rightarrow> updates" where
  "prepareUpdate t u = (if t \<in> fst ` set u then u else u @ [(t, [])])"

definition updateField :: "string \<Rightarrow> string \<Rightarrow> ('a \<Rightarrow> sql_value) \<Rightarrow> 'a field \<Rightarrow> updates \<Rightarrow> updates" where
  "updateField t c val f u =
     (if fld_modified f then map (\<lambda>(t', fs). if t' = t then (t', fs @ [(c, val (fld f))]) else (t', fs)) u else u)"

definition update_row :: "int \<Rightarrow> (string \<times> sql_value) list \<Rightarrow> row \<Rightarrow> row" where
  "update_row key fs r = (if r ''id_'' = Some (SInt key) then r ++ map_of (rev fs) else r)"

section \<open>Operations and their behaviour\<close>

record 'w sql_ops =
  sql_insert :: "string \<Rightarrow> sql_value list \<Rightarrow> string list \<Rightarrow> ('w, unit) io" \<comment> \<open>\<open>Database::insert\<close>\<close>
  sql_delete :: "string \<Rightarrow> expr \<Rightarrow> ('w, unit) io" \<comment> \<open>\<open>Database::delete_\<close>\<close>
  sql_group_insert :: "string list \<Rightarrow> string list list \<Rightarrow> sql_value list list \<Rightarrow> string \<Rightarrow> ('w, int) io" \<comment> \<open>\<open>Persistent::insert\<close>\<close>
  sql_update :: "updates \<Rightarrow> int \<Rightarrow> ('w, unit) io" \<comment> \<open>\<open>Persistent::update\<close> of the record with that key\<close>
  sql_objects :: "field_type list \<Rightarrow> expr \<Rightarrow> ('w, sql_value list list) io" \<comment> \<open>\<open>DataSource<T>(db, expr).all()\<close>\<close>
  sql_rows :: "field_type list \<Rightarrow> string \<Rightarrow> expr \<Rightarrow> ('w, sql_value list list) io" \<comment> \<open>a \<open>SelectQuery\<close> on one table\<close>
  sql_begin :: "('w, unit) io"
  sql_commit :: "('w, unit) io"
  sql_open :: "string \<Rightarrow> string \<Rightarrow> ('w, unit) io"
  sql_create :: "('w, unit) io"
  sql_needsUpgrade :: "('w, bool) io"
  sql_upgrade :: "('w, unit) io"

text \<open>\<open>DataSource::one\<close> throws \<open>NotFound\<close> when there is no row.\<close>

definition sql_one :: "'w sql_ops \<Rightarrow> field_type list \<Rightarrow> expr \<Rightarrow> ('w, sql_value list) io" where
  "sql_one q fts e = io_bind (sql_objects q fts e) (\<lambda>rs. case rs of [] \<Rightarrow> io_throw Sql_except | r # _ \<Rightarrow> io_return r)"

record sql_db =
  db_tables :: tables
  db_open_tx :: bool

text \<open>The records an object query yields: the tables of its columns, joined on their ids.\<close>

definition joined :: "tables \<Rightarrow> field_type list \<Rightarrow> expr \<Rightarrow> (string \<Rightarrow> row) set" where
  "joined T fts e = {env. (\<forall>ft \<in> set fts. env (ft_table ft) \<in> T (ft_table ft)
     \<and> env (ft_table ft) ''id_'' = env (ft_table (hd fts)) ''id_'')
     \<and> (\<forall>t. t \<notin> ft_table ` set fts \<longrightarrow> env t = Map.empty) \<and> eval T env e}"

definition new_rows :: "int \<Rightarrow> string list \<Rightarrow> string list list \<Rightarrow> sql_value list list \<Rightarrow> tables \<Rightarrow> tables" where
  "new_rows n ts fss vss T = (\<lambda>t. T t \<union> {map_of (zip fs (SInt n # tl vs)) | fs vs. (t, fs, vs) \<in> set (zip ts (zip fss vss))})"

text \<open>
  The documented behaviour. A record inserted with id 0 gets an id that is positive and used in none of its
  tables, where \<open>id_\<close> is the primary key. An open transaction makes \<open>begin\<close> fail. Nothing is said about
  the tables after an insertion into several tables, or an update, has thrown.
\<close>

abbreviation add_row :: "string \<Rightarrow> row \<Rightarrow> sql_db \<Rightarrow> sql_db" where
  "add_row t x d \<equiv> d\<lparr>db_tables := (db_tables d)(t := insert x (db_tables d t))\<rparr>"

abbreviation delete_rows :: "string \<Rightarrow> expr \<Rightarrow> sql_db \<Rightarrow> sql_db" where
  "delete_rows t e d \<equiv> d\<lparr>db_tables := (db_tables d)(t := {x \<in> db_tables d t. \<not> eval (db_tables d) (\<lambda>_. x) e})\<rparr>"

abbreviation update_rows :: "updates \<Rightarrow> int \<Rightarrow> sql_db \<Rightarrow> sql_db" where
  "update_rows u key d \<equiv> d\<lparr>db_tables := (\<lambda>t. case map_of u t of None \<Rightarrow> db_tables d t
     | Some fs \<Rightarrow> update_row key fs ` db_tables d t)\<rparr>"

abbreviation failed :: "'a outcome \<Rightarrow> bool" where
  "failed r \<equiv> r = Throw Sql_except"

definition insert_spec :: "'w sql_ops \<Rightarrow> ('w \<Rightarrow> sql_db) \<Rightarrow> bool" where
  "insert_spec q db \<longleftrightarrow> (\<forall>t vs fs w r w'. sql_insert q t vs fs w = (r, w') \<longrightarrow>
     r = Return () \<and> db w' = add_row t (map_of (zip fs vs)) (db w) \<or> failed r \<and> db w' = db w)"

definition delete_spec :: "'w sql_ops \<Rightarrow> ('w \<Rightarrow> sql_db) \<Rightarrow> bool" where
  "delete_spec q db \<longleftrightarrow> (\<forall>t e w r w'. sql_delete q t e w = (r, w') \<longrightarrow>
     r = Return () \<and> db w' = delete_rows t e (db w) \<or> failed r \<and> db w' = db w)"

definition group_insert_spec :: "'w sql_ops \<Rightarrow> ('w \<Rightarrow> sql_db) \<Rightarrow> bool" where
  "group_insert_spec q db \<longleftrightarrow> (\<forall>ts fss vss seq w r w'. sql_group_insert q ts fss vss seq w = (r, w') \<longrightarrow>
     (\<exists>n. r = Return n \<and> (hd (last vss) = SInt 0 \<longrightarrow> 0 < n \<and> (\<forall>t \<in> set ts. \<forall>x \<in> db_tables (db w) t. x ''id_'' \<noteq> Some (SInt n))
        \<and> db w' = (db w)\<lparr>db_tables := new_rows n ts fss vss (db_tables (db w))\<rparr>))
     \<or> failed r \<and> db_open_tx (db w') = db_open_tx (db w))"

definition update_spec :: "'w sql_ops \<Rightarrow> ('w \<Rightarrow> sql_db) \<Rightarrow> bool" where
  "update_spec q db \<longleftrightarrow> (\<forall>u key w r w'. sql_update q u key w = (r, w') \<longrightarrow>
     r = Return () \<and> db w' = update_rows u key (db w) \<or> failed r \<and> db_open_tx (db w') = db_open_tx (db w))"

definition objects_spec :: "'w sql_ops \<Rightarrow> ('w \<Rightarrow> sql_db) \<Rightarrow> bool" where
  "objects_spec q db \<longleftrightarrow> (\<forall>fts e w r w'. sql_objects q fts e w = (r, w') \<longrightarrow> db w' = db w
     \<and> ((\<exists>rs. r = Return rs \<and> distinct rs \<and> set rs = (\<lambda>env. map (column env) fts) ` joined (db_tables (db w)) fts e) \<or> failed r))"

definition rows_spec :: "'w sql_ops \<Rightarrow> ('w \<Rightarrow> sql_db) \<Rightarrow> bool" where
  "rows_spec q db \<longleftrightarrow> (\<forall>fts t e w r w'. sql_rows q fts t e w = (r, w') \<longrightarrow> db w' = db w
     \<and> ((\<exists>rs. r = Return rs \<and> set rs = (\<lambda>x. map (column (\<lambda>_. x)) fts) ` {x \<in> db_tables (db w) t. eval (db_tables (db w)) (\<lambda>_. x) e})
        \<or> failed r))"

definition transaction_spec :: "'w sql_ops \<Rightarrow> ('w \<Rightarrow> sql_db) \<Rightarrow> bool" where
  "transaction_spec q db \<longleftrightarrow>
     (\<forall>w r w'. sql_begin q w = (r, w') \<longrightarrow>
        \<not> db_open_tx (db w) \<and> r = Return () \<and> db w' = (db w)\<lparr>db_open_tx := True\<rparr> \<or> failed r \<and> db w' = db w)
   \<and> (\<forall>w r w'. sql_commit q w = (r, w') \<longrightarrow>
        r = Return () \<and> db w' = (db w)\<lparr>db_open_tx := False\<rparr> \<or> failed r \<and> db w' = db w)"

definition sql_spec :: "'w sql_ops \<Rightarrow> ('w \<Rightarrow> sql_db) \<Rightarrow> bool" where
  "sql_spec q db \<longleftrightarrow> insert_spec q db \<and> delete_spec q db \<and> group_insert_spec q db \<and> update_spec q db
     \<and> objects_spec q db \<and> rows_spec q db \<and> transaction_spec q db"

section \<open>What a call did\<close>

lemma sql_insert_effect:
  assumes "sql_spec q db" and "sql_insert q t vs fs w = (Return x, w')"
  shows "db w' = add_row t (map_of (zip fs vs)) (db w)"
proof -
  from assms(1) have "insert_spec q db" by (simp add: sql_spec_def)
  from this [unfolded insert_spec_def, rule_format, OF assms(2)] show ?thesis by simp
qed

lemma sql_delete_effect:
  assumes "sql_spec q db" and "sql_delete q t e w = (Return x, w')"
  shows "db w' = delete_rows t e (db w)"
proof -
  from assms(1) have "delete_spec q db" by (simp add: sql_spec_def)
  from this [unfolded delete_spec_def, rule_format, OF assms(2)] show ?thesis by simp
qed

lemma sql_group_insert_effect:
  assumes "sql_spec q db" and "sql_group_insert q ts fss vss seq w = (Return n, w')" and "hd (last vss) = SInt 0"
  shows "0 < n" and "\<And>t x. t \<in> set ts \<Longrightarrow> x \<in> db_tables (db w) t \<Longrightarrow> x ''id_'' \<noteq> Some (SInt n)"
    and "db w' = (db w)\<lparr>db_tables := new_rows n ts fss vss (db_tables (db w))\<rparr>"
proof -
  from assms(1) have "group_insert_spec q db" by (simp add: sql_spec_def)
  note spec = this [unfolded group_insert_spec_def, rule_format, OF assms(2)]
  with assms(3) show "0 < n" "db w' = (db w)\<lparr>db_tables := new_rows n ts fss vss (db_tables (db w))\<rparr>" by simp_all
  show "x ''id_'' \<noteq> Some (SInt n)" if "t \<in> set ts" "x \<in> db_tables (db w) t" for t x
    using spec assms(3) that by simp
qed

lemma sql_update_effect:
  assumes "sql_spec q db" and "sql_update q u key w = (Return x, w')"
  shows "db w' = update_rows u key (db w)"
proof -
  from assms(1) have "update_spec q db" by (simp add: sql_spec_def)
  from this [unfolded update_spec_def, rule_format, OF assms(2)] show ?thesis by simp
qed

lemma sql_objects_effect:
  assumes "sql_spec q db" and "sql_objects q fts e w = (r, w')"
  shows "db w' = db w"
    and "r = Return rs \<Longrightarrow> distinct rs \<and> set rs = (\<lambda>env. map (column env) fts) ` joined (db_tables (db w)) fts e"
proof -
  from assms(1) have "objects_spec q db" by (simp add: sql_spec_def)
  note spec = this [unfolded objects_spec_def, rule_format, OF assms(2)]
  from spec show "db w' = db w" ..
  from spec show "r = Return rs \<Longrightarrow> distinct rs \<and> set rs = (\<lambda>env. map (column env) fts) ` joined (db_tables (db w)) fts e" by simp
qed

lemma sql_rows_effect:
  assumes "sql_spec q db" and "sql_rows q fts t e w = (r, w')"
  shows "db w' = db w"
    and "r = Return rs \<Longrightarrow> set rs = (\<lambda>x. map (column (\<lambda>_. x)) fts) ` {x \<in> db_tables (db w) t. eval (db_tables (db w)) (\<lambda>_. x) e}"
proof -
  from assms(1) have "rows_spec q db" by (simp add: sql_spec_def)
  note spec = this [unfolded rows_spec_def, rule_format, OF assms(2)]
  from spec show "db w' = db w" ..
  from spec show "r = Return rs \<Longrightarrow> set rs = (\<lambda>x. map (column (\<lambda>_. x)) fts) ` {x \<in> db_tables (db w) t. eval (db_tables (db w)) (\<lambda>_. x) e}"
    by simp
qed

lemma sql_begin_effect:
  assumes "sql_spec q db" and "sql_begin q w = (r, w')"
  shows "\<not> db_open_tx (db w) \<and> r = Return () \<and> db w' = (db w)\<lparr>db_open_tx := True\<rparr> \<or> failed r \<and> db w' = db w"
  using assms unfolding sql_spec_def transaction_spec_def by blast

lemma sql_commit_effect:
  assumes "sql_spec q db" and "sql_commit q w = (r, w')"
  shows "r = Return () \<and> db w' = (db w)\<lparr>db_open_tx := False\<rparr> \<or> failed r \<and> db w' = db w"
  using assms unfolding sql_spec_def transaction_spec_def by blast

text \<open>Calls that return or throw \<open>Except\<close>, and nothing else.\<close>

definition db_call :: "('w, 'a) io \<Rightarrow> bool" where
  "db_call m \<longleftrightarrow> (\<forall>w r w'. m w = (r, w') \<longrightarrow> r = Throw Sql_except \<or> (\<exists>a. r = Return a))"

named_theorems db_calls \<open>calls that return or throw \<open>Except\<close>\<close>

lemma db_call_return [db_calls]: "db_call (io_return a)"
  by (simp add: db_call_def)

lemma db_call_throw [db_calls]: "db_call (io_throw Sql_except)"
  by (simp add: db_call_def)

lemma db_call_bind [db_calls]: "db_call m \<Longrightarrow> (\<And>a. db_call (f a)) \<Longrightarrow> db_call (io_bind m f)"
proof -
  assume m: "db_call m" and f: "\<And>a. db_call (f a)"
  have "r = Throw Sql_except \<or> (\<exists>b. r = Return b)" if b: "io_bind m f w = (r, w')" for w r w'
  proof -
    obtain r0 w0 where r0: "m w = (r0, w0)" by fastforce
    with m consider "r0 = Throw Sql_except" | a where "r0 = Return a" unfolding db_call_def by blast
    then show ?thesis
    proof cases
      case 2
      with r0 b have "f a w0 = (r, w')" by (simp add: io_bind_apply)
      with f [of a] show ?thesis unfolding db_call_def by blast
    qed (use r0 b in \<open>simp add: io_bind_apply\<close>)
  qed
  then show ?thesis unfolding db_call_def by blast
qed

lemma db_call_if [db_calls]: "(b \<Longrightarrow> db_call m) \<Longrightarrow> (\<not> b \<Longrightarrow> db_call m') \<Longrightarrow> db_call (if b then m else m')"
  by simp

lemma db_call_list [db_calls]: "db_call m \<Longrightarrow> (\<And>x xs. db_call (f x xs)) \<Longrightarrow> db_call (case l of [] \<Rightarrow> m | x # xs \<Rightarrow> f x xs)"
  by (cases l) auto

lemma db_call_prod [db_calls]: "(\<And>a b. db_call (f a b)) \<Longrightarrow> db_call (case p of (a, b) \<Rightarrow> f a b)"
  by (cases p) auto

lemma db_call_ops [db_calls]:
  assumes "sql_spec q db"
  shows "db_call (sql_insert q t vs fs)" "db_call (sql_delete q t e)" "db_call (sql_group_insert q ts fss vss seq)"
    "db_call (sql_update q u key)" "db_call (sql_objects q fts e)" "db_call (sql_rows q fts t e)"
    "db_call (sql_begin q)" "db_call (sql_commit q)"
proof -
  from assms have s: "insert_spec q db" "delete_spec q db" "group_insert_spec q db" "update_spec q db"
    "objects_spec q db" "rows_spec q db" "transaction_spec q db" by (simp_all add: sql_spec_def)
  show "db_call (sql_insert q t vs fs)" using s(1) unfolding insert_spec_def db_call_def by blast
  show "db_call (sql_delete q t e)" using s(2) unfolding delete_spec_def db_call_def by blast
  show "db_call (sql_group_insert q ts fss vss seq)" using s(3) unfolding group_insert_spec_def db_call_def by blast
  show "db_call (sql_update q u key)" using s(4) unfolding update_spec_def db_call_def by blast
  show "db_call (sql_objects q fts e)" using s(5) unfolding objects_spec_def db_call_def by blast
  show "db_call (sql_rows q fts t e)" using s(6) unfolding rows_spec_def db_call_def by blast
  show "db_call (sql_begin q)" "db_call (sql_commit q)" using s(7) unfolding transaction_spec_def db_call_def by blast+
qed

lemma db_call_one [db_calls]: "sql_spec q db \<Longrightarrow> db_call (sql_one q fts e)"
  unfolding sql_one_def by (intro db_calls)

lemma sql_one_effect:
  assumes "sql_spec q db" and "sql_one q fts e w = (r, w')"
  shows "db w' = db w"
    and "r = Return rec \<Longrightarrow> rec \<in> (\<lambda>env. map (column env) fts) ` joined (db_tables (db w)) fts e"
    and "joined (db_tables (db w)) fts e = {} \<Longrightarrow> r = Throw Sql_except"
proof -
  obtain r0 w0 where q: "sql_objects q fts e w = (r0, w0)" by fastforce
  note eff = sql_objects_effect [OF assms(1) q]
  have "r0 = Throw Sql_except \<or> (\<exists>rs. r0 = Return rs)"
    using db_call_ops(5) [OF assms(1)] q unfolding db_call_def by blast
  then show "db w' = db w" and "r = Return rec \<Longrightarrow> rec \<in> (\<lambda>env. map (column env) fts) ` joined (db_tables (db w)) fts e"
    and "joined (db_tables (db w)) fts e = {} \<Longrightarrow> r = Throw Sql_except"
    using assms(2) q eff by (auto simp: sql_one_def io_simps split: list.splits) (metis insertI1)
qed

section \<open>A database in memory\<close>

text \<open>An executable implementation: tables of rows as association lists. Opening and upgrading do nothing.\<close>

type_synonym arow = "(string \<times> sql_value) list"

record mem_sql =
  ms_tables :: "(string \<times> arow list) list"
  ms_tx :: bool

definition mem_rows :: "mem_sql \<Rightarrow> string \<Rightarrow> arow list" where
  "mem_rows w t = (case map_of (ms_tables w) t of None \<Rightarrow> [] | Some rs \<Rightarrow> rs)"

definition mem_set :: "string \<Rightarrow> arow list \<Rightarrow> mem_sql \<Rightarrow> mem_sql" where
  "mem_set t rs w = w\<lparr>ms_tables := (t, rs) # filter (\<lambda>p. fst p \<noteq> t) (ms_tables w)\<rparr>"

fun mem_eval :: "(string \<Rightarrow> arow list) \<Rightarrow> (string \<Rightarrow> arow) \<Rightarrow> expr \<Rightarrow> bool" where
  "mem_eval R env Expr \<longleftrightarrow> True"
| "mem_eval R env (Eq ft v) \<longleftrightarrow> map_of (env (ft_table ft)) (ft_name ft) = Some v"
| "mem_eval R env (In ft t res e) \<longleftrightarrow>
     list_ex (\<lambda>r. map_of r (ft_name res) \<noteq> None \<and> map_of r (ft_name res) = map_of (env (ft_table ft)) (ft_name ft)
       \<and> mem_eval R (\<lambda>_. r) e) (R t)"
| "mem_eval R env (And e1 e2) \<longleftrightarrow> mem_eval R env e1 \<and> mem_eval R env e2"

definition mem_insert :: "string \<Rightarrow> sql_value list \<Rightarrow> string list \<Rightarrow> (mem_sql, unit) io" where
  "mem_insert t vs fs w = (Return (), mem_set t (zip fs vs # mem_rows w t) w)"

definition mem_delete :: "string \<Rightarrow> expr \<Rightarrow> (mem_sql, unit) io" where
  "mem_delete t e w = (Return (), mem_set t (filter (\<lambda>x. \<not> mem_eval (mem_rows w) (\<lambda>_. x) e) (mem_rows w t)) w)"

definition row_id :: "arow \<Rightarrow> int" where
  "row_id r = (case map_of r ''id_'' of Some v \<Rightarrow> as_int v | None \<Rightarrow> 0)"

fun mem_add :: "int \<Rightarrow> (string \<times> string list \<times> sql_value list) list \<Rightarrow> mem_sql \<Rightarrow> mem_sql" where
  "mem_add n [] w = w"
| "mem_add n ((t, fs, vs) # xs) w = mem_add n xs (mem_set t (zip fs (SInt n # tl vs) # mem_rows w t) w)"

definition mem_group_insert ::
  "string list \<Rightarrow> string list list \<Rightarrow> sql_value list list \<Rightarrow> string \<Rightarrow> (mem_sql, int) io" where
  "mem_group_insert ts fss vss seq w =
     (let n = (if hd (last vss) = SInt 0 then foldr max (map row_id (concat (map (mem_rows w) ts))) 0 + 1 else as_int (hd (last vss))) in
      (Return n, mem_add n (zip ts (zip fss vss)) w))"

definition mem_update_row :: "int \<Rightarrow> (string \<times> sql_value) list \<Rightarrow> arow \<Rightarrow> arow" where
  "mem_update_row key fs r = (if map_of r ''id_'' = Some (SInt key) then rev fs @ r else r)"

definition mem_update :: "updates \<Rightarrow> int \<Rightarrow> (mem_sql, unit) io" where
  "mem_update u key w = (Return (), w\<lparr>ms_tables := map (\<lambda>(t, rs). (t, case map_of u t of None \<Rightarrow> rs
     | Some fs \<Rightarrow> map (mem_update_row key fs) rs)) (ms_tables w)\<rparr>)"

fun mem_envs :: "(string \<Rightarrow> arow list) \<Rightarrow> string list \<Rightarrow> (string \<times> arow) list list" where
  "mem_envs R [] = [[]]"
| "mem_envs R (t # ts) = concat (map (\<lambda>r. map (\<lambda>env. (t, r) # env) (mem_envs R ts)) (R t))"

definition env_of :: "(string \<times> arow) list \<Rightarrow> string \<Rightarrow> arow" where
  "env_of env t = (case map_of env t of None \<Rightarrow> [] | Some r \<Rightarrow> r)"

definition mem_column :: "(string \<Rightarrow> arow) \<Rightarrow> field_type \<Rightarrow> sql_value" where
  "mem_column env ft = (case map_of (env (ft_table ft)) (ft_name ft) of Some v \<Rightarrow> v | None \<Rightarrow> SText [])"

definition mem_objects :: "field_type list \<Rightarrow> expr \<Rightarrow> (mem_sql, sql_value list list) io" where
  "mem_objects fts e w =
     (Return (remdups (map (\<lambda>env. map (mem_column (env_of env)) fts)
        (filter (\<lambda>env. (\<forall>ft \<in> set fts. map_of (env_of env (ft_table ft)) ''id_'' = map_of (env_of env (ft_table (hd fts))) ''id_'')
            \<and> mem_eval (mem_rows w) (env_of env) e)
          (mem_envs (mem_rows w) (remdups (map ft_table fts)))))), w)"

definition mem_select :: "field_type list \<Rightarrow> string \<Rightarrow> expr \<Rightarrow> (mem_sql, sql_value list list) io" where
  "mem_select fts t e w =
     (Return (map (\<lambda>x. map (mem_column (\<lambda>_. x)) fts) (filter (\<lambda>x. mem_eval (mem_rows w) (\<lambda>_. x) e) (mem_rows w t))), w)"

definition mem_begin :: "(mem_sql, unit) io" where
  "mem_begin w = (if ms_tx w then (Throw Sql_except, w) else (Return (), w\<lparr>ms_tx := True\<rparr>))"

definition mem_commit :: "(mem_sql, unit) io" where
  "mem_commit w = (Return (), w\<lparr>ms_tx := False\<rparr>)"

definition mem_ops :: "mem_sql sql_ops" where
  "mem_ops = \<lparr>sql_insert = mem_insert, sql_delete = mem_delete, sql_group_insert = mem_group_insert, sql_update = mem_update,
     sql_objects = mem_objects, sql_rows = mem_select, sql_begin = mem_begin, sql_commit = mem_commit,
     sql_open = (\<lambda>_ _. io_return ()), sql_create = io_return (), sql_needsUpgrade = io_return False, sql_upgrade = io_return ()\<rparr>"

definition mem_db :: "mem_sql \<Rightarrow> sql_db" where
  "mem_db w = \<lparr>db_tables = (\<lambda>t. map_of ` set (mem_rows w t)), db_open_tx = ms_tx w\<rparr>"

lemma mem_db_sel [simp]:
  "db_tables (mem_db w) = (\<lambda>t. map_of ` set (mem_rows w t))" "db_open_tx (mem_db w) = ms_tx w"
  by (simp_all add: mem_db_def)

lemma mem_rows_set [simp]: "mem_rows (mem_set t rs w) t' = (if t' = t then rs else mem_rows w t')"
  by (auto simp: mem_rows_def mem_set_def map_of_filter_neq split: option.splits)

lemma ms_tx_set [simp]: "ms_tx (mem_set t rs w) = ms_tx w"
  by (simp add: mem_set_def)

lemma mem_db_set: "mem_db (mem_set t rs w) = (mem_db w)\<lparr>db_tables := (db_tables (mem_db w))(t := map_of ` set rs)\<rparr>"
  by (auto simp: mem_db_def fun_eq_iff)

lemma mem_eval_eval: "mem_eval R env e \<longleftrightarrow> eval (\<lambda>t. map_of ` set (R t)) (\<lambda>t. map_of (env t)) e"
  by (induction R env e rule: mem_eval.induct) (auto simp: list_ex_iff)

lemma mem_db_add:
  "mem_db (mem_add n xs w) = (mem_db w)\<lparr>db_tables := (\<lambda>t. db_tables (mem_db w) t
     \<union> {map_of (zip fs (SInt n # tl vs)) | fs vs. (t, fs, vs) \<in> set xs})\<rparr>"
proof (induction xs arbitrary: w)
  case (Cons x xs)
  obtain t fs vs where "x = (t, fs, vs)" by (cases x) auto
  then have "(if t' = t then insert (map_of (zip fs (SInt n # tl vs))) (map_of ` set (mem_rows w t)) else map_of ` set (mem_rows w t'))
      \<union> {map_of (zip fs (SInt n # tl vs)) |fs vs. (t', fs, vs) \<in> set xs}
    = map_of ` set (mem_rows w t') \<union> {map_of (zip fs (SInt n # tl vs)) |fs vs. (t', fs, vs) \<in> set (x # xs)}" for t' by auto
  with \<open>x = (t, fs, vs)\<close> show ?case by (simp add: Cons.IH mem_db_set cong: if_cong)
qed simp

lemma foldr_max_ge: "x \<in> set xs \<Longrightarrow> x \<le> foldr max xs (0 :: int)" "0 \<le> foldr max xs (0 :: int)"
  by (induction xs) auto

lemma mem_group_fresh:
  assumes "t \<in> set ts" and "x \<in> map_of ` set (mem_rows w t)"
  shows "x ''id_'' \<noteq> Some (SInt (foldr max (map row_id (concat (map (mem_rows w) ts))) 0 + 1))"
proof -
  from assms(2) obtain r where r: "r \<in> set (mem_rows w t)" "x = map_of r" by auto
  with assms(1) have "row_id r \<in> set (map row_id (concat (map (mem_rows w) ts)))" by auto
  from foldr_max_ge(1) [OF this] r(2) show ?thesis by (auto simp: row_id_def)
qed

lemma mem_envs_tables: "env \<in> set (mem_envs R ts) \<Longrightarrow> fst ` set env = set ts"
proof (induction ts arbitrary: env)
  case (Cons t ts)
  then obtain x env' where "env = (t, x) # env'" and "env' \<in> set (mem_envs R ts)" by auto
  with Cons.IH [of env'] show ?case by simp
qed simp

lemma mem_envs_rows:
  assumes "env \<in> set (mem_envs R ts)" and "t \<in> set ts"
  shows "env_of env t \<in> set (R t)"
  using assms by (induction ts arbitrary: env) (auto simp: env_of_def split: if_splits)

lemma mem_envs_all:
  assumes "\<And>t. t \<in> set ts \<Longrightarrow> f t \<in> set (R t)" and "distinct ts"
  shows "\<exists>env \<in> set (mem_envs R ts). \<forall>t. env_of env t = (if t \<in> set ts then f t else [])"
  using assms
proof (induction ts)
  case (Cons t ts)
  then obtain env where "env \<in> set (mem_envs R ts)" "\<And>t. env_of env t = (if t \<in> set ts then f t else [])" by auto
  then have "(t, f t) # env \<in> set (mem_envs R (t # ts))"
    and "env_of ((t, f t) # env) t' = (if t' \<in> set (t # ts) then f t' else [])" for t'
    using Cons.prems by (auto simp: env_of_def)
  then show ?case by blast
qed (simp add: env_of_def)

lemma mem_joined:
  "(\<lambda>env t. map_of (env_of env t)) ` {env \<in> set (mem_envs (mem_rows w) (remdups (map ft_table fts))).
      (\<forall>ft \<in> set fts. map_of (env_of env (ft_table ft)) ''id_'' = map_of (env_of env (ft_table (hd fts))) ''id_'')
        \<and> mem_eval (mem_rows w) (env_of env) e} = joined (db_tables (mem_db w)) fts e" (is "?f ` ?A = ?B")
proof
  show "?f ` ?A \<subseteq> ?B"
  proof clarify
    fix env assume *: "env \<in> set (mem_envs (mem_rows w) (remdups (map ft_table fts)))"
      "\<forall>ft \<in> set fts. map_of (env_of env (ft_table ft)) ''id_'' = map_of (env_of env (ft_table (hd fts))) ''id_''"
      "mem_eval (mem_rows w) (env_of env) e"
    from mem_envs_tables [OF *(1)] have "map_of env t = None" if "t \<notin> ft_table ` set fts" for t
      using that by (simp add: map_of_eq_None_iff)
    then have "env_of env t = []" if "t \<notin> ft_table ` set fts" for t using that by (simp add: env_of_def)
    with *(2,3) mem_envs_rows [OF *(1)] show "?f env \<in> ?B"
      by (auto simp: joined_def mem_eval_eval)
  qed
  show "?B \<subseteq> ?f ` ?A"
  proof
    fix env assume env: "env \<in> ?B"
    then have "\<exists>r. r \<in> set (mem_rows w t) \<and> env t = map_of r" if "t \<in> ft_table ` set fts" for t
      using that by (fastforce simp: joined_def)
    then obtain f where f: "\<And>t. t \<in> ft_table ` set fts \<Longrightarrow> f t \<in> set (mem_rows w t) \<and> env t = map_of (f t)" by metis
    with mem_envs_all [of "remdups (map ft_table fts)" f "mem_rows w"] obtain \<rho>
      where \<rho>: "\<rho> \<in> set (mem_envs (mem_rows w) (remdups (map ft_table fts)))"
        and eq: "\<And>t. env_of \<rho> t = (if t \<in> ft_table ` set fts then f t else [])" by auto
    have "env = ?f \<rho>" using env f by (auto simp: eq joined_def)
    with env \<rho> show "env \<in> ?f ` ?A" by (auto simp: joined_def mem_eval_eval intro!: image_eqI [of _ _ \<rho>])
  qed
qed

lemma mem_column: "mem_column env = column (\<lambda>t. map_of (env t))"
  by (simp add: mem_column_def column_def fun_eq_iff)

lemma mem_objects_spec:
  assumes "mem_objects fts e w = (r, w')"
  shows "w' = w \<and> (\<exists>rs. r = Return rs \<and> distinct rs \<and> set rs = (\<lambda>env. map (column env) fts) ` joined (db_tables (mem_db w)) fts e)"
proof -
  have "(\<lambda>env. map (mem_column (env_of env)) fts) ` A = (\<lambda>env. map (column env) fts) ` (\<lambda>env t. map_of (env_of env t)) ` A" for A
    by (simp add: mem_column image_image)
  with assms mem_joined [of w fts e] show ?thesis by (auto simp: mem_objects_def simp del: mem_db_sel)
qed

lemma map_of_map_snd: "map_of (map (\<lambda>(k, v). (k, f k v)) xs) k' = map_option (f k') (map_of xs k')"
  by (induction xs) auto

lemma mem_update_spec:
  "mem_db (snd (mem_update u key w)) = (mem_db w)\<lparr>db_tables := (\<lambda>t. case map_of u t of None \<Rightarrow> db_tables (mem_db w) t
     | Some fs \<Rightarrow> update_row key fs ` db_tables (mem_db w) t)\<rparr>"
proof -
  have "mem_rows (snd (mem_update u key w)) t = (case map_of u t of None \<Rightarrow> mem_rows w t
     | Some fs \<Rightarrow> map (mem_update_row key fs) (mem_rows w t))" for t
    by (auto simp: mem_update_def mem_rows_def map_of_map_snd split: option.splits)
  moreover have "map_of (mem_update_row key fs r) = update_row key fs (map_of r)" for fs r
    by (simp add: update_row_def mem_update_row_def)
  ultimately have "db_tables (mem_db (snd (mem_update u key w))) t = (case map_of u t of None \<Rightarrow> db_tables (mem_db w) t
     | Some fs \<Rightarrow> update_row key fs ` db_tables (mem_db w) t)" for t
    by (simp add: image_image split: option.splits)
  then show ?thesis by (simp add: mem_db_def mem_update_def fun_eq_iff)
qed

lemma mem_spec: "sql_spec mem_ops mem_db"
  unfolding sql_spec_def insert_spec_def delete_spec_def group_insert_spec_def update_spec_def
    objects_spec_def rows_spec_def transaction_spec_def
proof (intro conjI allI impI, goal_cases)
  case (1 t vs fs w r w')
  then show ?case by (auto simp: mem_ops_def mem_insert_def mem_db_set)
next
  case (2 t e w r w')
  have "map_of ` {x \<in> set (mem_rows w t). \<not> mem_eval (mem_rows w) (\<lambda>_. x) e}
    = {x \<in> db_tables (mem_db w) t. \<not> eval (db_tables (mem_db w)) (\<lambda>_. x) e}" by (auto simp: mem_eval_eval)
  with 2 show ?case by (auto simp: mem_ops_def mem_delete_def mem_db_set)
next
  case (3 ts fss vss seq w r w')
  then show ?case using mem_group_fresh [of _ ts _ w] foldr_max_ge(2) [of "map row_id (concat (map (mem_rows w) ts))"]
    by (auto simp: mem_ops_def mem_group_insert_def mem_db_add new_rows_def Let_def)
next
  case (4 u key w r w')
  then show ?case using mem_update_spec [of u key w] by (auto simp: mem_ops_def mem_update_def)
next
  case (5 fts e w r w')
  then show ?case by (auto simp: mem_ops_def dest: mem_objects_spec)
next
  case (6 fts e w r w')
  then show ?case by (auto simp: mem_ops_def dest: mem_objects_spec)
next
  case (7 fts t e w r w')
  then show ?case by (auto simp: mem_ops_def mem_select_def)
next
  case (8 fts t e w r w')
  have "map_of ` {x \<in> set (mem_rows w t). mem_eval (mem_rows w) (\<lambda>_. x) e}
    = {x \<in> db_tables (mem_db w) t. eval (db_tables (mem_db w)) (\<lambda>_. x) e}" by (auto simp: mem_eval_eval)
  moreover have "(\<lambda>x. map (mem_column (\<lambda>_. x)) fts) ` A = (\<lambda>x. map (column (\<lambda>_. x)) fts) ` map_of ` A" for A
    by (simp add: mem_column image_image)
  ultimately show ?case using 8 by (auto simp: mem_ops_def mem_select_def simp del: mem_db_sel)
qed (auto simp: mem_ops_def mem_begin_def mem_commit_def mem_db_def mem_rows_def split: if_splits)

end
