(* ===== verification/SqlDb.thy ===== *)
theory SqlDb
  imports Sql
begin

text \<open>
  The schema classes of the SQL storage plugin, \<open>src/modules/localstorage/sqlstore/sqldb.{h,cc}\<close>: the four
  relation tables, the persistent classes \<open>ObjID\<close>, \<open>Object\<close>, \<open>Snapshot\<close>, \<open>Diff\<close> (each kept in the table of its
  class and in \<open>ObjID_\<close>, under one id) and \<open>HT\<close>, and the schema. The virtual functions are one definition
  per class; \<open>db_any\<close> is a pointer to an \<open>ObjID\<close> of unknown dynamic type. Copy construction and assignment
  are those of values.
\<close>

section \<open>Relations\<close>

record relation =
  rel_table :: string
  rel_first :: field_type
  rel_second :: field_type

definition make_relation :: "string \<Rightarrow> string \<Rightarrow> string \<Rightarrow> relation" where
  "make_relation t f s = \<lparr>rel_table = t, rel_first = \<lparr>ft_name = f, ft_type = A_field_type_integer, ft_table = t\<rparr>,
     rel_second = \<lparr>ft_name = s, ft_type = A_field_type_integer, ft_table = t\<rparr>\<rparr>"

text \<open>The bodies the four relation classes share, on the ids of the objects they relate.\<close>

definition rel_link :: "'w sql_ops \<Rightarrow> relation \<Rightarrow> int \<Rightarrow> int \<Rightarrow> ('w, unit) io" where
  "rel_link q R a b = sql_insert q (rel_table R) [SInt a, SInt b] [ft_name (rel_first R), ft_name (rel_second R)]"

definition rel_unlink :: "'w sql_ops \<Rightarrow> relation \<Rightarrow> int \<Rightarrow> int \<Rightarrow> ('w, unit) io" where
  "rel_unlink q R a b = sql_delete q (rel_table R) (And (Eq (rel_first R) (SInt a)) (Eq (rel_second R) (SInt b)))"

definition rel_del :: "'w sql_ops \<Rightarrow> relation \<Rightarrow> expr \<Rightarrow> ('w, unit) io" where
  "rel_del q R e = sql_delete q (rel_table R) e"

text \<open>A \<open>Row\<close> of a relation: its two ids, as far as the record has them.\<close>

definition rel_row :: "sql_value list \<Rightarrow> int \<times> int" where
  "rel_row rec = (if 2 = length rec then (as_int (rec ! 0), as_int (rec ! 1))
     else if 1 = length rec then (as_int (rec ! 0), 0) else (0, 0))"

definition rel_getRows :: "'w sql_ops \<Rightarrow> relation \<Rightarrow> expr \<Rightarrow> ('w, (int \<times> int) list) io" where
  "rel_getRows q R e = io_bind (sql_rows q [rel_first R, rel_second R] (rel_table R) e) (\<lambda>rs. io_return (map rel_row rs))"

text \<open>The objects of a class whose id (field \<open>idf\<close>) is in the column \<open>c\<close> of the rows that satisfy \<open>src\<close>.\<close>

definition rel_get :: "'w sql_ops \<Rightarrow> relation \<Rightarrow> field_type \<Rightarrow> field_type list \<Rightarrow> field_type \<Rightarrow> expr \<Rightarrow> expr \<Rightarrow> ('w, sql_value list list) io" where
  "rel_get q R idf fts c e src = sql_objects q fts (And (In idf (rel_table R) c src) e)"

definition ObjectSnapshotRelation :: relation where
  "ObjectSnapshotRelation = make_relation ''Object_Snapshot_'' ''Object1_'' ''Snapshot2_''"

definition DiffObjectRelation :: relation where
  "DiffObjectRelation = make_relation ''Diff_Object_'' ''Diff1_'' ''Object2_''"

definition DiffSnapshotRelation :: relation where
  "DiffSnapshotRelation = make_relation ''Diff_Snapshot_'' ''Diff1_'' ''Snapshot2_''"

definition DiffObjIDRelation :: relation where
  "DiffObjIDRelation = make_relation ''Diff_ObjID_'' ''Diff1_'' ''ObjID2_''"

section \<open>Columns\<close>

definition ObjID_Id :: field_type where
  "ObjID_Id = \<lparr>ft_name = ''id_'', ft_type = A_field_type_integer, ft_table = ''ObjID_''\<rparr>"

definition ObjID_Type :: field_type where
  "ObjID_Type = \<lparr>ft_name = ''type_'', ft_type = A_field_type_string, ft_table = ''ObjID_''\<rparr>"

definition ObjID_AnID :: field_type where
  "ObjID_AnID = \<lparr>ft_name = ''anID_'', ft_type = A_field_type_string, ft_table = ''ObjID_''\<rparr>"

definition Snapshot_Based :: field_type where
  "Snapshot_Based = \<lparr>ft_name = ''based_'', ft_type = A_field_type_string, ft_table = ''Snapshot_''\<rparr>"

definition Snapshot_Content :: field_type where
  "Snapshot_Content = \<lparr>ft_name = ''content_'', ft_type = A_field_type_string, ft_table = ''Snapshot_''\<rparr>"

definition Snapshot_Time :: field_type where
  "Snapshot_Time = \<lparr>ft_name = ''time_'', ft_type = A_field_type_datetime, ft_table = ''Snapshot_''\<rparr>"

definition Diff_Snapshot :: field_type where
  "Diff_Snapshot = \<lparr>ft_name = ''snapshot_'', ft_type = A_field_type_string, ft_table = ''Diff_''\<rparr>"

definition Diff_Content :: field_type where
  "Diff_Content = \<lparr>ft_name = ''content_'', ft_type = A_field_type_string, ft_table = ''Diff_''\<rparr>"

definition Diff_Time :: field_type where
  "Diff_Time = \<lparr>ft_name = ''time_'', ft_type = A_field_type_datetime, ft_table = ''Diff_''\<rparr>"

definition HT_Id :: field_type where
  "HT_Id = \<lparr>ft_name = ''id_'', ft_type = A_field_type_integer, ft_table = ''HT_''\<rparr>"

definition HT_Type :: field_type where
  "HT_Type = \<lparr>ft_name = ''type_'', ft_type = A_field_type_string, ft_table = ''HT_''\<rparr>"

definition HT_Key :: field_type where
  "HT_Key = \<lparr>ft_name = ''key_'', ft_type = A_field_type_string, ft_table = ''HT_''\<rparr>"

definition HT_Value :: field_type where
  "HT_Value = \<lparr>ft_name = ''value_'', ft_type = A_field_type_string, ft_table = ''HT_''\<rparr>"

definition HT_Time :: field_type where
  "HT_Time = \<lparr>ft_name = ''time_'', ft_type = A_field_type_datetime, ft_table = ''HT_''\<rparr>"

text \<open>
  The \<open>getFieldTypes\<close> of the classes. Those of \<open>Object\<close>, which has no columns of its own, do not mention
  its table.
\<close>

definition ObjID_getFieldTypes :: "field_type list" where
  "ObjID_getFieldTypes = [ObjID_Id, ObjID_Type, ObjID_AnID]"

definition Object_getFieldTypes :: "field_type list" where
  "Object_getFieldTypes = ObjID_getFieldTypes"

definition Snapshot_getFieldTypes :: "field_type list" where
  "Snapshot_getFieldTypes = ObjID_getFieldTypes @ [Snapshot_Based, Snapshot_Content, Snapshot_Time]"

definition Diff_getFieldTypes :: "field_type list" where
  "Diff_getFieldTypes = ObjID_getFieldTypes @ [Diff_Snapshot, Diff_Content, Diff_Time]"

definition HT_getFieldTypes :: "field_type list" where
  "HT_getFieldTypes = [HT_Id, HT_Type, HT_Key, HT_Value, HT_Time]"

section \<open>Classes\<close>

record persistent =
  inDatabase :: bool
  oldKey :: int

record db_ObjID = persistent +
  oi_id :: "int field"
  oi_type :: "string field"
  oi_anID :: "string field"

text \<open>\<open>Object\<close> has the members of \<open>ObjID\<close>.\<close>

type_synonym db_Object = db_ObjID

record db_Snapshot = db_ObjID +
  sn_based :: "string field"
  sn_content :: "string field"
  sn_time :: "int field"

record db_Diff = db_ObjID +
  df_snapshot :: "string field"
  df_content :: "string field"
  df_time :: "int field"

record db_HT = persistent +
  ht_id :: "int field"
  ht_type :: "string field"
  ht_key :: "string field"
  ht_value :: "string field"
  ht_time :: "int field"

definition set_inDatabase :: "bool \<Rightarrow> 'a persistent_scheme \<Rightarrow> 'a persistent_scheme" where
  "set_inDatabase b x = x\<lparr>inDatabase := b\<rparr>"

definition set_id :: "int \<Rightarrow> 'a persistent_scheme \<Rightarrow> 'a persistent_scheme" where
  "set_id k x = x\<lparr>oldKey := k\<rparr>"

subsection \<open>Construction\<close>

text \<open>From a database: not stored yet, with the default values.\<close>

definition ObjID_new :: db_ObjID where
  "ObjID_new = \<lparr>inDatabase = False, oldKey = 0, oi_id = assigned 0, oi_type = assigned [], oi_anID = assigned []\<rparr>"

definition Object_new :: db_Object where
  "Object_new = ObjID_new"

definition Snapshot_new :: db_Snapshot where
  "Snapshot_new = \<lparr>inDatabase = False, oldKey = 0, oi_id = assigned 0, oi_type = assigned [], oi_anID = assigned [],
     sn_based = assigned [], sn_content = assigned [], sn_time = assigned 0\<rparr>"

definition Diff_new :: db_Diff where
  "Diff_new = \<lparr>inDatabase = False, oldKey = 0, oi_id = assigned 0, oi_type = assigned [], oi_anID = assigned [],
     df_snapshot = assigned [], df_content = assigned [], df_time = assigned 0\<rparr>"

definition HT_new :: db_HT where
  "HT_new = \<lparr>inDatabase = False, oldKey = 0, ht_id = assigned 0, ht_type = assigned [], ht_key = assigned [],
     ht_value = assigned [], ht_time = assigned 0\<rparr>"

text \<open>From a record: the \<open>switch\<close> falls through, so the columns the record has are assigned, the others keep their defaults.\<close>

definition rec_field :: "sql_value list \<Rightarrow> nat \<Rightarrow> (sql_value \<Rightarrow> 'a) \<Rightarrow> 'a field \<Rightarrow> 'a field" where
  "rec_field rec i conv f = (if i < length rec then unmodified (assigned (conv (rec ! i))) else f)"

definition ObjID_of_record :: "sql_value list \<Rightarrow> db_ObjID" where
  "ObjID_of_record rec = ObjID_new\<lparr>inDatabase := True, oldKey := as_int (rec ! 0), oi_id := rec_field rec 0 as_int (assigned 0),
     oi_type := rec_field rec 1 as_text (assigned []), oi_anID := rec_field rec 2 as_text (assigned [])\<rparr>"

definition Object_of_record :: "sql_value list \<Rightarrow> db_Object" where
  "Object_of_record rec = ObjID_of_record rec"

definition Snapshot_of_record :: "sql_value list \<Rightarrow> db_Snapshot" where
  "Snapshot_of_record rec = Snapshot_new\<lparr>inDatabase := True, oldKey := as_int (rec ! 0), oi_id := rec_field rec 0 as_int (assigned 0),
     oi_type := rec_field rec 1 as_text (assigned []), oi_anID := rec_field rec 2 as_text (assigned []),
     sn_based := rec_field rec 3 as_text (assigned []), sn_content := rec_field rec 4 as_text (assigned []),
     sn_time := rec_field rec 5 as_int (assigned 0)\<rparr>"

definition Diff_of_record :: "sql_value list \<Rightarrow> db_Diff" where
  "Diff_of_record rec = Diff_new\<lparr>inDatabase := True, oldKey := as_int (rec ! 0), oi_id := rec_field rec 0 as_int (assigned 0),
     oi_type := rec_field rec 1 as_text (assigned []), oi_anID := rec_field rec 2 as_text (assigned []),
     df_snapshot := rec_field rec 3 as_text (assigned []), df_content := rec_field rec 4 as_text (assigned []),
     df_time := rec_field rec 5 as_int (assigned 0)\<rparr>"

definition HT_of_record :: "sql_value list \<Rightarrow> db_HT" where
  "HT_of_record rec = HT_new\<lparr>inDatabase := True, oldKey := as_int (rec ! 0), ht_id := rec_field rec 0 as_int (assigned 0),
     ht_type := rec_field rec 1 as_text (assigned []), ht_key := rec_field rec 2 as_text (assigned []),
     ht_value := rec_field rec 3 as_text (assigned []), ht_time := rec_field rec 4 as_int (assigned 0)\<rparr>"

subsection \<open>The relation classes\<close>

definition ObjectSnapshotRelation_link :: "'w sql_ops \<Rightarrow> db_Object \<Rightarrow> db_Snapshot \<Rightarrow> ('w, unit) io" where
  "ObjectSnapshotRelation_link q o0 o1 = rel_link q ObjectSnapshotRelation (fld (oi_id o0)) (fld (oi_id o1))"

definition ObjectSnapshotRelation_unlink :: "'w sql_ops \<Rightarrow> db_Object \<Rightarrow> db_Snapshot \<Rightarrow> ('w, unit) io" where
  "ObjectSnapshotRelation_unlink q o0 o1 = rel_unlink q ObjectSnapshotRelation (fld (oi_id o0)) (fld (oi_id o1))"

definition ObjectSnapshotRelation_del :: "'w sql_ops \<Rightarrow> expr \<Rightarrow> ('w, unit) io" where
  "ObjectSnapshotRelation_del q e = rel_del q ObjectSnapshotRelation e"

definition ObjectSnapshotRelation_getRows :: "'w sql_ops \<Rightarrow> expr \<Rightarrow> ('w, (int \<times> int) list) io" where
  "ObjectSnapshotRelation_getRows q e = rel_getRows q ObjectSnapshotRelation e"

definition ObjectSnapshotRelation_get_Object :: "'w sql_ops \<Rightarrow> expr \<Rightarrow> expr \<Rightarrow> ('w, db_Object list) io" where
  "ObjectSnapshotRelation_get_Object q e src = io_bind (rel_get q ObjectSnapshotRelation ObjID_Id Object_getFieldTypes (rel_first ObjectSnapshotRelation) e src) (\<lambda>rs. io_return (map Object_of_record rs))"

definition ObjectSnapshotRelation_get_Snapshot :: "'w sql_ops \<Rightarrow> expr \<Rightarrow> expr \<Rightarrow> ('w, db_Snapshot list) io" where
  "ObjectSnapshotRelation_get_Snapshot q e src = io_bind (rel_get q ObjectSnapshotRelation ObjID_Id Snapshot_getFieldTypes (rel_second ObjectSnapshotRelation) e src) (\<lambda>rs. io_return (map Snapshot_of_record rs))"

definition DiffObjectRelation_link :: "'w sql_ops \<Rightarrow> db_Diff \<Rightarrow> db_Object \<Rightarrow> ('w, unit) io" where
  "DiffObjectRelation_link q o0 o1 = rel_link q DiffObjectRelation (fld (oi_id o0)) (fld (oi_id o1))"

definition DiffObjectRelation_unlink :: "'w sql_ops \<Rightarrow> db_Diff \<Rightarrow> db_Object \<Rightarrow> ('w, unit) io" where
  "DiffObjectRelation_unlink q o0 o1 = rel_unlink q DiffObjectRelation (fld (oi_id o0)) (fld (oi_id o1))"

definition DiffObjectRelation_del :: "'w sql_ops \<Rightarrow> expr \<Rightarrow> ('w, unit) io" where
  "DiffObjectRelation_del q e = rel_del q DiffObjectRelation e"

definition DiffObjectRelation_getRows :: "'w sql_ops \<Rightarrow> expr \<Rightarrow> ('w, (int \<times> int) list) io" where
  "DiffObjectRelation_getRows q e = rel_getRows q DiffObjectRelation e"

definition DiffObjectRelation_get_Diff :: "'w sql_ops \<Rightarrow> expr \<Rightarrow> expr \<Rightarrow> ('w, db_Diff list) io" where
  "DiffObjectRelation_get_Diff q e src = io_bind (rel_get q DiffObjectRelation ObjID_Id Diff_getFieldTypes (rel_first DiffObjectRelation) e src) (\<lambda>rs. io_return (map Diff_of_record rs))"

definition DiffObjectRelation_get_Object :: "'w sql_ops \<Rightarrow> expr \<Rightarrow> expr \<Rightarrow> ('w, db_Object list) io" where
  "DiffObjectRelation_get_Object q e src = io_bind (rel_get q DiffObjectRelation ObjID_Id Object_getFieldTypes (rel_second DiffObjectRelation) e src) (\<lambda>rs. io_return (map Object_of_record rs))"

definition DiffSnapshotRelation_link :: "'w sql_ops \<Rightarrow> db_Diff \<Rightarrow> db_Snapshot \<Rightarrow> ('w, unit) io" where
  "DiffSnapshotRelation_link q o0 o1 = rel_link q DiffSnapshotRelation (fld (oi_id o0)) (fld (oi_id o1))"

definition DiffSnapshotRelation_unlink :: "'w sql_ops \<Rightarrow> db_Diff \<Rightarrow> db_Snapshot \<Rightarrow> ('w, unit) io" where
  "DiffSnapshotRelation_unlink q o0 o1 = rel_unlink q DiffSnapshotRelation (fld (oi_id o0)) (fld (oi_id o1))"

definition DiffSnapshotRelation_del :: "'w sql_ops \<Rightarrow> expr \<Rightarrow> ('w, unit) io" where
  "DiffSnapshotRelation_del q e = rel_del q DiffSnapshotRelation e"

definition DiffSnapshotRelation_getRows :: "'w sql_ops \<Rightarrow> expr \<Rightarrow> ('w, (int \<times> int) list) io" where
  "DiffSnapshotRelation_getRows q e = rel_getRows q DiffSnapshotRelation e"

definition DiffSnapshotRelation_get_Diff :: "'w sql_ops \<Rightarrow> expr \<Rightarrow> expr \<Rightarrow> ('w, db_Diff list) io" where
  "DiffSnapshotRelation_get_Diff q e src = io_bind (rel_get q DiffSnapshotRelation ObjID_Id Diff_getFieldTypes (rel_first DiffSnapshotRelation) e src) (\<lambda>rs. io_return (map Diff_of_record rs))"

definition DiffSnapshotRelation_get_Snapshot :: "'w sql_ops \<Rightarrow> expr \<Rightarrow> expr \<Rightarrow> ('w, db_Snapshot list) io" where
  "DiffSnapshotRelation_get_Snapshot q e src = io_bind (rel_get q DiffSnapshotRelation ObjID_Id Snapshot_getFieldTypes (rel_second DiffSnapshotRelation) e src) (\<lambda>rs. io_return (map Snapshot_of_record rs))"

definition DiffObjIDRelation_link :: "'w sql_ops \<Rightarrow> db_Diff \<Rightarrow> db_ObjID \<Rightarrow> ('w, unit) io" where
  "DiffObjIDRelation_link q o0 o1 = rel_link q DiffObjIDRelation (fld (oi_id o0)) (fld (oi_id o1))"

definition DiffObjIDRelation_unlink :: "'w sql_ops \<Rightarrow> db_Diff \<Rightarrow> db_ObjID \<Rightarrow> ('w, unit) io" where
  "DiffObjIDRelation_unlink q o0 o1 = rel_unlink q DiffObjIDRelation (fld (oi_id o0)) (fld (oi_id o1))"

definition DiffObjIDRelation_del :: "'w sql_ops \<Rightarrow> expr \<Rightarrow> ('w, unit) io" where
  "DiffObjIDRelation_del q e = rel_del q DiffObjIDRelation e"

definition DiffObjIDRelation_getRows :: "'w sql_ops \<Rightarrow> expr \<Rightarrow> ('w, (int \<times> int) list) io" where
  "DiffObjIDRelation_getRows q e = rel_getRows q DiffObjIDRelation e"

definition DiffObjIDRelation_get_Diff :: "'w sql_ops \<Rightarrow> expr \<Rightarrow> expr \<Rightarrow> ('w, db_Diff list) io" where
  "DiffObjIDRelation_get_Diff q e src = io_bind (rel_get q DiffObjIDRelation ObjID_Id Diff_getFieldTypes (rel_first DiffObjIDRelation) e src) (\<lambda>rs. io_return (map Diff_of_record rs))"

definition DiffObjIDRelation_get_ObjID :: "'w sql_ops \<Rightarrow> expr \<Rightarrow> expr \<Rightarrow> ('w, db_ObjID list) io" where
  "DiffObjIDRelation_get_ObjID q e src = io_bind (rel_get q DiffObjIDRelation ObjID_Id ObjID_getFieldTypes (rel_second DiffObjIDRelation) e src) (\<lambda>rs. io_return (map ObjID_of_record rs))"

subsection \<open>Insertion\<close>

text \<open>
  Each class adds its table, columns and values and hands on to its base; the last one calls
  \<open>Persistent::insert\<close>, which marks the object as stored under the new id.
\<close>

definition ObjID_insert ::
  "'w sql_ops \<Rightarrow> string list \<Rightarrow> string list list \<Rightarrow> sql_value list list \<Rightarrow> 'a db_ObjID_scheme \<Rightarrow> ('w, int \<times> 'a db_ObjID_scheme) io" where
  "ObjID_insert q tables fieldRecs valueRecs x =
     io_bind (sql_group_insert q (tables @ [''ObjID_'']) (fieldRecs @ [[''id_'', ''type_'', ''anID_'']])
       (valueRecs @ [[SInt (fld (oi_id x)), SText (fld (oi_type x)), SText (fld (oi_anID x))]]) ''ObjID_seq'') (\<lambda>n.
     io_return (n, x\<lparr>oi_id := unmodified (oi_id x), oi_type := unmodified (oi_type x), oi_anID := unmodified (oi_anID x),
       inDatabase := True, oldKey := n\<rparr>))"

definition Object_insert ::
  "'w sql_ops \<Rightarrow> string list \<Rightarrow> string list list \<Rightarrow> sql_value list list \<Rightarrow> db_Object \<Rightarrow> ('w, int \<times> db_Object) io" where
  "Object_insert q tables fieldRecs valueRecs x =
     ObjID_insert q (tables @ [''Object_'']) (fieldRecs @ [[''id_'']]) (valueRecs @ [[SInt (fld (oi_id x))]]) x"

definition Snapshot_insert ::
  "'w sql_ops \<Rightarrow> string list \<Rightarrow> string list list \<Rightarrow> sql_value list list \<Rightarrow> db_Snapshot \<Rightarrow> ('w, int \<times> db_Snapshot) io" where
  "Snapshot_insert q tables fieldRecs valueRecs x =
     ObjID_insert q (tables @ [''Snapshot_'']) (fieldRecs @ [[''id_'', ''based_'', ''content_'', ''time_'']])
       (valueRecs @ [[SInt (fld (oi_id x)), SText (fld (sn_based x)), SText (fld (sn_content x)), STime (fld (sn_time x))]])
       (x\<lparr>sn_based := unmodified (sn_based x), sn_content := unmodified (sn_content x), sn_time := unmodified (sn_time x)\<rparr>)"

definition Diff_insert ::
  "'w sql_ops \<Rightarrow> string list \<Rightarrow> string list list \<Rightarrow> sql_value list list \<Rightarrow> db_Diff \<Rightarrow> ('w, int \<times> db_Diff) io" where
  "Diff_insert q tables fieldRecs valueRecs x =
     ObjID_insert q (tables @ [''Diff_'']) (fieldRecs @ [[''id_'', ''snapshot_'', ''content_'', ''time_'']])
       (valueRecs @ [[SInt (fld (oi_id x)), SText (fld (df_snapshot x)), SText (fld (df_content x)), STime (fld (df_time x))]])
       (x\<lparr>df_snapshot := unmodified (df_snapshot x), df_content := unmodified (df_content x), df_time := unmodified (df_time x)\<rparr>)"

definition HT_insert ::
  "'w sql_ops \<Rightarrow> string list \<Rightarrow> string list list \<Rightarrow> sql_value list list \<Rightarrow> db_HT \<Rightarrow> ('w, int \<times> db_HT) io" where
  "HT_insert q tables fieldRecs valueRecs x =
     io_bind (sql_group_insert q (tables @ [''HT_'']) (fieldRecs @ [[''id_'', ''type_'', ''key_'', ''value_'', ''time_'']])
       (valueRecs @ [[SInt (fld (ht_id x)), SText (fld (ht_type x)), SText (fld (ht_key x)), SText (fld (ht_value x)), STime (fld (ht_time x))]])
       ''HT_seq'') (\<lambda>n.
     io_return (n, x\<lparr>ht_id := unmodified (ht_id x), ht_type := unmodified (ht_type x), ht_key := unmodified (ht_key x),
       ht_value := unmodified (ht_value x), ht_time := unmodified (ht_time x), inDatabase := True, oldKey := n\<rparr>))"

definition ObjID_create :: "'w sql_ops \<Rightarrow> db_ObjID \<Rightarrow> ('w, db_ObjID) io" where
  "ObjID_create q x =
     io_bind (ObjID_insert q [] [] [] (x\<lparr>oi_type := assigned ''ObjID''\<rparr>)) (\<lambda>(newID, y).
     io_return (if fld (oi_id y) = 0 then y\<lparr>oi_id := assigned newID\<rparr> else y))"

definition Object_create :: "'w sql_ops \<Rightarrow> db_Object \<Rightarrow> ('w, db_Object) io" where
  "Object_create q x =
     io_bind (Object_insert q [] [] [] (x\<lparr>oi_type := assigned ''Object''\<rparr>)) (\<lambda>(newID, y).
     io_return (if fld (oi_id y) = 0 then y\<lparr>oi_id := assigned newID\<rparr> else y))"

definition Snapshot_create :: "'w sql_ops \<Rightarrow> db_Snapshot \<Rightarrow> ('w, db_Snapshot) io" where
  "Snapshot_create q x =
     io_bind (Snapshot_insert q [] [] [] (x\<lparr>oi_type := assigned ''Snapshot''\<rparr>)) (\<lambda>(newID, y).
     io_return (if fld (oi_id y) = 0 then y\<lparr>oi_id := assigned newID\<rparr> else y))"

definition Diff_create :: "'w sql_ops \<Rightarrow> db_Diff \<Rightarrow> ('w, db_Diff) io" where
  "Diff_create q x =
     io_bind (Diff_insert q [] [] [] (x\<lparr>oi_type := assigned ''Diff''\<rparr>)) (\<lambda>(newID, y).
     io_return (if fld (oi_id y) = 0 then y\<lparr>oi_id := assigned newID\<rparr> else y))"

definition HT_create :: "'w sql_ops \<Rightarrow> db_HT \<Rightarrow> ('w, db_HT) io" where
  "HT_create q x =
     io_bind (HT_insert q [] [] [] (x\<lparr>ht_type := assigned ''HT''\<rparr>)) (\<lambda>(newID, y).
     io_return (if fld (ht_id y) = 0 then y\<lparr>ht_id := assigned newID\<rparr> else y))"

subsection \<open>Types and copies\<close>

definition ObjID_typeIsCorrect :: "db_ObjID \<Rightarrow> bool" where
  "ObjID_typeIsCorrect x \<longleftrightarrow> fld (oi_type x) = ''ObjID''"

definition Object_typeIsCorrect :: "db_Object \<Rightarrow> bool" where
  "Object_typeIsCorrect x \<longleftrightarrow> fld (oi_type x) = ''Object''"

definition Snapshot_typeIsCorrect :: "db_Snapshot \<Rightarrow> bool" where
  "Snapshot_typeIsCorrect x \<longleftrightarrow> fld (oi_type x) = ''Snapshot''"

definition Diff_typeIsCorrect :: "db_Diff \<Rightarrow> bool" where
  "Diff_typeIsCorrect x \<longleftrightarrow> fld (oi_type x) = ''Diff''"

definition HT_typeIsCorrect :: "db_HT \<Rightarrow> bool" where
  "HT_typeIsCorrect x \<longleftrightarrow> fld (ht_type x) = ''HT''"

datatype db_any = An_ObjID db_ObjID | An_Object db_Object | A_Snapshot db_Snapshot | A_Diff db_Diff

definition copy_ObjID :: "db_ObjID \<Rightarrow> 'a db_ObjID_scheme \<Rightarrow> 'a db_ObjID_scheme" where
  "copy_ObjID x np = np\<lparr>oi_id := assigned (fld (oi_id x)), oi_type := assigned (fld (oi_type x)),
     oi_anID := assigned (fld (oi_anID x)), inDatabase := inDatabase x\<rparr>"

text \<open>\<open>ObjID::upcastCopy\<close>: for a type that is none of the three the pointer stays null and is dereferenced.\<close>

definition ObjID_upcastCopy :: "db_ObjID \<Rightarrow> db_any outcome" where
  "ObjID_upcastCopy x =
     (if fld (oi_type x) = ''Object'' then Return (An_Object (copy_ObjID x Object_new))
      else if fld (oi_type x) = ''Snapshot'' then Return (A_Snapshot (copy_ObjID x Snapshot_new))
      else if fld (oi_type x) = ''Diff'' then Return (A_Diff (copy_ObjID x Diff_new))
      else Stuck)"

definition ObjID_upcast :: "'w sql_ops \<Rightarrow> db_ObjID \<Rightarrow> ('w, db_any) io" where
  "ObjID_upcast q x =
     (let e = Eq ObjID_Id (SInt (fld (oi_id x))) in
      if fld (oi_type x) = ''Object'' then io_bind (sql_one q Object_getFieldTypes e) (\<lambda>rec. io_return (An_Object (Object_of_record rec)))
      else if fld (oi_type x) = ''Snapshot'' then io_bind (sql_one q Snapshot_getFieldTypes e) (\<lambda>rec. io_return (A_Snapshot (Snapshot_of_record rec)))
      else if fld (oi_type x) = ''Diff'' then io_bind (sql_one q Diff_getFieldTypes e) (\<lambda>rec. io_return (A_Diff (Diff_of_record rec)))
      else io_return (An_ObjID x))"

subsection \<open>Updates\<close>

definition ObjID_addUpdates :: "'a db_ObjID_scheme \<Rightarrow> updates \<Rightarrow> updates" where
  "ObjID_addUpdates x u =
     updateField ''ObjID_'' ''anID_'' SText (oi_anID x) (updateField ''ObjID_'' ''type_'' SText (oi_type x)
       (updateField ''ObjID_'' ''id_'' SInt (oi_id x) (prepareUpdate ''ObjID_'' u)))"

definition Object_addUpdates :: "db_Object \<Rightarrow> updates \<Rightarrow> updates" where
  "Object_addUpdates x u = ObjID_addUpdates x (prepareUpdate ''Object_'' u)"

definition Snapshot_addUpdates :: "db_Snapshot \<Rightarrow> updates \<Rightarrow> updates" where
  "Snapshot_addUpdates x u = ObjID_addUpdates x
     (updateField ''Snapshot_'' ''time_'' STime (sn_time x) (updateField ''Snapshot_'' ''content_'' SText (sn_content x)
       (updateField ''Snapshot_'' ''based_'' SText (sn_based x) (prepareUpdate ''Snapshot_'' u))))"

definition Diff_addUpdates :: "db_Diff \<Rightarrow> updates \<Rightarrow> updates" where
  "Diff_addUpdates x u = ObjID_addUpdates x
     (updateField ''Diff_'' ''time_'' STime (df_time x) (updateField ''Diff_'' ''content_'' SText (df_content x)
       (updateField ''Diff_'' ''snapshot_'' SText (df_snapshot x) (prepareUpdate ''Diff_'' u))))"

definition HT_addUpdates :: "db_HT \<Rightarrow> updates \<Rightarrow> updates" where
  "HT_addUpdates x u =
     updateField ''HT_'' ''time_'' STime (ht_time x) (updateField ''HT_'' ''value_'' SText (ht_value x)
       (updateField ''HT_'' ''key_'' SText (ht_key x) (updateField ''HT_'' ''type_'' SText (ht_type x)
         (updateField ''HT_'' ''id_'' SInt (ht_id x) (prepareUpdate ''HT_'' u)))))"

text \<open>The key of the class's own table, when the id has changed; \<open>ObjID\<close> and \<open>HT\<close> have none.\<close>

definition ObjID_addIDUpdates :: "db_ObjID \<Rightarrow> updates \<Rightarrow> updates" where
  "ObjID_addIDUpdates x u = u"

definition Object_addIDUpdates :: "db_Object \<Rightarrow> updates \<Rightarrow> updates" where
  "Object_addIDUpdates x u = updateField ''Object_'' ''id_'' SInt (oi_id x) (prepareUpdate ''Object_'' u)"

definition Snapshot_addIDUpdates :: "db_Snapshot \<Rightarrow> updates \<Rightarrow> updates" where
  "Snapshot_addIDUpdates x u = updateField ''Snapshot_'' ''id_'' SInt (oi_id x) (prepareUpdate ''Snapshot_'' u)"

definition Diff_addIDUpdates :: "db_Diff \<Rightarrow> updates \<Rightarrow> updates" where
  "Diff_addIDUpdates x u = updateField ''Diff_'' ''id_'' SInt (oi_id x) (prepareUpdate ''Diff_'' u)"

definition HT_addIDUpdates :: "db_HT \<Rightarrow> updates \<Rightarrow> updates" where
  "HT_addIDUpdates x u = u"

fun any_addIDUpdates :: "db_any \<Rightarrow> updates \<Rightarrow> updates" where
  "any_addIDUpdates (An_ObjID x) u = ObjID_addIDUpdates x u"
| "any_addIDUpdates (An_Object x) u = Object_addIDUpdates x u"
| "any_addIDUpdates (A_Snapshot x) u = Snapshot_addIDUpdates x u"
| "any_addIDUpdates (A_Diff x) u = Diff_addIDUpdates x u"

definition ObjID_update :: "'w sql_ops \<Rightarrow> db_ObjID \<Rightarrow> ('w, db_ObjID) io" where
  "ObjID_update q x =
     (if \<not> inDatabase x then ObjID_create q x
      else
      let u = ObjID_addUpdates x [] in
      io_bind (if fld (oi_id x) \<noteq> oldKey x \<and> \<not> ObjID_typeIsCorrect x
               then io_bind (io_of (ObjID_upcastCopy x)) (\<lambda>p. io_return (any_addIDUpdates p u)) else io_return u) (\<lambda>u.
      io_bind (sql_update q u (oldKey x)) (\<lambda>_. io_return (x\<lparr>oldKey := fld (oi_id x)\<rparr>))))"

text \<open>In the derived classes the copy is of the same class, so both branches for a changed id add the same.\<close>

definition Object_update :: "'w sql_ops \<Rightarrow> db_Object \<Rightarrow> ('w, db_Object) io" where
  "Object_update q x =
     (if \<not> inDatabase x then Object_create q x
      else
      let u = Object_addUpdates x [];
          u1 = (if fld (oi_id x) \<noteq> oldKey x then Object_addIDUpdates x u else u) in
      io_bind (sql_update q u1 (oldKey x)) (\<lambda>_. io_return (x\<lparr>oldKey := fld (oi_id x)\<rparr>)))"

definition Snapshot_update :: "'w sql_ops \<Rightarrow> db_Snapshot \<Rightarrow> ('w, db_Snapshot) io" where
  "Snapshot_update q x =
     (if \<not> inDatabase x then Snapshot_create q x
      else
      let u = Snapshot_addUpdates x [];
          u1 = (if fld (oi_id x) \<noteq> oldKey x then Snapshot_addIDUpdates x u else u) in
      io_bind (sql_update q u1 (oldKey x)) (\<lambda>_. io_return (x\<lparr>oldKey := fld (oi_id x)\<rparr>)))"

definition Diff_update :: "'w sql_ops \<Rightarrow> db_Diff \<Rightarrow> ('w, db_Diff) io" where
  "Diff_update q x =
     (if \<not> inDatabase x then Diff_create q x
      else
      let u = Diff_addUpdates x [];
          u1 = (if fld (oi_id x) \<noteq> oldKey x then Diff_addIDUpdates x u else u) in
      io_bind (sql_update q u1 (oldKey x)) (\<lambda>_. io_return (x\<lparr>oldKey := fld (oi_id x)\<rparr>)))"

definition HT_update :: "'w sql_ops \<Rightarrow> db_HT \<Rightarrow> ('w, db_HT) io" where
  "HT_update q x =
     (if \<not> inDatabase x then HT_create q x
      else
      let u = HT_addUpdates x [];
          u1 = (if fld (ht_id x) \<noteq> oldKey x \<and> \<not> HT_typeIsCorrect x then HT_addIDUpdates x u else u) in
      io_bind (sql_update q u1 (oldKey x)) (\<lambda>_. io_return (x\<lparr>oldKey := fld (ht_id x)\<rparr>)))"

subsection \<open>Deletion\<close>

text \<open>\<open>Persistent::deleteFromTable\<close>.\<close>

definition deleteFromTable :: "'w sql_ops \<Rightarrow> string \<Rightarrow> int \<Rightarrow> ('w, unit) io" where
  "deleteFromTable q t i = sql_delete q t (Eq \<lparr>ft_name = ''id_'', ft_type = A_field_type_integer, ft_table = t\<rparr> (SInt i))"

definition ObjID_delRecord :: "'w sql_ops \<Rightarrow> 'a db_ObjID_scheme \<Rightarrow> ('w, unit) io" where
  "ObjID_delRecord q x = deleteFromTable q ''ObjID_'' (fld (oi_id x))"

definition Object_delRecord :: "'w sql_ops \<Rightarrow> db_Object \<Rightarrow> ('w, unit) io" where
  "Object_delRecord q x = io_bind (deleteFromTable q ''Object_'' (fld (oi_id x))) (\<lambda>_. ObjID_delRecord q x)"

definition Snapshot_delRecord :: "'w sql_ops \<Rightarrow> db_Snapshot \<Rightarrow> ('w, unit) io" where
  "Snapshot_delRecord q x = io_bind (deleteFromTable q ''Snapshot_'' (fld (oi_id x))) (\<lambda>_. ObjID_delRecord q x)"

definition Diff_delRecord :: "'w sql_ops \<Rightarrow> db_Diff \<Rightarrow> ('w, unit) io" where
  "Diff_delRecord q x = io_bind (deleteFromTable q ''Diff_'' (fld (oi_id x))) (\<lambda>_. ObjID_delRecord q x)"

definition HT_delRecord :: "'w sql_ops \<Rightarrow> db_HT \<Rightarrow> ('w, unit) io" where
  "HT_delRecord q x = deleteFromTable q ''HT_'' (fld (ht_id x))"

definition ObjID_delRelations :: "'w sql_ops \<Rightarrow> db_ObjID \<Rightarrow> ('w, unit) io" where
  "ObjID_delRelations q x = DiffObjIDRelation_del q (Eq (rel_second DiffObjIDRelation) (SInt (fld (oi_id x))))"

definition Object_delRelations :: "'w sql_ops \<Rightarrow> db_Object \<Rightarrow> ('w, unit) io" where
  "Object_delRelations q x =
     io_bind (ObjectSnapshotRelation_del q (Eq (rel_first ObjectSnapshotRelation) (SInt (fld (oi_id x))))) (\<lambda>_.
     DiffObjectRelation_del q (Eq (rel_second DiffObjectRelation) (SInt (fld (oi_id x)))))"

definition Snapshot_delRelations :: "'w sql_ops \<Rightarrow> db_Snapshot \<Rightarrow> ('w, unit) io" where
  "Snapshot_delRelations q x =
     io_bind (ObjectSnapshotRelation_del q (Eq (rel_second ObjectSnapshotRelation) (SInt (fld (oi_id x))))) (\<lambda>_.
     DiffSnapshotRelation_del q (Eq (rel_second DiffSnapshotRelation) (SInt (fld (oi_id x)))))"

definition Diff_delRelations :: "'w sql_ops \<Rightarrow> db_Diff \<Rightarrow> ('w, unit) io" where
  "Diff_delRelations q x =
     io_bind (DiffObjectRelation_del q (Eq (rel_first DiffObjectRelation) (SInt (fld (oi_id x))))) (\<lambda>_.
     io_bind (DiffSnapshotRelation_del q (Eq (rel_first DiffSnapshotRelation) (SInt (fld (oi_id x))))) (\<lambda>_.
     DiffObjIDRelation_del q (Eq (rel_first DiffObjIDRelation) (SInt (fld (oi_id x))))))"

definition HT_delRelations :: "'w sql_ops \<Rightarrow> db_HT \<Rightarrow> ('w, unit) io" where
  "HT_delRelations q x = io_return ()"

fun any_delRelations :: "'w sql_ops \<Rightarrow> db_any \<Rightarrow> ('w, unit) io" where
  "any_delRelations q (An_ObjID x) = ObjID_delRelations q x"
| "any_delRelations q (An_Object x) = Object_delRelations q x"
| "any_delRelations q (A_Snapshot x) = Snapshot_delRelations q x"
| "any_delRelations q (A_Diff x) = Diff_delRelations q x"

fun any_delRecord :: "'w sql_ops \<Rightarrow> db_any \<Rightarrow> ('w, unit) io" where
  "any_delRecord q (An_ObjID x) = ObjID_delRecord q x"
| "any_delRecord q (An_Object x) = Object_delRecord q x"
| "any_delRecord q (A_Snapshot x) = Snapshot_delRecord q x"
| "any_delRecord q (A_Diff x) = Diff_delRecord q x"

text \<open>
  \<open>del\<close>: relations are deleted only for an object whose type is not that of the class it was loaded as.
  The hook \<open>onDelete\<close> does nothing.
\<close>

definition ObjID_del :: "'w sql_ops \<Rightarrow> db_ObjID \<Rightarrow> ('w, db_ObjID) io" where
  "ObjID_del q x =
     io_bind (if \<not> ObjID_typeIsCorrect x
       then io_bind (io_of (ObjID_upcastCopy x)) (\<lambda>p. io_bind (any_delRelations q p) (\<lambda>_. any_delRecord q p))
       else ObjID_delRecord q x) (\<lambda>_.
     io_return (x\<lparr>inDatabase := False\<rparr>))"

definition Object_del :: "'w sql_ops \<Rightarrow> db_Object \<Rightarrow> ('w, db_Object) io" where
  "Object_del q x =
     io_bind (if \<not> Object_typeIsCorrect x
       then io_bind (Object_delRelations q x) (\<lambda>_. Object_delRecord q x)
       else Object_delRecord q x) (\<lambda>_.
     io_return (x\<lparr>inDatabase := False\<rparr>))"

definition Snapshot_del :: "'w sql_ops \<Rightarrow> db_Snapshot \<Rightarrow> ('w, db_Snapshot) io" where
  "Snapshot_del q x =
     io_bind (if \<not> Snapshot_typeIsCorrect x
       then io_bind (Snapshot_delRelations q x) (\<lambda>_. Snapshot_delRecord q x)
       else Snapshot_delRecord q x) (\<lambda>_.
     io_return (x\<lparr>inDatabase := False\<rparr>))"

definition Diff_del :: "'w sql_ops \<Rightarrow> db_Diff \<Rightarrow> ('w, db_Diff) io" where
  "Diff_del q x =
     io_bind (if \<not> Diff_typeIsCorrect x
       then io_bind (Diff_delRelations q x) (\<lambda>_. Diff_delRecord q x)
       else Diff_delRecord q x) (\<lambda>_.
     io_return (x\<lparr>inDatabase := False\<rparr>))"

definition HT_del :: "'w sql_ops \<Rightarrow> db_HT \<Rightarrow> ('w, db_HT) io" where
  "HT_del q x =
     io_bind (if \<not> HT_typeIsCorrect x
       then io_bind (HT_delRelations q x) (\<lambda>_. HT_delRecord q x)
       else HT_delRecord q x) (\<lambda>_.
     io_return (x\<lparr>inDatabase := False\<rparr>))"

section \<open>Relation handles\<close>

text \<open>\<open>Object::snapshots()\<close>\<close>

definition Object_snapshots_link :: "'w sql_ops \<Rightarrow> db_Object \<Rightarrow> db_Snapshot \<Rightarrow> ('w, unit) io" where
  "Object_snapshots_link q own o0 = ObjectSnapshotRelation_link q own o0"

definition Object_snapshots_unlink :: "'w sql_ops \<Rightarrow> db_Object \<Rightarrow> db_Snapshot \<Rightarrow> ('w, unit) io" where
  "Object_snapshots_unlink q own o0 = ObjectSnapshotRelation_unlink q own o0"

definition Object_snapshots_del :: "'w sql_ops \<Rightarrow> db_Object \<Rightarrow> expr \<Rightarrow> ('w, unit) io" where
  "Object_snapshots_del q own e = ObjectSnapshotRelation_del q (And e (Eq (rel_first ObjectSnapshotRelation) (SInt (fld (oi_id own)))))"

definition Object_snapshots_get :: "'w sql_ops \<Rightarrow> db_Object \<Rightarrow> expr \<Rightarrow> expr \<Rightarrow> ('w, db_Snapshot list) io" where
  "Object_snapshots_get q own e src =
     ObjectSnapshotRelation_get_Snapshot q e (And (Eq (rel_first ObjectSnapshotRelation) (SInt (fld (oi_id own)))) src)"

definition Object_snapshots_getRows :: "'w sql_ops \<Rightarrow> db_Object \<Rightarrow> expr \<Rightarrow> ('w, (int \<times> int) list) io" where
  "Object_snapshots_getRows q own e = ObjectSnapshotRelation_getRows q (And e (Eq (rel_first ObjectSnapshotRelation) (SInt (fld (oi_id own)))))"

text \<open>\<open>Object::diffs()\<close>\<close>

definition Object_diffs_link :: "'w sql_ops \<Rightarrow> db_Object \<Rightarrow> db_Diff \<Rightarrow> ('w, unit) io" where
  "Object_diffs_link q own o0 = DiffObjectRelation_link q o0 own"

definition Object_diffs_unlink :: "'w sql_ops \<Rightarrow> db_Object \<Rightarrow> db_Diff \<Rightarrow> ('w, unit) io" where
  "Object_diffs_unlink q own o0 = DiffObjectRelation_unlink q o0 own"

definition Object_diffs_del :: "'w sql_ops \<Rightarrow> db_Object \<Rightarrow> expr \<Rightarrow> ('w, unit) io" where
  "Object_diffs_del q own e = DiffObjectRelation_del q (And e (Eq (rel_second DiffObjectRelation) (SInt (fld (oi_id own)))))"

definition Object_diffs_get :: "'w sql_ops \<Rightarrow> db_Object \<Rightarrow> expr \<Rightarrow> expr \<Rightarrow> ('w, db_Diff list) io" where
  "Object_diffs_get q own e src =
     DiffObjectRelation_get_Diff q e (And (Eq (rel_second DiffObjectRelation) (SInt (fld (oi_id own)))) src)"

definition Object_diffs_getRows :: "'w sql_ops \<Rightarrow> db_Object \<Rightarrow> expr \<Rightarrow> ('w, (int \<times> int) list) io" where
  "Object_diffs_getRows q own e = DiffObjectRelation_getRows q (And e (Eq (rel_second DiffObjectRelation) (SInt (fld (oi_id own)))))"

text \<open>\<open>Snapshot::diffs()\<close>\<close>

definition Snapshot_diffs_link :: "'w sql_ops \<Rightarrow> db_Snapshot \<Rightarrow> db_Diff \<Rightarrow> ('w, unit) io" where
  "Snapshot_diffs_link q own o0 = DiffSnapshotRelation_link q o0 own"

definition Snapshot_diffs_unlink :: "'w sql_ops \<Rightarrow> db_Snapshot \<Rightarrow> db_Diff \<Rightarrow> ('w, unit) io" where
  "Snapshot_diffs_unlink q own o0 = DiffSnapshotRelation_unlink q o0 own"

definition Snapshot_diffs_del :: "'w sql_ops \<Rightarrow> db_Snapshot \<Rightarrow> expr \<Rightarrow> ('w, unit) io" where
  "Snapshot_diffs_del q own e = DiffSnapshotRelation_del q (And e (Eq (rel_second DiffSnapshotRelation) (SInt (fld (oi_id own)))))"

definition Snapshot_diffs_get :: "'w sql_ops \<Rightarrow> db_Snapshot \<Rightarrow> expr \<Rightarrow> expr \<Rightarrow> ('w, db_Diff list) io" where
  "Snapshot_diffs_get q own e src =
     DiffSnapshotRelation_get_Diff q e (And (Eq (rel_second DiffSnapshotRelation) (SInt (fld (oi_id own)))) src)"

definition Snapshot_diffs_getRows :: "'w sql_ops \<Rightarrow> db_Snapshot \<Rightarrow> expr \<Rightarrow> ('w, (int \<times> int) list) io" where
  "Snapshot_diffs_getRows q own e = DiffSnapshotRelation_getRows q (And e (Eq (rel_second DiffSnapshotRelation) (SInt (fld (oi_id own)))))"

text \<open>\<open>Diff::prev()\<close>\<close>

definition Diff_prev_link :: "'w sql_ops \<Rightarrow> db_Diff \<Rightarrow> db_ObjID \<Rightarrow> ('w, unit) io" where
  "Diff_prev_link q own o0 = DiffObjIDRelation_link q own o0"

definition Diff_prev_unlink :: "'w sql_ops \<Rightarrow> db_Diff \<Rightarrow> db_ObjID \<Rightarrow> ('w, unit) io" where
  "Diff_prev_unlink q own o0 = DiffObjIDRelation_unlink q own o0"

definition Diff_prev_del :: "'w sql_ops \<Rightarrow> db_Diff \<Rightarrow> expr \<Rightarrow> ('w, unit) io" where
  "Diff_prev_del q own e = DiffObjIDRelation_del q (And e (Eq (rel_first DiffObjIDRelation) (SInt (fld (oi_id own)))))"

definition Diff_prev_get :: "'w sql_ops \<Rightarrow> db_Diff \<Rightarrow> expr \<Rightarrow> expr \<Rightarrow> ('w, db_ObjID list) io" where
  "Diff_prev_get q own e src =
     DiffObjIDRelation_get_ObjID q e (And (Eq (rel_first DiffObjIDRelation) (SInt (fld (oi_id own)))) src)"

definition Diff_prev_getRows :: "'w sql_ops \<Rightarrow> db_Diff \<Rightarrow> expr \<Rightarrow> ('w, (int \<times> int) list) io" where
  "Diff_prev_getRows q own e = DiffObjIDRelation_getRows q (And e (Eq (rel_first DiffObjIDRelation) (SInt (fld (oi_id own)))))"

section \<open>Copies and printing\<close>

text \<open>In the derived classes and in \<open>HT\<close>, \<open>upcast\<close> copies and \<open>upcastCopy\<close> copies and assigns the members again.\<close>

definition Object_upcast :: "db_Object \<Rightarrow> db_Object" where
  "Object_upcast x = x"

definition Snapshot_upcast :: "db_Snapshot \<Rightarrow> db_Snapshot" where
  "Snapshot_upcast x = x"

definition Diff_upcast :: "db_Diff \<Rightarrow> db_Diff" where
  "Diff_upcast x = x"

definition HT_upcast :: "db_HT \<Rightarrow> db_HT" where
  "HT_upcast x = x"

definition Object_upcastCopy :: "db_Object \<Rightarrow> db_Object" where
  "Object_upcastCopy x = x"

definition Snapshot_upcastCopy :: "db_Snapshot \<Rightarrow> db_Snapshot" where
  "Snapshot_upcastCopy x = x\<lparr>sn_based := assigned (fld (sn_based x)), sn_content := assigned (fld (sn_content x)),
     sn_time := assigned (fld (sn_time x))\<rparr>"

definition Diff_upcastCopy :: "db_Diff \<Rightarrow> db_Diff" where
  "Diff_upcastCopy x = x\<lparr>df_snapshot := assigned (fld (df_snapshot x)), df_content := assigned (fld (df_content x)),
     df_time := assigned (fld (df_time x))\<rparr>"

definition HT_upcastCopy :: "db_HT \<Rightarrow> db_HT" where
  "HT_upcastCopy x = x\<lparr>ht_id := assigned (fld (ht_id x)), ht_type := assigned (fld (ht_type x)), ht_key := assigned (fld (ht_key x)),
     ht_value := assigned (fld (ht_value x)), ht_time := assigned (fld (ht_time x))\<rparr>"

text \<open>What \<open>update\<close> and \<open>del\<close> do with such a copy they could do with the object itself, which is how they are defined above.\<close>

lemma upcastCopy_same:
  "Snapshot_addIDUpdates (Snapshot_upcastCopy s) = Snapshot_addIDUpdates s" "Diff_addIDUpdates (Diff_upcastCopy d) = Diff_addIDUpdates d"
  "Snapshot_delRelations q (Snapshot_upcastCopy s) = Snapshot_delRelations q s" "Diff_delRelations q (Diff_upcastCopy d) = Diff_delRelations q d"
  "Snapshot_delRecord q (Snapshot_upcastCopy s) = Snapshot_delRecord q s" "Diff_delRecord q (Diff_upcastCopy d) = Diff_delRecord q d"
  "HT_delRecord q (HT_upcastCopy h) = HT_delRecord q h"
  by (simp_all add: fun_eq_iff Snapshot_addIDUpdates_def Snapshot_upcastCopy_def Diff_addIDUpdates_def Diff_upcastCopy_def
      Snapshot_delRelations_def Diff_delRelations_def Snapshot_delRecord_def Diff_delRecord_def ObjID_delRecord_def
      HT_delRecord_def HT_upcastCopy_def assigned_def)

text \<open>The inserters; \<open>num\<close> and \<open>dt\<close> print an integer and a date.\<close>

definition print_rule :: string where
  "print_rule = replicate 37 (CHR ''-'') @ [CHR 0x0A]"

definition print_field :: "string \<Rightarrow> string \<Rightarrow> string" where
  "print_field c v = c @ '' = '' @ v @ [CHR 0x0A]"

definition print_members :: "(int \<Rightarrow> string) \<Rightarrow> 'a db_ObjID_scheme \<Rightarrow> string" where
  "print_members num x = print_field ''id_'' (num (fld (oi_id x))) @ print_field ''type_'' (fld (oi_type x)) @ print_field ''anID_'' (fld (oi_anID x))"

definition print_ObjID :: "(int \<Rightarrow> string) \<Rightarrow> db_ObjID \<Rightarrow> string" where
  "print_ObjID num x = print_rule @ print_members num x @ print_rule"

definition print_Object :: "(int \<Rightarrow> string) \<Rightarrow> db_Object \<Rightarrow> string" where
  "print_Object num x = print_rule @ print_members num x @ print_rule"

definition print_Snapshot :: "(int \<Rightarrow> string) \<Rightarrow> (int \<Rightarrow> string) \<Rightarrow> db_Snapshot \<Rightarrow> string" where
  "print_Snapshot num dt x = print_rule @ print_members num x @ print_field ''based_'' (fld (sn_based x))
     @ print_field ''content_'' (fld (sn_content x)) @ print_field ''time_'' (dt (fld (sn_time x))) @ print_rule"

definition print_Diff :: "(int \<Rightarrow> string) \<Rightarrow> (int \<Rightarrow> string) \<Rightarrow> db_Diff \<Rightarrow> string" where
  "print_Diff num dt x = print_rule @ print_members num x @ print_field ''snapshot_'' (fld (df_snapshot x))
     @ print_field ''content_'' (fld (df_content x)) @ print_field ''time_'' (dt (fld (df_time x))) @ print_rule"

definition print_HT :: "(int \<Rightarrow> string) \<Rightarrow> (int \<Rightarrow> string) \<Rightarrow> db_HT \<Rightarrow> string" where
  "print_HT num dt x = print_rule @ print_field ''id_'' (num (fld (ht_id x))) @ print_field ''type_'' (fld (ht_type x))
     @ print_field ''key_'' (fld (ht_key x)) @ print_field ''value_'' (fld (ht_value x)) @ print_field ''time_'' (dt (fld (ht_time x))) @ print_rule"

section \<open>The schema\<close>

record backend =
  bk_getSQLType :: "sql_type \<Rightarrow> string"
  bk_getRowIDType :: string
  bk_supportsSequences :: bool
  bk_getCreateSequenceSQL :: "string \<Rightarrow> string"

datatype schema_item = SchemaItem string string string

fun item_name :: "schema_item \<Rightarrow> string" where
  "item_name (SchemaItem n k sql) = n"

text \<open>\<open>CREATE TABLE\<close> and \<open>CREATE INDEX\<close> as the schema writes them.\<close>

fun column_list :: "(string \<times> string) list \<Rightarrow> string" where
  "column_list [] = []"
| "column_list [(c, ty)] = c @ '' '' @ ty"
| "column_list ((c, ty) # cs) = c @ '' '' @ ty @ '','' @ column_list cs"

definition table_item :: "string \<Rightarrow> (string \<times> string) list \<Rightarrow> schema_item" where
  "table_item t cs = SchemaItem t ''table'' (''CREATE TABLE '' @ t @ '' ('' @ column_list cs @ '')'')"

definition index_item :: "string \<Rightarrow> string \<Rightarrow> string \<Rightarrow> schema_item" where
  "index_item i t cs = SchemaItem i ''index'' (''CREATE INDEX '' @ i @ '' ON '' @ t @ '' ('' @ cs @ '')'')"

definition getSchema :: "backend \<Rightarrow> schema_item list" where
  "getSchema bk =
     (let TEXT = bk_getSQLType bk A_field_type_string; rowIdType = bk_getRowIDType bk;
          INTEGER = bk_getSQLType bk A_field_type_integer; DATETIME = bk_getSQLType bk A_field_type_datetime in
      [SchemaItem ''schema_'' ''table'' (''CREATE TABLE schema_ (name_ '' @ TEXT @ '', type_ '' @ TEXT @ '', sql_ '' @ TEXT @ '')'')] @
      (if bk_supportsSequences bk
       then [SchemaItem ''ObjID_seq'' ''sequence'' (bk_getCreateSequenceSQL bk ''ObjID_seq''),
             SchemaItem ''HT_seq'' ''sequence'' (bk_getCreateSequenceSQL bk ''HT_seq'')] else []) @
      [table_item ''ObjID_'' [(''id_'', rowIdType), (''type_'', TEXT), (''anID_'', TEXT)],
       table_item ''Object_'' [(''id_'', rowIdType)],
       table_item ''Snapshot_'' [(''id_'', rowIdType), (''based_'', TEXT), (''content_'', TEXT), (''time_'', DATETIME)],
       table_item ''Diff_'' [(''id_'', rowIdType), (''snapshot_'', TEXT), (''content_'', TEXT), (''time_'', DATETIME)],
       table_item ''HT_'' [(''id_'', rowIdType), (''type_'', TEXT), (''key_'', TEXT), (''value_'', TEXT), (''time_'', DATETIME)],
       table_item ''Object_Snapshot_'' [(''Object1_'', INTEGER), (''Snapshot2_'', INTEGER)],
       table_item ''Diff_Object_'' [(''Diff1_'', INTEGER), (''Object2_'', INTEGER)],
       table_item ''Diff_Snapshot_'' [(''Diff1_'', INTEGER), (''Snapshot2_'', INTEGER)],
       table_item ''Diff_ObjID_'' [(''Diff1_'', INTEGER), (''ObjID2_'', INTEGER)],
       index_item ''ObjID_id_idx'' ''ObjID_'' ''id_'',
       index_item ''HT_id_idx'' ''HT_'' ''id_'',
       index_item ''Object_Snapshot_Object1_idx'' ''Object_Snapshot_'' ''Object1_'',
       index_item ''Object_Snapshot_Snapshot2_idx'' ''Object_Snapshot_'' ''Snapshot2_'',
       index_item ''Object_Snapshot__all_idx'' ''Object_Snapshot_'' ''Object1_,Snapshot2_'',
       index_item ''Diff_Object_Diff1_idx'' ''Diff_Object_'' ''Diff1_'',
       index_item ''Diff_Object_Object2_idx'' ''Diff_Object_'' ''Object2_'',
       index_item ''Diff_Object__all_idx'' ''Diff_Object_'' ''Diff1_,Object2_'',
       index_item ''Diff_Snapshot_Diff1_idx'' ''Diff_Snapshot_'' ''Diff1_'',
       index_item ''Diff_Snapshot_Snapshot2_idx'' ''Diff_Snapshot_'' ''Snapshot2_'',
       index_item ''Diff_Snapshot__all_idx'' ''Diff_Snapshot_'' ''Diff1_,Snapshot2_'',
       index_item ''Diff_ObjID_Diff1_idx'' ''Diff_ObjID_'' ''Diff1_'',
       index_item ''Diff_ObjID_ObjID2_idx'' ''Diff_ObjID_'' ''ObjID2_'',
       index_item ''Diff_ObjID__all_idx'' ''Diff_ObjID_'' ''Diff1_,ObjID2_''])"

text \<open>Every table a class or a relation names is created, and no name is created twice.\<close>

lemma schema_names:
  "map item_name (getSchema bk) = [''schema_''] @ (if bk_supportsSequences bk then [''ObjID_seq'', ''HT_seq''] else []) @
     [''ObjID_'', ''Object_'', ''Snapshot_'', ''Diff_'', ''HT_'', ''Object_Snapshot_'', ''Diff_Object_'', ''Diff_Snapshot_'', ''Diff_ObjID_'',
      ''ObjID_id_idx'', ''HT_id_idx'', ''Object_Snapshot_Object1_idx'', ''Object_Snapshot_Snapshot2_idx'', ''Object_Snapshot__all_idx'',
      ''Diff_Object_Diff1_idx'', ''Diff_Object_Object2_idx'', ''Diff_Object__all_idx'', ''Diff_Snapshot_Diff1_idx'',
      ''Diff_Snapshot_Snapshot2_idx'', ''Diff_Snapshot__all_idx'', ''Diff_ObjID_Diff1_idx'', ''Diff_ObjID_ObjID2_idx'', ''Diff_ObjID__all_idx'']"
  by (simp add: getSchema_def table_item_def index_item_def Let_def)

lemmas column_defs = ObjID_Id_def ObjID_Type_def ObjID_AnID_def Snapshot_Based_def Snapshot_Content_def
  Snapshot_Time_def Diff_Snapshot_def Diff_Content_def Diff_Time_def HT_Id_def HT_Type_def HT_Key_def HT_Value_def HT_Time_def

lemmas class_columns = ObjID_getFieldTypes_def Object_getFieldTypes_def Snapshot_getFieldTypes_def Diff_getFieldTypes_def HT_getFieldTypes_def

lemmas relation_defs = make_relation_def ObjectSnapshotRelation_def DiffObjectRelation_def DiffSnapshotRelation_def DiffObjIDRelation_def

lemma schema_tables:
  "distinct (map item_name (getSchema bk))"
  "ft_table ` set (ObjID_getFieldTypes @ Snapshot_getFieldTypes @ Diff_getFieldTypes @ HT_getFieldTypes)
     \<union> {''Object_''} \<union> rel_table ` {ObjectSnapshotRelation, DiffObjectRelation, DiffSnapshotRelation, DiffObjIDRelation}
   \<subseteq> set (map item_name (getSchema bk))"
  unfolding schema_names by (simp_all add: class_columns column_defs relation_defs)

end
