(* ===== verification/SqlStore.thy ===== *)
theory SqlStore
  imports SqlDb Plugins
begin

text \<open>
  The SQL storage plugin, \<open>src/modules/localstorage/sqlstore/sqlstore.{h,cc}\<close>, over the schema classes of
  \<open>SqlDb\<close> and a database \<open>q\<close>: objects with their snapshots and differences, and keys with values. It is not
  part of the build. It was written for a \<open>Diff\<close> whose \<open>prev\<close> is a vector of ids (the declaration that is
  commented out in \<open>src/daemon/db.h\<close>), so the data of the object database are declared here as it uses them.

  Parameters: \<open>q\<close> (litesql), \<open>fs\<close> (the file system), \<open>clk\<close> (the local time) and \<open>nadt\<close>, the number of seconds the
  date library has for a time that is not a date.
\<close>

section \<open>Data\<close>

record sq_diff = needs_ObjID +
  sd_snapshot :: string
  sd_prev :: "string list"

record sq_snapshot = needs_ObjID +
  ss_diffs :: "sq_diff list"
  ss_based :: string

record sq_object =
  so_id :: string
  so_master :: string
  so_db_id :: int
  so_db_type :: string
  so_snapshots :: "sq_snapshot list"
  so_diffs :: "sq_diff list"
  so_head :: string

definition sq_diff_new :: sq_diff where
  "sq_diff_new = \<lparr>oid = [], db_id = 0, db_type = [], content = [], time = None, sd_snapshot = [], sd_prev = []\<rparr>"

definition sq_snapshot_new :: sq_snapshot where
  "sq_snapshot_new = \<lparr>oid = [], db_id = 0, db_type = [], content = [], time = None, ss_diffs = [], ss_based = []\<rparr>"

text \<open>
  The code divides the ticks since the epoch by the ticks of a second. Times are whole seconds here (\<open>second_clock\<close>),
  so there is no fraction to cut off.
\<close>

definition to_time_t :: "int \<Rightarrow> ptime \<Rightarrow> int" where
  "to_time_t nadt pt = (case pt of None \<Rightarrow> nadt | Some t \<Rightarrow> t)"

text \<open>\<open>try m catch (Except e)\<close>: \<open>None\<close> when the exception was caught.\<close>

definition attempt :: "('w, 'a) io \<Rightarrow> ('w, 'a option) io" where
  "attempt m = io_catch (io_bind m (\<lambda>a. io_return (Some a))) (\<lambda>e. if e = Sql_except then Some (io_return None) else None)"

definition succeeds :: "('w, 'a) io \<Rightarrow> ('w, bool) io" where
  "succeeds m = io_bind (attempt m) (\<lambda>r. io_return (r \<noteq> None))"

section \<open>Storing\<close>

definition db_store_id :: "'w sql_ops \<Rightarrow> string \<Rightarrow> ('w, db_ObjID) io" where
  "db_store_id q i = ObjID_update q (ObjID_new\<lparr>oi_anID := assigned i\<rparr>)"

fun link_prevs :: "'w sql_ops \<Rightarrow> db_Diff \<Rightarrow> string list \<Rightarrow> ('w, unit) io" where
  "link_prevs q d [] = io_return ()"
| "link_prevs q d (p # ps) = io_bind (db_store_id q p) (\<lambda>x. io_bind (Diff_prev_link q d x) (\<lambda>_. link_prevs q d ps))"

text \<open>The part \<open>if(ip->_db_id)\<close> of the three store functions.\<close>

definition adopt :: "int \<Rightarrow> string \<Rightarrow> 'a db_ObjID_scheme \<Rightarrow> 'a db_ObjID_scheme" where
  "adopt i ty x = (if i \<noteq> 0 then set_inDatabase True ((set_id i (x\<lparr>oi_id := assigned i\<rparr>))\<lparr>oi_type := assigned ty\<rparr>) else x)"

definition store_diff :: "'w sql_ops \<Rightarrow> int \<Rightarrow> sq_diff \<Rightarrow> ('w, db_Diff) io" where
  "store_diff q nadt ip =
     (let d = (adopt (db_id ip) (db_type ip) (Diff_new\<lparr>df_snapshot := assigned (sd_snapshot ip), oi_anID := assigned (oid ip)\<rparr>))
            \<lparr>df_content := assigned (content ip), df_time := assigned (to_time_t nadt (time ip))\<rparr> in
      io_bind (link_prevs q d (sd_prev ip)) (\<lambda>_. Diff_update q d))"

fun link_diffs :: "'w sql_ops \<Rightarrow> int \<Rightarrow> db_Snapshot \<Rightarrow> sq_diff list \<Rightarrow> ('w, unit) io" where
  "link_diffs q nadt s [] = io_return ()"
| "link_diffs q nadt s (x # xs) =
     io_bind (store_diff q nadt x) (\<lambda>d. io_bind (Snapshot_diffs_link q s d) (\<lambda>_. link_diffs q nadt s xs))"

definition store_snapshot :: "'w sql_ops \<Rightarrow> int \<Rightarrow> sq_snapshot \<Rightarrow> ('w, db_Snapshot) io" where
  "store_snapshot q nadt sn =
     (let s = (adopt (db_id sn) (db_type sn) (Snapshot_new\<lparr>sn_based := assigned (ss_based sn), oi_anID := assigned (oid sn)\<rparr>))
            \<lparr>sn_content := assigned (content sn), sn_time := assigned (to_time_t nadt (time sn))\<rparr> in
      io_bind (link_diffs q nadt s (ss_diffs sn)) (\<lambda>_. Snapshot_update q s))"

fun link_snapshots :: "'w sql_ops \<Rightarrow> int \<Rightarrow> db_Object \<Rightarrow> sq_snapshot list \<Rightarrow> ('w, unit) io" where
  "link_snapshots q nadt x [] = io_return ()"
| "link_snapshots q nadt x (sn # sns) =
     io_bind (store_snapshot q nadt sn) (\<lambda>s. io_bind (Object_snapshots_link q x s) (\<lambda>_. link_snapshots q nadt x sns))"

text \<open>The plugin's functions. No path rolls a transaction back.\<close>

definition sq_db_store_snapshot :: "'w sql_ops \<Rightarrow> int \<Rightarrow> sq_snapshot \<Rightarrow> ('w, bool) io" where
  "sq_db_store_snapshot q nadt sn =
     succeeds (io_bind (sql_begin q) (\<lambda>_. io_bind (store_snapshot q nadt sn) (\<lambda>_. sql_commit q)))"

definition sq_db_store_diff :: "'w sql_ops \<Rightarrow> int \<Rightarrow> sq_diff \<Rightarrow> ('w, bool) io" where
  "sq_db_store_diff q nadt d =
     succeeds (io_bind (sql_begin q) (\<lambda>_. io_bind (store_diff q nadt d) (\<lambda>_. sql_commit q)))"

definition sq_db_store_obj :: "'w sql_ops \<Rightarrow> int \<Rightarrow> sq_object \<Rightarrow> ('w, bool) io" where
  "sq_db_store_obj q nadt ob =
     succeeds
       (io_bind (sql_begin q) (\<lambda>_.
        io_bind (Object_update q (adopt (so_db_id ob) (so_db_type ob) (Object_new\<lparr>oi_anID := assigned (so_id ob)\<rparr>))) (\<lambda>x.
        io_bind (link_snapshots q nadt x (so_snapshots ob)) (\<lambda>_.
        io_bind (Object_update q x) (\<lambda>_. sql_commit q)))))"

definition sq_db_remove :: "'w sql_ops \<Rightarrow> string \<Rightarrow> ('w, bool) io" where
  "sq_db_remove q i =
     succeeds
       (io_bind (sql_begin q) (\<lambda>_.
        io_bind (sql_one q ObjID_getFieldTypes (Eq ObjID_AnID (SText i))) (\<lambda>rec.
        io_bind (ObjID_del q (ObjID_of_record rec)) (\<lambda>_. sql_commit q))))"

section \<open>Loading\<close>

text \<open>
  The results are assigned through pointers, so what was assigned before an exception stays: the
  functions return it with \<open>False\<close>.
\<close>

definition get_diff :: "'w sql_ops \<Rightarrow> string \<Rightarrow> db_Diff \<Rightarrow> sq_diff \<Rightarrow> ('w, bool \<times> sq_diff) io" where
  "get_diff q i d res =
     (let res1 = res\<lparr>oid := i, db_id := fld (oi_id d), db_type := fld (oi_type d), sd_snapshot := fld (df_snapshot d),
            content := fld (df_content d), time := Some (fld (df_time d))\<rparr> in
      io_bind (attempt (Diff_prev_get q d Expr Expr)) (\<lambda>r. case r of
        None \<Rightarrow> io_return (False, res1)
      | Some prevs \<Rightarrow> io_return (True, res1\<lparr>sd_prev := sd_prev res1 @ map (\<lambda>x. fld (oi_anID x)) prevs\<rparr>)))"

fun get_diffs :: "'w sql_ops \<Rightarrow> db_Diff list \<Rightarrow> sq_diff list \<Rightarrow> ('w, bool \<times> sq_diff list) io" where
  "get_diffs q [] res = io_return (True, res)"
| "get_diffs q (d # ds) res =
     io_bind (get_diff q (fld (oi_anID d)) d sq_diff_new) (\<lambda>(ok, x).
     if ok then get_diffs q ds (res @ [x]) else io_return (False, res))"

definition get_snapshot :: "'w sql_ops \<Rightarrow> string \<Rightarrow> db_Snapshot \<Rightarrow> sq_snapshot \<Rightarrow> ('w, bool \<times> sq_snapshot) io" where
  "get_snapshot q i s res =
     (let res1 = res\<lparr>oid := i, db_id := fld (oi_id s), db_type := fld (oi_type s), ss_based := fld (sn_based s),
            content := fld (sn_content s), time := Some (fld (sn_time s))\<rparr> in
      io_bind (attempt (Snapshot_diffs_get q s Expr Expr)) (\<lambda>r. case r of
        None \<Rightarrow> io_return (False, res1)
      | Some prevs \<Rightarrow> io_bind (get_diffs q prevs (ss_diffs res1)) (\<lambda>(ok, ds). io_return (ok, res1\<lparr>ss_diffs := ds\<rparr>))))"

fun get_snapshots :: "'w sql_ops \<Rightarrow> db_Snapshot list \<Rightarrow> sq_snapshot list \<Rightarrow> ('w, bool \<times> sq_snapshot list) io" where
  "get_snapshots q [] res = io_return (True, res)"
| "get_snapshots q (s # ss) res =
     io_bind (get_snapshot q (fld (oi_anID s)) s sq_snapshot_new) (\<lambda>(ok, x).
     if ok then get_snapshots q ss (res @ [x]) else io_return (False, res))"

definition sq_db_get_snapshot :: "'w sql_ops \<Rightarrow> string \<Rightarrow> sq_snapshot \<Rightarrow> ('w, bool \<times> sq_snapshot) io" where
  "sq_db_get_snapshot q i res =
     io_bind (attempt (sql_one q Snapshot_getFieldTypes (Eq ObjID_AnID (SText i)))) (\<lambda>r. case r of
       None \<Rightarrow> io_return (False, res)
     | Some rec \<Rightarrow> get_snapshot q i (Snapshot_of_record rec) res)"

definition sq_db_get_diff :: "'w sql_ops \<Rightarrow> string \<Rightarrow> sq_diff \<Rightarrow> ('w, bool \<times> sq_diff) io" where
  "sq_db_get_diff q i res =
     io_bind (attempt (sql_one q Diff_getFieldTypes (Eq ObjID_AnID (SText i)))) (\<lambda>r. case r of
       None \<Rightarrow> io_return (False, res)
     | Some rec \<Rightarrow> get_diff q i (Diff_of_record rec) res)"

definition sq_db_get_obj :: "'w sql_ops \<Rightarrow> string \<Rightarrow> sq_object \<Rightarrow> ('w, bool \<times> sq_object) io" where
  "sq_db_get_obj q i res =
     io_bind (attempt (sql_one q Object_getFieldTypes (Eq ObjID_AnID (SText i)))) (\<lambda>r. case r of
       None \<Rightarrow> io_return (False, res)
     | Some rec \<Rightarrow>
         let x = Object_of_record rec; res1 = res\<lparr>so_id := i, so_db_id := fld (oi_id x), so_db_type := fld (oi_type x)\<rparr> in
         io_bind (attempt (io_bind (Object_snapshots_get q x Expr Expr) (\<lambda>ss.
                           io_bind (Object_diffs_get q x Expr Expr) (\<lambda>ds. io_return (ss, ds))))) (\<lambda>r. case r of
           None \<Rightarrow> io_return (False, res1)
         | Some (ss, ds) \<Rightarrow>
             io_bind (get_snapshots q ss (so_snapshots res1)) (\<lambda>(ok, ss').
             let res2 = res1\<lparr>so_snapshots := ss'\<rparr> in
             if \<not> ok then io_return (False, res2)
             else io_bind (get_diffs q ds (so_diffs res2)) (\<lambda>(ok, ds'). io_return (ok, res2\<lparr>so_diffs := ds'\<rparr>)))))"

section \<open>Keys and values\<close>

definition sq_kv_put :: "'w sql_ops \<Rightarrow> int \<Rightarrow> ('w \<Rightarrow> ptime) \<Rightarrow> string \<Rightarrow> string \<Rightarrow> ('w, bool) io" where
  "sq_kv_put q nadt clk k v = (\<lambda>w.
     succeeds (HT_update q (HT_new\<lparr>ht_key := assigned k, ht_value := assigned v, ht_time := assigned (to_time_t nadt (clk w))\<rparr>)) w)"

definition sq_kv_get :: "'w sql_ops \<Rightarrow> string \<Rightarrow> string \<Rightarrow> ('w, bool \<times> string) io" where
  "sq_kv_get q k res =
     io_bind (attempt (sql_one q HT_getFieldTypes (Eq HT_Key (SText k)))) (\<lambda>r. case r of
       None \<Rightarrow> io_return (False, res)
     | Some rec \<Rightarrow> io_return (True, fld (ht_value (HT_of_record rec))))"

definition sq_kv_remove :: "'w sql_ops \<Rightarrow> string \<Rightarrow> ('w, bool) io" where
  "sq_kv_remove q k =
     succeeds (io_bind (sql_one q HT_getFieldTypes (Eq HT_Key (SText k))) (\<lambda>rec. HT_del q (HT_of_record rec)))"

section \<open>Start\<close>

definition sq_create_db :: "'w sql_ops \<Rightarrow> string \<Rightarrow> ('w, bool) io" where
  "sq_create_db q path =
     io_bind (sql_open q ''sqlite3'' (''database='' @ path)) (\<lambda>_. io_bind (sql_create q) (\<lambda>_. io_return True))"

text \<open>\<open>Sqlstore::initialise\<close>, with the path it assigns to \<open>_db_path\<close>.\<close>

definition sq_initialise :: "'w sql_ops \<Rightarrow> 'w fs_ops \<Rightarrow> string \<Rightarrow> ('w, bool \<times> string) io" where
  "sq_initialise q fs datadir =
     (let path = datadir @ ''/sqlstore.db'' in
      io_bind (attempt (\<lambda>w.
        if \<not> fs_exists fs path w then io_bind (sq_create_db q path) (\<lambda>ok. if \<not> ok then io_return False else io_return True) w
        else io_bind (sql_open q ''sqlite3'' (''database='' @ path)) (\<lambda>_.
             io_bind (sql_needsUpgrade q) (\<lambda>b.
             io_bind (if b then sql_upgrade q else io_return ()) (\<lambda>_. io_return True))) w)) (\<lambda>r. case r of
        None \<Rightarrow> io_return (False, path)
      | Some b \<Rightarrow> io_return (b, path)))"

text \<open>The plugin connects no slots; \<open>plg\<close> stands for its virtual functions.\<close>

definition sq_start :: "'w sql_ops \<Rightarrow> 'w fs_ops \<Rightarrow> config_manager \<Rightarrow> 'w localstorage \<Rightarrow> 'w plugin_start" where
  "sq_start q fs cm plg mm = io_bind (sq_initialise q fs (cm_data_dir cm)) (\<lambda>(ok, _). io_return (ok, mm, plg))"

definition sq_driver :: "'w sql_ops \<Rightarrow> 'w fs_ops \<Rightarrow> config_manager \<Rightarrow> 'w localstorage \<Rightarrow> 'w driver" where
  "sq_driver q fs cm plg = \<lparr>drv_name = ''sqlstore_driver'', drv_start = sq_start q fs cm plg\<rparr>"

definition sq_register :: "'w sql_ops \<Rightarrow> 'w fs_ops \<Rightarrow> config_manager \<Rightarrow> 'w localstorage \<Rightarrow> 'w kernel \<Rightarrow> 'w kernel outcome" where
  "sq_register q fs cm plg = register_driver PLG_LOCALSTORAGE_SERVER_NAME 1 (sq_driver q fs cm plg)"

end
