(* ===== verification/SqlKv.thy ===== *)
theory SqlKv
  imports SqlStore
begin

text \<open>
  Keys and values of the SQL storage plugin. The table \<open>HT_\<close> is a bag of values for each key: \<open>kv_put\<close> adds a
  value and never replaces one, \<open>kv_remove\<close> takes one away. The locale \<open>kv_bag\<close> is that contract, with what
  follows from it for sequences of calls.
\<close>

section \<open>Catching database exceptions\<close>

lemma attempt_cases:
  assumes "db_call m" and "attempt m w = (r, w')"
  obtains a where "m w = (Return a, w')" and "r = Return (Some a)"
  | "m w = (Throw Sql_except, w')" and "r = Return None"
proof -
  obtain r0 w0 where m: "m w = (r0, w0)" by fastforce
  with assms(1) have "r0 = Throw Sql_except \<or> (\<exists>a. r0 = Return a)" unfolding db_call_def by blast
  with m assms(2) that show thesis by (auto simp: attempt_def io_simps)
qed

lemma succeeds_cases:
  assumes "db_call m" and "succeeds m w = (r, w')"
  obtains a where "m w = (Return a, w')" and "r = Return True"
  | "m w = (Throw Sql_except, w')" and "r = Return False"
proof -
  obtain r0 w0 where "attempt m w = (r0, w0)" by fastforce
  with assms(1) show thesis by (cases rule: attempt_cases) (use assms(2) that \<open>attempt m w = (r0, w0)\<close> in \<open>auto simp: succeeds_def io_simps\<close>)
qed

section \<open>Queries and insertions on one table\<close>

lemma joined_single:
  assumes "fts \<noteq> []" and "\<And>ft. ft \<in> set fts \<Longrightarrow> ft_table ft = t"
  shows "joined T fts e = {(\<lambda>_. Map.empty)(t := r) | r. r \<in> T t \<and> eval T ((\<lambda>_. Map.empty)(t := r)) e}"
proof -
  have tabs: "ft_table ` set fts = {t}" using assms by (auto simp: image_iff neq_Nil_conv)
  have hd: "ft_table (hd fts) = t" using assms by simp
  have "(\<forall>t'. t' \<notin> {t} \<longrightarrow> env t' = Map.empty) \<longleftrightarrow> env = (\<lambda>_. Map.empty)(t := env t)" for env :: "string \<Rightarrow> row"
    by (auto simp: fun_eq_iff)
  then have "joined T fts e = {env. env t \<in> T t \<and> env = (\<lambda>_. Map.empty)(t := env t) \<and> eval T env e}"
    using assms hd unfolding joined_def tabs by (auto simp: neq_Nil_conv)
  then show ?thesis by (auto simp: fun_upd_def)
qed

lemma new_rows_single: "new_rows n [t] [fs] [vs] T = T(t := insert (map_of (zip fs (SInt n # tl vs))) (T t))"
  by (auto simp: new_rows_def fun_eq_iff)

section \<open>The bag of a key\<close>

definition ht_row :: "int \<Rightarrow> string \<Rightarrow> string \<Rightarrow> string \<Rightarrow> int \<Rightarrow> row" where
  "ht_row n ty k v t = [''id_'' \<mapsto> SInt n, ''type_'' \<mapsto> SText ty, ''key_'' \<mapsto> SText k, ''value_'' \<mapsto> SText v, ''time_'' \<mapsto> STime t]"

lemma ht_row_columns [simp]:
  "ht_row n ty k v t ''id_'' = Some (SInt n)" "ht_row n ty k v t ''type_'' = Some (SText ty)"
  "ht_row n ty k v t ''key_'' = Some (SText k)" "ht_row n ty k v t ''value_'' = Some (SText v)"
  "ht_row n ty k v t ''time_'' = Some (STime t)"
  by (simp_all add: ht_row_def)

definition ht_wf :: "tables \<Rightarrow> bool" where
  "ht_wf T \<longleftrightarrow> finite (T ''HT_'') \<and> (\<forall>r \<in> T ''HT_''. \<exists>n ty k v t. r = ht_row n ty k v t) \<and> inj_on (\<lambda>r. r ''id_'') (T ''HT_'')"

definition ht_rows :: "tables \<Rightarrow> string \<Rightarrow> row set" where
  "ht_rows T k = {r \<in> T ''HT_''. r ''key_'' = Some (SText k)}"

definition row_value :: "row \<Rightarrow> string" where
  "row_value r = as_text (column (\<lambda>_. r) HT_Value)"

definition kv_values :: "tables \<Rightarrow> string \<Rightarrow> string multiset" where
  "kv_values T k = image_mset row_value (mset_set (ht_rows T k))"

lemma row_value_ht_row [simp]: "row_value (ht_row n ty k v t) = v"
  by (simp add: row_value_def column_def column_defs)

lemma ht_rows_update [simp]: "t \<noteq> ''HT_'' \<Longrightarrow> ht_rows (T(t := X)) k = ht_rows T k"
  by (simp add: ht_rows_def)

lemma finite_ht_rows: "ht_wf T \<Longrightarrow> finite (ht_rows T k)"
  by (simp add: ht_wf_def ht_rows_def)

lemma kv_values_insert:
  assumes "ht_wf T" and "\<And>r. r \<in> T ''HT_'' \<Longrightarrow> r ''id_'' \<noteq> Some (SInt n)"
  shows "ht_wf (T(''HT_'' := insert (ht_row n ty k v t) (T ''HT_'')))"
    and "kv_values (T(''HT_'' := insert (ht_row n ty k v t) (T ''HT_''))) = (kv_values T)(k := add_mset v (kv_values T k))"
proof -
  let ?T = "T(''HT_'' := insert (ht_row n ty k v t) (T ''HT_''))"
  have new: "ht_row n ty k v t \<notin> T ''HT_''" using assms(2) by force
  show "ht_wf ?T" using assms unfolding ht_wf_def by (auto simp: inj_on_def) (metis ht_row_columns(1))+
  have "ht_rows ?T k' = (if k' = k then insert (ht_row n ty k v t) (ht_rows T k) else ht_rows T k')" for k'
    by (auto simp: ht_rows_def)
  moreover have "ht_row n ty k v t \<notin> ht_rows T k" using new by (simp add: ht_rows_def)
  ultimately show "kv_values ?T = (kv_values T)(k := add_mset v (kv_values T k))"
    using finite_ht_rows [OF assms(1)] by (simp add: kv_values_def fun_eq_iff)
qed

lemma kv_values_delete:
  assumes "ht_wf T" and "r \<in> ht_rows T k" and "r ''id_'' = Some (SInt n)"
    and T': "T' = T(''HT_'' := {x \<in> T ''HT_''. x ''id_'' \<noteq> Some (SInt n)})"
  shows "ht_wf T'" and "kv_values T' = (kv_values T)(k := kv_values T k - {#row_value r#})" and "row_value r \<in># kv_values T k"
proof -
  have r: "r \<in> T ''HT_''" "r ''key_'' = Some (SText k)" using assms(2) by (simp_all add: ht_rows_def)
  have "x ''id_'' = Some (SInt n) \<longleftrightarrow> x = r" if "x \<in> T ''HT_''" for x
    using assms(1,3) r(1) that by (auto simp: ht_wf_def inj_on_def)
  then have del: "{x \<in> T ''HT_''. x ''id_'' \<noteq> Some (SInt n)} = T ''HT_'' - {r}" by auto
  show "ht_wf T'" using assms(1) unfolding T' ht_wf_def by (auto intro: inj_on_subset)
  have rows: "ht_rows T' k' = (if k' = k then ht_rows T k - {r} else ht_rows T k')" for k'
    using r(2) by (auto simp: ht_rows_def T' del)
  have "mset_set (ht_rows T k) = add_mset r (mset_set (ht_rows T k - {r}))"
    using finite_ht_rows [OF assms(1)] assms(2) by (simp add: mset_set.remove)
  then have "kv_values T k = add_mset (row_value r) (kv_values T' k)" by (simp add: kv_values_def rows)
  then show "kv_values T' = (kv_values T)(k := kv_values T k - {#row_value r#})" and "row_value r \<in># kv_values T k"
    by (simp_all add: kv_values_def rows fun_eq_iff)
qed

section \<open>The three functions\<close>

lemma ht_record:
  assumes "ht_wf T" and "rec \<in> (\<lambda>env. map (column env) HT_getFieldTypes) ` joined T HT_getFieldTypes (Eq HT_Key (SText k))"
  obtains n ty v t where "ht_row n ty k v t \<in> ht_rows T k" and "rec = [SInt n, SText ty, SText k, SText v, STime t]"
proof -
  have "joined T HT_getFieldTypes (Eq HT_Key (SText k)) = {(\<lambda>_. Map.empty)(''HT_'' := r) | r. r \<in> ht_rows T k}"
    by (subst joined_single [where t = "''HT_''"]) (auto simp: class_columns column_defs ht_rows_def)
  with assms(2) obtain r where r: "r \<in> ht_rows T k"
    and rec: "rec = map (column ((\<lambda>_. Map.empty)(''HT_'' := r))) HT_getFieldTypes" by auto
  with assms(1) obtain n ty v t where "r = ht_row n ty k v t" unfolding ht_wf_def ht_rows_def by force
  with that r rec show thesis by (simp add: class_columns column_defs column_def)
qed

lemma no_ht_record: "ht_rows T k = {} \<Longrightarrow> joined T HT_getFieldTypes (Eq HT_Key (SText k)) = {}"
  by (subst joined_single [where t = "''HT_''"]) (auto simp: class_columns column_defs ht_rows_def)

lemma HT_update_new_db_call [db_calls]: "sql_spec q db \<Longrightarrow> \<not> inDatabase x \<Longrightarrow> db_call (HT_update q x)"
  unfolding HT_update_def HT_create_def HT_insert_def by (simp, intro db_calls)

lemma HT_del_db_call [db_calls]: "sql_spec q db \<Longrightarrow> db_call (HT_del q x)"
  unfolding HT_del_def HT_delRecord_def HT_delRelations_def deleteFromTable_def by (intro db_calls)

lemma kv_put_effect:
  assumes "sql_spec q db" and "ht_wf (db_tables (db w))" and "sq_kv_put q nadt clk k v w = (r, w')"
  shows "r = Return True \<and> ht_wf (db_tables (db w')) \<and> db_open_tx (db w') = db_open_tx (db w)
      \<and> kv_values (db_tables (db w')) = (kv_values (db_tables (db w)))(k := add_mset v (kv_values (db_tables (db w)) k))
    \<or> r = Return False"
proof -
  let ?x = "HT_new\<lparr>ht_key := assigned k, ht_value := assigned v, ht_time := assigned (to_time_t nadt (clk w))\<rparr>"
  have "db_call (HT_update q ?x)" using assms(1) by (rule HT_update_new_db_call) (simp add: HT_new_def)
  moreover have "succeeds (HT_update q ?x) w = (r, w')" using assms(3) by (simp add: sq_kv_put_def)
  ultimately show ?thesis
  proof (cases rule: succeeds_cases)
    case (1 a)
    then obtain n where ins: "sql_group_insert q [''HT_''] [[''id_'', ''type_'', ''key_'', ''value_'', ''time_'']]
        [[SInt 0, SText ''HT'', SText k, SText v, STime (to_time_t nadt (clk w))]] ''HT_seq'' w = (Return n, w')"
      by (auto simp: HT_update_def HT_create_def HT_insert_def HT_new_def assigned_def elim!: io_bind_returnE split: if_splits)
    note eff = sql_group_insert_effect [OF assms(1) ins, simplified]
    have row: "[''time_'' \<mapsto> STime (to_time_t nadt (clk w)), ''value_'' \<mapsto> SText v, ''key_'' \<mapsto> SText k, ''type_'' \<mapsto> SText ''HT'', ''id_'' \<mapsto> SInt n]
      = ht_row n ''HT'' k v (to_time_t nadt (clk w))" by (auto simp: ht_row_def fun_eq_iff)
    have tabs: "db_tables (db w') = (db_tables (db w))(''HT_'' := insert (ht_row n ''HT'' k v (to_time_t nadt (clk w))) (db_tables (db w) ''HT_''))"
      and "db_open_tx (db w') = db_open_tx (db w)" using eff(3) by (simp_all add: new_rows_single row)
    moreover have "\<And>r. r \<in> db_tables (db w) ''HT_'' \<Longrightarrow> r ''id_'' \<noteq> Some (SInt n)" using eff(2) by simp
    ultimately show ?thesis using kv_values_insert [OF assms(2)] 1 by simp
  qed simp
qed

lemma kv_get_effect:
  assumes "sql_spec q db" and "ht_wf (db_tables (db w))" and "sq_kv_get q k res w = (r, w')"
  shows "db w' = db w" and "r = Return (False, res) \<or> (\<exists>v. v \<in># kv_values (db_tables (db w)) k \<and> r = Return (True, v))"
proof -
  obtain r0 w0 where a: "attempt (sql_one q HT_getFieldTypes (Eq HT_Key (SText k))) w = (r0, w0)" by fastforce
  have "db_call (sql_one q HT_getFieldTypes (Eq HT_Key (SText k)))" using assms(1) by (rule db_calls)
  from this a show "db w' = db w" and "r = Return (False, res) \<or> (\<exists>v. v \<in># kv_values (db_tables (db w)) k \<and> r = Return (True, v))"
  proof (atomize (full), cases rule: attempt_cases)
    case (1 rec)
    note eff = sql_one_effect [OF assms(1) 1(1)]
    from eff(2) obtain n ty v t where row: "ht_row n ty k v t \<in> ht_rows (db_tables (db w)) k"
      and rec: "rec = [SInt n, SText ty, SText k, SText v, STime t]" using assms(2) by (metis ht_record)
    have "v \<in># kv_values (db_tables (db w)) k"
      using row finite_ht_rows [OF assms(2)] by (force simp: kv_values_def intro: image_eqI [of _ _ "ht_row n ty k v t"])
    moreover have "fld (ht_value (HT_of_record rec)) = v"
      by (simp add: rec HT_of_record_def rec_field_def unmodified_def assigned_def)
    ultimately show "db w' = db w \<and> (r = Return (False, res) \<or> (\<exists>v. v \<in># kv_values (db_tables (db w)) k \<and> r = Return (True, v)))"
      using assms(3) a 1 eff(1) by (auto simp: sq_kv_get_def io_simps)
  next
    case 2
    then show "db w' = db w \<and> (r = Return (False, res) \<or> (\<exists>v. v \<in># kv_values (db_tables (db w)) k \<and> r = Return (True, v)))"
      using assms(3) a sql_one_effect(1) [OF assms(1) 2(1)] by (auto simp: sq_kv_get_def io_simps)
  qed
qed

lemma kv_remove_effect:
  assumes "sql_spec q db" and "ht_wf (db_tables (db w))" and "sq_kv_remove q k w = (r, w')"
  shows "(\<exists>v. v \<in># kv_values (db_tables (db w)) k \<and> r = Return True \<and> ht_wf (db_tables (db w')) \<and> db_open_tx (db w') = db_open_tx (db w)
      \<and> kv_values (db_tables (db w')) = (kv_values (db_tables (db w)))(k := kv_values (db_tables (db w)) k - {#v#}))
    \<or> r = Return False \<and> db w' = db w"
proof -
  let ?m = "io_bind (sql_one q HT_getFieldTypes (Eq HT_Key (SText k))) (\<lambda>rec. HT_del q (HT_of_record rec))"
  have "db_call ?m" using assms(1) by (intro db_calls)
  moreover have "succeeds ?m w = (r, w')" using assms(3) by (simp add: sq_kv_remove_def)
  ultimately show ?thesis
  proof (cases rule: succeeds_cases)
    case (1 a)
    from 1(1) obtain rec w1 where one: "sql_one q HT_getFieldTypes (Eq HT_Key (SText k)) w = (Return rec, w1)"
      and del: "HT_del q (HT_of_record rec) w1 = (Return a, w')" by (rule io_bind_returnE)
    note eff = sql_one_effect [OF assms(1) one]
    from eff(2) obtain n ty v t where row: "ht_row n ty k v t \<in> ht_rows (db_tables (db w)) k"
      and rec: "rec = [SInt n, SText ty, SText k, SText v, STime t]" using assms(2) by (metis ht_record)
    from del obtain u where "deleteFromTable q ''HT_'' n w1 = (Return u, w')"
      by (auto simp: HT_del_def HT_delRecord_def HT_delRelations_def HT_of_record_def rec rec_field_def unmodified_def assigned_def
          elim!: io_bind_returnE split: if_splits)
    from sql_delete_effect [OF assms(1) this [unfolded deleteFromTable_def]] eff(1)
    have tabs: "db_tables (db w') = (db_tables (db w))(''HT_'' := {x \<in> db_tables (db w) ''HT_''. x ''id_'' \<noteq> Some (SInt n)})"
      and tx: "db_open_tx (db w') = db_open_tx (db w)" by simp_all
    from kv_values_delete [OF assms(2) row _ tabs] 1(2) tx show ?thesis by auto
  next
    case 2
    obtain r1 w1 where one: "sql_one q HT_getFieldTypes (Eq HT_Key (SText k)) w = (r1, w1)" by fastforce
    have "db w' = db w"
    proof (cases r1)
      case (Return rec)
      with one 2(1) have "HT_del q (HT_of_record rec) w1 = (Throw Sql_except, w')" by (simp add: io_bind_apply)
      then have "deleteFromTable q ''HT_'' (fld (ht_id (HT_of_record rec))) w1 = (Throw Sql_except, w')"
        by (auto simp: HT_del_def HT_delRecord_def HT_delRelations_def io_bind_apply split: if_splits outcome.splits prod.splits)
      then have "db w' = db w1"
        using assms(1) unfolding sql_spec_def delete_spec_def deleteFromTable_def by blast
      with sql_one_effect(1) [OF assms(1) one] show ?thesis by simp
    qed (use one 2(1) sql_one_effect(1) [OF assms(1) one] in \<open>auto simp: io_bind_apply\<close>)
    with 2 show ?thesis by simp
  qed
qed

section \<open>The contract of a bag\<close>

datatype kv_call = Kv_put string string | Kv_remove string

text \<open>Runs the calls in order; \<open>None\<close> when one of them did not answer true.\<close>

fun kv_succeed :: "(string \<Rightarrow> string \<Rightarrow> ('w, bool) io) \<Rightarrow> (string \<Rightarrow> ('w, bool) io) \<Rightarrow> kv_call list \<Rightarrow> 'w \<Rightarrow> 'w option" where
  "kv_succeed put remove [] w = Some w"
| "kv_succeed put remove (c # cs) w =
     (case (case c of Kv_put k v \<Rightarrow> put k v w | Kv_remove k \<Rightarrow> remove k w) of
        (Return True, w') \<Rightarrow> kv_succeed put remove cs w'
      | _ \<Rightarrow> None)"

definition kv_puts :: "string \<Rightarrow> kv_call list \<Rightarrow> string list" where
  "kv_puts k cs = List.map_filter (\<lambda>c. case c of Kv_put k' v \<Rightarrow> if k' = k then Some v else None | Kv_remove k' \<Rightarrow> None) cs"

definition kv_removes :: "string \<Rightarrow> kv_call list \<Rightarrow> nat" where
  "kv_removes k cs = length (filter (\<lambda>c. c = Kv_remove k) cs)"

lemma kv_counts_simps [simp]:
  "kv_puts k [] = []" "kv_removes k [] = 0"
  "kv_puts k (Kv_put k' v # cs) = (if k' = k then v # kv_puts k cs else kv_puts k cs)" "kv_puts k (Kv_remove k' # cs) = kv_puts k cs"
  "kv_removes k (Kv_put k' v # cs) = kv_removes k cs" "kv_removes k (Kv_remove k' # cs) = (if k' = k then Suc (kv_removes k cs) else kv_removes k cs)"
  by (auto simp: kv_puts_def kv_removes_def map_filter_simps)

locale kv_bag =
  fixes put :: "string \<Rightarrow> string \<Rightarrow> ('w, bool) io"
    and get :: "string \<Rightarrow> string \<Rightarrow> ('w, bool \<times> string) io"
    and remove :: "string \<Rightarrow> ('w, bool) io"
    and inv :: "'w \<Rightarrow> bool"
    and bag :: "'w \<Rightarrow> string \<Rightarrow> string multiset"
  assumes put_bag: "inv w \<Longrightarrow> put k v w = (Return True, w') \<Longrightarrow> inv w' \<and> bag w' = (bag w)(k := add_mset v (bag w k))"
    and get_bag: "inv w \<Longrightarrow> get k res w = (r, w') \<Longrightarrow>
      inv w' \<and> bag w' = bag w \<and> (r = Return (False, res) \<or> (\<exists>v. v \<in># bag w k \<and> r = Return (True, v)))"
    and remove_bag: "inv w \<Longrightarrow> remove k w = (Return True, w') \<Longrightarrow>
      inv w' \<and> (\<exists>v. v \<in># bag w k \<and> bag w' = (bag w)(k := bag w k - {#v#}))"
begin

lemma run_step:
  assumes "inv w" and "kv_succeed put remove (c # cs) w = Some w'"
  obtains (put) k v w1 where "c = Kv_put k v" "inv w1" "bag w1 = (bag w)(k := add_mset v (bag w k))" "kv_succeed put remove cs w1 = Some w'"
  | (remove) k v w1 where "c = Kv_remove k" "inv w1" "v \<in># bag w k" "bag w1 = (bag w)(k := bag w k - {#v#})" "kv_succeed put remove cs w1 = Some w'"
proof (cases c)
  case (Kv_put k v)
  with assms(2) obtain w1 where "put k v w = (Return True, w1)" "kv_succeed put remove cs w1 = Some w'"
    by (auto split: prod.splits outcome.splits bool.splits)
  with put_bag [OF assms(1), of k v w1] Kv_put that(1) show ?thesis by blast
next
  case (Kv_remove k)
  with assms(2) obtain w1 where "remove k w = (Return True, w1)" "kv_succeed put remove cs w1 = Some w'"
    by (auto split: prod.splits outcome.splits bool.splits)
  with remove_bag [OF assms(1), of k w1] Kv_remove that(2) show ?thesis by blast
qed

lemma run_inv: "inv w \<Longrightarrow> kv_succeed put remove cs w = Some w' \<Longrightarrow> inv w'"
proof (induction cs arbitrary: w)
  case (Cons c cs)
  from Cons.prems show ?case by (cases rule: run_step) (auto intro: Cons.IH)
qed simp

text \<open>What a key holds after a run: as many values as were put and not removed, all from the beginning or put.\<close>

lemma run_size:
  "inv w \<Longrightarrow> kv_succeed put remove cs w = Some w' \<Longrightarrow> size (bag w' k) + kv_removes k cs = size (bag w k) + length (kv_puts k cs)"
proof (induction cs arbitrary: w)
  case (Cons c cs)
  from Cons.prems show ?case
  proof (cases rule: run_step)
    case (put k' v w1)
    with Cons.IH [of w1] show ?thesis by auto
  next
    case (remove k' v w1)
    then have "0 < size (bag w k')" by (auto simp: nonempty_has_size [symmetric])
    with remove Cons.IH [of w1] show ?thesis by (auto simp: size_Diff_singleton)
  qed
qed simp

lemma run_bag: "inv w \<Longrightarrow> kv_succeed put remove cs w = Some w' \<Longrightarrow> bag w' k \<subseteq># bag w k + mset (kv_puts k cs)"
proof (induction cs arbitrary: w)
  case (Cons c cs)
  from Cons.prems show ?case
  proof (cases rule: run_step)
    case (put k' v w1)
    with Cons.IH [of w1] show ?thesis by (auto split: if_splits)
  next
    case (remove k' v w1)
    then have "bag w1 k + mset (kv_puts k cs) \<subseteq># bag w k + mset (kv_puts k cs)" by simp
    with remove Cons.IH [of w1] show ?thesis by (auto intro: subset_mset.order_trans)
  qed
qed simp

text \<open>A key every value of which was removed is not found, and what is found was put.\<close>

lemma run_get:
  assumes "inv w" and "bag w k = {#}" and "kv_succeed put remove cs w = Some w'" and "get k res w' = (r, w'')"
  shows "kv_removes k cs \<le> length (kv_puts k cs)"
    and "kv_removes k cs = length (kv_puts k cs) \<Longrightarrow> r = Return (False, res)"
    and "r = Return (False, res) \<or> (\<exists>v \<in> set (kv_puts k cs). r = Return (True, v))"
proof -
  note bag = run_size [OF assms(1,3), of k, unfolded assms(2)] run_bag [OF assms(1,3), of k, unfolded assms(2)]
  note get = get_bag [OF run_inv [OF assms(1,3)] assms(4)]
  show "kv_removes k cs \<le> length (kv_puts k cs)" using bag(1) by simp
  show "r = Return (False, res)" if "kv_removes k cs = length (kv_puts k cs)"
    using that bag(1) get by auto
  show "r = Return (False, res) \<or> (\<exists>v \<in> set (kv_puts k cs). r = Return (True, v))"
    using get mset_subset_eqD [OF bag(2)] by auto
qed

end

definition sq_inv :: "'w sql_ops \<Rightarrow> ('w \<Rightarrow> sql_db) \<Rightarrow> 'w \<Rightarrow> bool" where
  "sq_inv q db w \<longleftrightarrow> sql_spec q db \<and> ht_wf (db_tables (db w))"

interpretation sqkv: kv_bag "sq_kv_put q nadt clk" "sq_kv_get q" "sq_kv_remove q" "sq_inv q db"
  "\<lambda>w. kv_values (db_tables (db w))" for q nadt clk db
proof
  fix w k v w' assume "sq_inv q db w" and "sq_kv_put q nadt clk k v w = (Return True, w')"
  then show "sq_inv q db w' \<and> kv_values (db_tables (db w')) = (kv_values (db_tables (db w)))(k := add_mset v (kv_values (db_tables (db w)) k))"
    using kv_put_effect [of q db w nadt clk k v "Return True" w'] by (auto simp: sq_inv_def)
next
  fix w k res r w' assume "sq_inv q db w" and "sq_kv_get q k res w = (r, w')"
  then show "sq_inv q db w' \<and> kv_values (db_tables (db w')) = kv_values (db_tables (db w))
    \<and> (r = Return (False, res) \<or> (\<exists>v. v \<in># kv_values (db_tables (db w)) k \<and> r = Return (True, v)))"
    using kv_get_effect [of q db w k res r w'] by (simp add: sq_inv_def)
next
  fix w k w' assume "sq_inv q db w" and "sq_kv_remove q k w = (Return True, w')"
  then show "sq_inv q db w' \<and> (\<exists>v. v \<in># kv_values (db_tables (db w)) k
      \<and> kv_values (db_tables (db w')) = (kv_values (db_tables (db w)))(k := kv_values (db_tables (db w)) k - {#v#}))"
    using kv_remove_effect [of q db w k "Return True" w'] by (auto simp: sq_inv_def)
qed

text \<open>
  C24: Over any sequence of \<open>Sqlstore::kv_put\<close> and \<open>kv_remove\<close> calls that all answer true, on a database that
  behaves as documented and has nothing under a key, \<open>kv_get\<close> of that key answers a value put under it or
  false with the result untouched, and it answers false when the key was removed as often as it was put:
  a second \<open>put\<close> does not replace a value, and removing the key takes one of its values away.
\<close>

theorem sql_kv_history:
  assumes "sql_spec q db" and "ht_wf (db_tables (db w))" and "kv_values (db_tables (db w)) k = {#}"
    and "kv_succeed (sq_kv_put q nadt clk) (sq_kv_remove q) cs w = Some w'" and "sq_kv_get q k res w' = (r, w'')"
  shows "db w'' = db w'
    \<and> size (kv_values (db_tables (db w')) k) + kv_removes k cs = length (kv_puts k cs)
    \<and> (r = Return (False, res) \<or> (\<exists>v \<in> set (kv_puts k cs). r = Return (True, v)))
    \<and> (kv_removes k cs = length (kv_puts k cs) \<longrightarrow> r = Return (False, res))"
proof -
  from assms(1,2) have inv: "sq_inv q db w" by (simp add: sq_inv_def)
  from sqkv.run_inv [OF inv assms(4)] have "sq_inv q db w'" .
  then have "db w'' = db w'" using kv_get_effect(1) assms(5) by (auto simp: sq_inv_def)
  with sqkv.run_size [where k = k, OF inv assms(4)] sqkv.run_get [OF inv assms(3,4,5)] assms(3) show ?thesis by simp
qed

definition empty_mem :: mem_sql where
  "empty_mem = \<lparr>ms_tables = [], ms_tx = False\<rparr>"

theorem sql_kv_history_witness:
  "\<exists>w'. kv_succeed (sq_kv_put mem_ops 0 (\<lambda>_. Some 7)) (sq_kv_remove mem_ops) [Kv_put ''k'' ''a'', Kv_put ''k'' ''b'', Kv_remove ''k''] empty_mem = Some w'
    \<and> fst (sq_kv_get mem_ops ''k'' ''old'' w') = Return (True, ''a'')
    \<and> size (kv_values (db_tables (mem_db w')) ''k'') = 1"
proof -
  let ?cs = "[Kv_put ''k'' ''a'', Kv_put ''k'' ''b'', Kv_remove ''k'']"
  define w' where "w' = the (kv_succeed (sq_kv_put mem_ops 0 (\<lambda>_. Some 7)) (sq_kv_remove mem_ops) ?cs empty_mem)"
  have run: "kv_succeed (sq_kv_put mem_ops 0 (\<lambda>_. Some 7)) (sq_kv_remove mem_ops) ?cs empty_mem = Some w'"
    unfolding w'_def by code_simp
  have get: "fst (sq_kv_get mem_ops ''k'' ''old'' w') = Return (True, ''a'')"
    unfolding w'_def by code_simp
  have "db_tables (mem_db empty_mem) ''HT_'' = {}" by (simp add: empty_mem_def mem_rows_def)
  then have "ht_wf (db_tables (mem_db empty_mem))" "kv_values (db_tables (mem_db empty_mem)) ''k'' = {#}"
    by (simp_all add: ht_wf_def kv_values_def ht_rows_def)
  from sql_kv_history [OF mem_spec this run, of "''old''" "fst (sq_kv_get mem_ops ''k'' ''old'' w')" "snd (sq_kv_get mem_ops ''k'' ''old'' w')"]
  have "size (kv_values (db_tables (mem_db w')) ''k'') = 1" by simp
  with run get show ?thesis by blast
qed

end
