(* ===== verification/SqlObjects.thy ===== *)
theory SqlObjects
  imports SqlKv
begin

text \<open>
  Objects, snapshots and differences in the SQL storage plugin: what a stored or removed record changes, the
  invariant of the schema (\<open>obj_wf\<close>), loading what was stored, and what a failed call leaves behind.
\<close>

section \<open>A failed call leaves its transaction open\<close>

datatype sq_call = Store_obj sq_object | Store_snapshot sq_snapshot | Store_diff sq_diff | Remove string

fun sq_run :: "'w sql_ops \<Rightarrow> int \<Rightarrow> sq_call \<Rightarrow> ('w, bool) io" where
  "sq_run q nadt (Store_obj x) = sq_db_store_obj q nadt x"
| "sq_run q nadt (Store_snapshot s) = sq_db_store_snapshot q nadt s"
| "sq_run q nadt (Store_diff d) = sq_db_store_diff q nadt d"
| "sq_run q nadt (Remove i) = sq_db_remove q i"

fun sq_run_all :: "'w sql_ops \<Rightarrow> int \<Rightarrow> sq_call list \<Rightarrow> 'w \<Rightarrow> bool outcome list \<times> 'w" where
  "sq_run_all q nadt [] w = ([], w)"
| "sq_run_all q nadt (c # cs) w =
     (let (r, w1) = sq_run q nadt c w; (rs, w2) = sq_run_all q nadt cs w1 in (r # rs, w2))"

lemma begin_in_transaction:
  assumes "sql_spec q db" and "db_open_tx (db w)" and "succeeds (io_bind (sql_begin q) f) w = (r, w')"
  shows "r = Return False \<and> db w' = db w"
proof -
  obtain r0 w0 where b: "sql_begin q w = (r0, w0)" by fastforce
  with sql_begin_effect [OF assms(1) b] assms(2,3) show ?thesis
    by (auto simp: succeeds_def attempt_def io_simps)
qed

lemma run_in_transaction:
  assumes "sql_spec q db" and "db_open_tx (db w)" and "sq_run q nadt c w = (r, w')"
  shows "r = Return False \<and> db w' = db w"
  by (cases c; use assms(3) begin_in_transaction [OF assms(1,2)] in
    \<open>auto simp: sq_db_store_obj_def sq_db_store_snapshot_def sq_db_store_diff_def sq_db_remove_def\<close>)

lemma run_all_in_transaction:
  assumes "sql_spec q db" and "db_open_tx (db w)" and "sq_run_all q nadt cs w = (rs, w')"
  shows "rs = replicate (length cs) (Return False) \<and> db w' = db w"
  using assms(2,3)
proof (induction cs arbitrary: w rs w')
  case (Cons c cs)
  obtain r w1 where c: "sq_run q nadt c w = (r, w1)" by fastforce
  obtain rs1 w2 where cs: "sq_run_all q nadt cs w1 = (rs1, w2)" by fastforce
  from run_in_transaction [OF assms(1) Cons.prems(1) c] Cons.IH [OF _ cs] Cons.prems c cs show ?case by simp
qed simp

lemma no_objid_record:
  assumes "\<forall>x \<in> T ''ObjID_''. x ''anID_'' \<noteq> Some (SText i)"
  shows "joined T ObjID_getFieldTypes (Eq ObjID_AnID (SText i)) = {}"
  using assms by (subst joined_single [where t = "''ObjID_''"]) (auto simp: class_columns column_defs)

text \<open>
  C26: Removing an id the database does not have makes \<open>Sqlstore::db_remove\<close> answer false with its transaction
  still open (the handler does not roll back), and from then on every sequence of calls that store or
  remove objects, snapshots and differences answers false each time and changes nothing.
\<close>

theorem sql_failure_wedges:
  assumes "sql_spec q db" and "\<forall>x \<in> db_tables (db w) ''ObjID_''. x ''anID_'' \<noteq> Some (SText i)"
    and "sql_begin q w = (Return (), w0)" and "sq_db_remove q i w = (r, w1)" and "sq_run_all q nadt cs w1 = (rs, w2)"
  shows "r = Return False \<and> rs = replicate (length cs) (Return False) \<and> db w2 = (db w)\<lparr>db_open_tx := True\<rparr>"
proof -
  from sql_begin_effect [OF assms(1,3)] have w0: "db w0 = (db w)\<lparr>db_open_tx := True\<rparr>" by simp
  obtain r1 w1' where one: "sql_one q ObjID_getFieldTypes (Eq ObjID_AnID (SText i)) w0 = (r1, w1')" by fastforce
  note eff = sql_one_effect [OF assms(1) one]
  have "r1 = Throw Sql_except" using no_objid_record [where T = "db_tables (db w)", OF assms(2)] by (intro eff(3)) (simp add: w0)
  with one assms(3,4) have "w1 = w1'" and r: "r = Return False"
    by (auto simp: sq_db_remove_def succeeds_def attempt_def io_simps)
  with eff(1) w0 have w1: "db w1 = (db w)\<lparr>db_open_tx := True\<rparr>" by simp
  with run_all_in_transaction [OF assms(1) _ assms(5)] r show ?thesis by simp
qed

theorem sql_failure_wedges_witness:
  "fst (sq_db_remove mem_ops ''x'' empty_mem) = Return False
    \<and> fst (sq_run_all mem_ops 0 [Store_diff sq_diff_new, Remove ''x''] (snd (sq_db_remove mem_ops ''x'' empty_mem)))
      = [Return False, Return False]"
proof -
  have "\<forall>x \<in> db_tables (mem_db empty_mem) ''ObjID_''. x ''anID_'' \<noteq> Some (SText ''x'')"
    by (simp add: empty_mem_def mem_rows_def)
  moreover have "sql_begin mem_ops empty_mem = (Return (), empty_mem\<lparr>ms_tx := True\<rparr>)"
    by (simp add: mem_ops_def mem_begin_def empty_mem_def)
  ultimately show ?thesis
    using sql_failure_wedges [OF mem_spec, where w = empty_mem and i = "''x''" and nadt = 0
        and cs = "[Store_diff sq_diff_new, Remove ''x'']"] by (metis prod.collapse length_Cons list.size(3) replicate_Suc replicate_0)
qed

section \<open>Records and the invariant of the schema\<close>

definition obj_row :: "int \<Rightarrow> string \<Rightarrow> string \<Rightarrow> row" where
  "obj_row n ty a = [''id_'' \<mapsto> SInt n, ''type_'' \<mapsto> SText ty, ''anID_'' \<mapsto> SText a]"

lemma obj_row_columns [simp]:
  "obj_row n ty a ''id_'' = Some (SInt n)" "obj_row n ty a ''type_'' = Some (SText ty)" "obj_row n ty a ''anID_'' = Some (SText a)"
  by (simp_all add: obj_row_def)

lemma obj_row_inject [simp]: "obj_row n ty a = obj_row n' ty' a' \<longleftrightarrow> n = n' \<and> ty = ty' \<and> a = a'"
  by (metis obj_row_columns option.inject sql_value.inject)

definition typed :: "tables \<Rightarrow> int \<Rightarrow> string \<Rightarrow> bool" where
  "typed T n ty \<longleftrightarrow> (\<exists>a. obj_row n ty a \<in> T ''ObjID_'')"

definition class_tables :: "(string \<times> string) list" where
  "class_tables = [(''Object_'', ''Object''), (''Snapshot_'', ''Snapshot''), (''Diff_'', ''Diff'')]"

text \<open>The columns of relations that refer to records of a class. The second column of \<open>Diff_ObjID_\<close> is not among them.\<close>

definition references :: "(string \<times> string \<times> string) list" where
  "references = [(''Object_Snapshot_'', ''Object1_'', ''Object''), (''Object_Snapshot_'', ''Snapshot2_'', ''Snapshot''),
     (''Diff_Object_'', ''Diff1_'', ''Diff''), (''Diff_Object_'', ''Object2_'', ''Object''),
     (''Diff_Snapshot_'', ''Diff1_'', ''Diff''), (''Diff_Snapshot_'', ''Snapshot2_'', ''Snapshot''),
     (''Diff_ObjID_'', ''Diff1_'', ''Diff'')]"

text \<open>
  Ids are positive and unique, the table of a class has one record for each \<open>ObjID_\<close> record of its type, and
  relations refer to records or to the id 0.
\<close>

definition ids_wf :: "tables \<Rightarrow> bool" where
  "ids_wf T \<longleftrightarrow> (\<forall>r \<in> T ''ObjID_''. \<exists>n ty a. r = obj_row n ty a \<and> 0 < n \<and> (ty = ''ObjID'' \<or> ty \<in> snd ` set class_tables))
     \<and> inj_on (\<lambda>r. r ''id_'') (T ''ObjID_'')"

definition class_wf :: "tables \<Rightarrow> string \<times> string \<Rightarrow> bool" where
  "class_wf T = (\<lambda>(t, ty). (\<lambda>r. r ''id_'') ` T t = (\<lambda>n. Some (SInt n)) ` {n. typed T n ty} \<and> inj_on (\<lambda>r. r ''id_'') (T t))"

definition ref_wf :: "tables \<Rightarrow> string \<times> string \<times> string \<Rightarrow> bool" where
  "ref_wf T = (\<lambda>(t, c, ty). \<forall>r \<in> T t. \<exists>n. r c = Some (SInt n) \<and> (n = 0 \<or> typed T n ty))"

definition obj_wf :: "tables \<Rightarrow> bool" where
  "obj_wf T \<longleftrightarrow> ids_wf T \<and> (\<forall>c \<in> set class_tables. class_wf T c) \<and> (\<forall>c \<in> set references. ref_wf T c)"

lemma typed_unique:
  assumes "ids_wf T" and "typed T n ty" and "obj_row n ty' a \<in> T ''ObjID_''"
  shows "ty' = ty"
  using assms unfolding ids_wf_def typed_def inj_on_def by (metis obj_row_columns(1) obj_row_inject)

text \<open>How the three parts carry over to other tables.\<close>

lemma typed_upd [simp]: "t \<noteq> ''ObjID_'' \<Longrightarrow> typed (T(t := X)) = typed T"
  by (auto simp: typed_def fun_eq_iff)

lemma ids_wf_upd [simp]: "t \<noteq> ''ObjID_'' \<Longrightarrow> ids_wf (T(t := X)) = ids_wf T"
  by (simp add: ids_wf_def)

lemma obj_wfD:
  assumes "obj_wf T"
  shows "ids_wf T" and "(t, ty) \<in> set class_tables \<Longrightarrow> class_wf T (t, ty)" and "(t, c, ty) \<in> set references \<Longrightarrow> ref_wf T (t, c, ty)"
  using assms unfolding obj_wf_def by blast+

lemma obj_wfI:
  assumes "ids_wf T" and "\<And>t ty. (t, ty) \<in> set class_tables \<Longrightarrow> class_wf T (t, ty)"
    and "\<And>t c ty. (t, c, ty) \<in> set references \<Longrightarrow> ref_wf T (t, c, ty)"
  shows "obj_wf T"
  using assms unfolding obj_wf_def by auto

lemma class_wf_cong:
  assumes "class_wf T (t, ty)" and "T' t = T t" and "\<And>n. typed T' n ty = typed T n ty"
  shows "class_wf T' (t, ty)"
  using assms by (simp add: class_wf_def)

lemma ref_wf_mono:
  assumes "ref_wf T (t, c, ty)" and "\<And>r. r \<in> T' t \<Longrightarrow> r \<in> T t \<or> (\<exists>n. r c = Some (SInt n) \<and> (n = 0 \<or> typed T' n ty))"
    and "\<And>r n. r \<in> T' t \<Longrightarrow> r c = Some (SInt n) \<Longrightarrow> typed T n ty \<Longrightarrow> typed T' n ty"
  shows "ref_wf T' (t, c, ty)"
  using assms unfolding ref_wf_def by fast

lemma class_table_names: "(t, ty) \<in> set class_tables \<Longrightarrow> t \<noteq> ''ObjID_'' \<and> t \<notin> fst ` set references \<and> ty \<noteq> ''ObjID''"
  by (auto simp: class_tables_def references_def)

lemma class_table_unique: "(t, ty) \<in> set class_tables \<Longrightarrow> (t, ty') \<in> set class_tables \<Longrightarrow> ty = ty'"
  by (auto simp: class_tables_def)

lemma reference_names: "(t, c, ty) \<in> set references \<Longrightarrow> t \<noteq> ''ObjID_'' \<and> t \<notin> fst ` set class_tables \<and> ty \<noteq> ''ObjID''"
  by (auto simp: class_tables_def references_def)

lemma obj_wf_link:
  assumes "obj_wf T" and "t \<notin> {''ObjID_'', ''Object_'', ''Snapshot_'', ''Diff_''}"
    and "\<And>c ty. (t, c, ty) \<in> set references \<Longrightarrow> \<exists>n. x c = Some (SInt n) \<and> (n = 0 \<or> typed T n ty)"
  shows "obj_wf (T(t := insert x (T t)))"
proof (rule obj_wfI)
  show "ids_wf (T(t := insert x (T t)))" using assms(1,2) by (simp add: obj_wf_def)
  show "class_wf (T(t := insert x (T t))) (t', ty)" if "(t', ty) \<in> set class_tables" for t' ty
    using obj_wfD(2) [OF assms(1) that] by (rule class_wf_cong) (use assms(2) that in \<open>auto simp: class_tables_def\<close>)
  show "ref_wf (T(t := insert x (T t))) (t', c, ty)" if "(t', c, ty) \<in> set references" for t' c ty
    using obj_wfD(3) [OF assms(1) that] by (rule ref_wf_mono) (use assms(2,3) that in \<open>auto split: if_splits\<close>)
qed

text \<open>A new record: an \<open>ObjID_\<close> record under a fresh id and, unless it is a bare id, one in the table of its class.\<close>

definition add_obj :: "int \<Rightarrow> string \<Rightarrow> string \<Rightarrow> tables \<Rightarrow> tables" where
  "add_obj n ty a T = T(''ObjID_'' := insert (obj_row n ty a) (T ''ObjID_''))"

definition fresh_id :: "tables \<Rightarrow> int \<Rightarrow> bool" where
  "fresh_id T n \<longleftrightarrow> 0 < n \<and> (\<forall>r \<in> T ''ObjID_''. r ''id_'' \<noteq> Some (SInt n))"

lemma add_obj_other [simp]: "t \<noteq> ''ObjID_'' \<Longrightarrow> add_obj n ty a T t = T t"
  by (simp add: add_obj_def)

lemma add_obj_row [simp]:
  "obj_row m ty' b \<in> add_obj n ty a T ''ObjID_'' \<longleftrightarrow> m = n \<and> ty' = ty \<and> b = a \<or> obj_row m ty' b \<in> T ''ObjID_''"
  by (auto simp: add_obj_def)

lemma typed_add [simp]: "typed (add_obj n ty a T) m ty' \<longleftrightarrow> typed T m ty' \<or> m = n \<and> ty' = ty"
  by (auto simp: typed_def add_obj_def)

lemma fresh_not_typed: "fresh_id T n \<Longrightarrow> \<not> typed T n ty"
  by (auto simp: fresh_id_def typed_def)

lemma ids_wf_add:
  assumes "ids_wf T" and "fresh_id T n" and "ty = ''ObjID'' \<or> ty \<in> snd ` set class_tables"
  shows "ids_wf (add_obj n ty a T)"
proof -
  have "inj_on (\<lambda>r. r ''id_'') (insert (obj_row n ty a) (T ''ObjID_''))"
    using assms(1,2) unfolding ids_wf_def fresh_id_def by (subst inj_on_insert) (auto simp: image_iff)
  with assms show ?thesis unfolding ids_wf_def fresh_id_def add_obj_def by auto
qed

lemma obj_wf_add_id:
  assumes "obj_wf T" and "fresh_id T n"
  shows "obj_wf (add_obj n ''ObjID'' a T)"
proof (rule obj_wfI)
  show "ids_wf (add_obj n ''ObjID'' a T)" using assms by (intro ids_wf_add) (auto simp: obj_wf_def)
  show "class_wf (add_obj n ''ObjID'' a T) (t, ty)" if "(t, ty) \<in> set class_tables" for t ty
    using obj_wfD(2) [OF assms(1) that] by (rule class_wf_cong) (use class_table_names [OF that] in simp_all)
  show "ref_wf (add_obj n ''ObjID'' a T) (t, c, ty)" if "(t, c, ty) \<in> set references" for t c ty
    using obj_wfD(3) [OF assms(1) that] by (rule ref_wf_mono) (use reference_names [OF that] in simp_all)
qed

lemma obj_wf_add:
  assumes "obj_wf T" and "fresh_id T n" and "(t, ty) \<in> set class_tables" and "x ''id_'' = Some (SInt n)"
  shows "obj_wf ((add_obj n ty a T)(t := insert x (T t)))" (is "obj_wf ?T")
proof (rule obj_wfI)
  note t = class_table_names [OF assms(3)]
  show "ids_wf ?T" using assms(1-3) t by (simp add: obj_wf_def) (force intro: ids_wf_add)
  show "class_wf ?T (t', ty')" if c: "(t', ty') \<in> set class_tables" for t' ty'
  proof (cases "t' = t")
    case True
    then have "ty' = ty" using assms(3) c by (auto simp: class_tables_def)
    have cw: "class_wf T (t, ty)" using assms(1,3) by (auto simp: obj_wf_def)
    then have "Some (SInt n) \<notin> (\<lambda>r. r ''id_'') ` T t" using fresh_not_typed [OF assms(2)] by (auto simp: class_wf_def)
    then have "inj_on (\<lambda>r. r ''id_'') (insert x (T t))"
      using cw assms(4) by (subst inj_on_insert) (auto simp: class_wf_def image_iff)
    with cw t True \<open>ty' = ty\<close> assms(4) show ?thesis by (auto simp: class_wf_def)
  next
    case False
    then have "ty' \<noteq> ty" using assms(3) c by (auto simp: class_tables_def)
    from obj_wfD(2) [OF assms(1) c] show ?thesis
      by (rule class_wf_cong) (use False \<open>ty' \<noteq> ty\<close> t class_table_names [OF c] in simp_all)
  qed
  show "ref_wf ?T (t', c, ty')" if c: "(t', c, ty') \<in> set references" for t' c ty'
  proof -
    from t c have "t \<noteq> t'" by force
    then have same: "?T t' = T t'" using reference_names [OF c] by simp
    from obj_wfD(3) [OF assms(1) c] show ?thesis
    proof (rule ref_wf_mono)
      show "typed ?T m ty'" if "typed T m ty'" for m using that t by simp
    qed (use same in blast)
  qed
qed

text \<open>A removed record: with it goes what the table of its class and the relations of its class have of it.\<close>

definition del_obj :: "int \<Rightarrow> string \<Rightarrow> tables \<Rightarrow> tables" where
  "del_obj n ty T = (\<lambda>t. if t = ''ObjID_'' \<or> (t, ty) \<in> set class_tables then {x \<in> T t. x ''id_'' \<noteq> Some (SInt n)}
     else {x \<in> T t. \<forall>c. (t, c, ty) \<in> set references \<longrightarrow> x c \<noteq> Some (SInt n)})"

lemma del_obj_subset: "del_obj n ty T t \<subseteq> T t"
  by (auto simp: del_obj_def)

lemma typed_del:
  assumes "ids_wf T"
  shows "typed (del_obj n ty T) m ty' \<longleftrightarrow> typed T m ty' \<and> m \<noteq> n"
  using assms by (auto simp: typed_def del_obj_def)

lemma obj_wf_del:
  assumes "obj_wf T" and "typed T n ty"
  shows "obj_wf (del_obj n ty T)"
proof (rule obj_wfI)
  note typed = typed_del [OF obj_wfD(1) [OF assms(1)]]
  have "T ''ObjID_'' \<supseteq> del_obj n ty T ''ObjID_''" by (rule del_obj_subset)
  with obj_wfD(1) [OF assms(1)] show "ids_wf (del_obj n ty T)" unfolding ids_wf_def by (blast intro: inj_on_subset)
  show "class_wf (del_obj n ty T) (t, ty')" if c: "(t, ty') \<in> set class_tables" for t ty'
  proof (cases "ty' = ty")
    case True
    with c have t: "del_obj n ty T t = {x \<in> T t. x ''id_'' \<noteq> Some (SInt n)}" by (simp add: del_obj_def)
    have "(\<lambda>r. r ''id_'') ` {x \<in> T t. x ''id_'' \<noteq> Some (SInt n)} = (\<lambda>r. r ''id_'') ` T t - {Some (SInt n)}" by auto
    also have "\<dots> = (\<lambda>m. Some (SInt m)) ` {m. typed T m ty \<and> m \<noteq> n}"
      using obj_wfD(2) [OF assms(1) c] True by (auto simp: class_wf_def)
    finally show ?thesis
      using obj_wfD(2) [OF assms(1) c] True by (auto simp: class_wf_def typed t intro: inj_on_subset)
  next
    case False
    have "(t, c', ty) \<notin> set references" for c' using class_table_names [OF c] by force
    with False class_table_unique [OF c] class_table_names [OF c] have "del_obj n ty T t = T t" by (auto simp: del_obj_def)
    moreover have "\<not> typed T n ty'" using assms(2) False typed_unique [OF obj_wfD(1) [OF assms(1)] assms(2)] by (auto simp: typed_def [of T n ty'])
    ultimately show ?thesis using obj_wfD(2) [OF assms(1) c] by (elim class_wf_cong) (auto simp: typed)
  qed
  show "ref_wf (del_obj n ty T) (t, c, ty')" if c: "(t, c, ty') \<in> set references" for t c ty'
    using obj_wfD(3) [OF assms(1) c]
  proof (rule ref_wf_mono)
    fix r m assume r: "r \<in> del_obj n ty T t" "r c = Some (SInt m)" "typed T m ty'"
    have "m \<noteq> n"
    proof
      assume "m = n"
      then have "ty' = ty" using r(3) typed_unique [OF obj_wfD(1) [OF assms(1)] assms(2)] by (auto simp: typed_def [of T _ ty'])
      moreover have "(t, ty) \<notin> set class_tables" using reference_names [OF c] by force
      ultimately show False using r(1,2) c \<open>m = n\<close> reference_names [OF c] by (auto simp: del_obj_def)
    qed
    with r(3) show "typed (del_obj n ty T) m ty'" by (simp add: typed)
  qed (use del_obj_subset in blast)
qed

text \<open>A record that is stored again under its id and type.\<close>

definition update_obj :: "updates \<Rightarrow> int \<Rightarrow> tables \<Rightarrow> tables" where
  "update_obj u n T = (\<lambda>t. case map_of u t of None \<Rightarrow> T t | Some fs \<Rightarrow> update_row n fs ` T t)"

definition keeps_ids :: "int \<Rightarrow> string \<Rightarrow> updates \<Rightarrow> bool" where
  "keeps_ids n ty u \<longleftrightarrow> (\<forall>t fs. (t, fs) \<in> set u \<longrightarrow> t \<notin> fst ` set references
     \<and> (\<forall>c v. (c, v) \<in> set fs \<longrightarrow> (c = ''id_'' \<longrightarrow> v = SInt n) \<and> (t = ''ObjID_'' \<longrightarrow> c = ''id_'' \<or> c = ''type_'' \<and> v = SText ty \<or> c = ''anID_'' \<and> (\<exists>a. v = SText a))))"

lemma update_row_id:
  assumes "\<And>v. (''id_'', v) \<in> set fs \<Longrightarrow> v = SInt n"
  shows "update_row n fs r ''id_'' = r ''id_''"
  using assms by (auto simp: update_row_def map_add_def split: option.splits dest!: map_of_SomeD)

lemma update_obj_row:
  assumes "\<And>c v. (c, v) \<in> set fs \<Longrightarrow> c = ''id_'' \<and> v = SInt n \<or> c = ''type_'' \<and> v = SText ty \<or> c = ''anID_'' \<and> (\<exists>a. v = SText a)"
  shows "\<exists>a'. update_row n fs (obj_row n ty a) = obj_row n ty a'"
proof -
  let ?a = "case map_of (rev fs) ''anID_'' of Some v \<Rightarrow> as_text v | None \<Rightarrow> a"
  have "(obj_row n ty a ++ map_of (rev fs)) c = obj_row n ty ?a c" for c
  proof (cases "map_of (rev fs) c")
    case None
    then show ?thesis by (auto simp: map_add_def obj_row_def)
  next
    case (Some v)
    then have "(c, v) \<in> set fs" by (auto dest: map_of_SomeD)
    from assms [OF this] Some show ?thesis by (auto simp: map_add_def)
  qed
  then have "update_row n fs (obj_row n ty a) = obj_row n ty ?a" by (simp add: update_row_def fun_eq_iff)
  then show ?thesis ..
qed

lemma update_other_row: "r ''id_'' \<noteq> Some (SInt n) \<Longrightarrow> update_row n fs r = r"
  by (simp add: update_row_def)

lemma inj_on_update_row:
  assumes "\<And>v. (''id_'', v) \<in> set fs \<Longrightarrow> v = SInt n"
  shows "(\<lambda>r. r ''id_'') ` update_row n fs ` A = (\<lambda>r. r ''id_'') ` A"
    and "inj_on (\<lambda>r. r ''id_'') A \<Longrightarrow> inj_on (\<lambda>r. r ''id_'') (update_row n fs ` A)"
  using update_row_id [OF assms] by (auto simp: image_image inj_on_def)

lemma obj_wf_update:
  assumes "obj_wf T" and "typed T n ty" and "keeps_ids n ty u"
  shows "obj_wf (update_obj u n T)" and "typed (update_obj u n T) = typed T"
proof -
  have cols: "t \<notin> fst ` set references" "\<And>v. (''id_'', v) \<in> set fs \<Longrightarrow> v = SInt n"
    "\<And>c v. t = ''ObjID_'' \<Longrightarrow> (c, v) \<in> set fs \<Longrightarrow> c = ''id_'' \<and> v = SInt n \<or> c = ''type_'' \<and> v = SText ty \<or> c = ''anID_'' \<and> (\<exists>a. v = SText a)"
    if "map_of u t = Some fs" for t fs
  proof -
    note k = assms(3) [unfolded keeps_ids_def, rule_format, OF map_of_SomeD [OF that]]
    from k show "t \<notin> fst ` set references" ..
    show "v = SInt n" if "(''id_'', v) \<in> set fs" for v using k that by blast
    show "c = ''id_'' \<and> v = SInt n \<or> c = ''type_'' \<and> v = SText ty \<or> c = ''anID_'' \<and> (\<exists>a. v = SText a)"
      if "t = ''ObjID_''" "(c, v) \<in> set fs" for c v using k that by blast
  qed
  note ids = obj_wfD(1) [OF assms(1)]
  have row: "\<exists>a'. update_row n fs (obj_row m ty' a) = obj_row m ty' a'"
    if "map_of u ''ObjID_'' = Some fs" "obj_row m ty' a \<in> T ''ObjID_''" for fs m ty' a
  proof (cases "m = n")
    case True
    then have "ty' = ty" using typed_unique [OF ids assms(2)] that(2) by simp
    with update_obj_row [of fs n ty a] cols(3) [OF that(1)] True show ?thesis by blast
  qed (simp add: update_other_row)
  show typed: "typed (update_obj u n T) = typed T"
  proof (cases "map_of u ''ObjID_''")
    case (Some fs)
    have "typed (update_obj u n T) m ty' \<longleftrightarrow> typed T m ty'" for m ty'
    proof
      assume "typed (update_obj u n T) m ty'"
      then obtain a r where r: "r \<in> T ''ObjID_''" "obj_row m ty' a = update_row n fs r" by (auto simp: typed_def update_obj_def Some)
      with ids obtain m0 ty0 a0 where "r = obj_row m0 ty0 a0" unfolding ids_wf_def by blast
      with r row [OF Some] show "typed T m ty'" unfolding typed_def by (metis obj_row_inject)
    next
      assume "typed T m ty'"
      then obtain a where a: "obj_row m ty' a \<in> T ''ObjID_''" by (auto simp: typed_def)
      from row [OF Some this] obtain a' where "update_row n fs (obj_row m ty' a) = obj_row m ty' a'" by blast
      with a show "typed (update_obj u n T) m ty'" unfolding typed_def update_obj_def Some by (metis image_eqI option.simps(5))
    qed
    then show ?thesis by (simp add: fun_eq_iff)
  qed (simp add: typed_def fun_eq_iff update_obj_def)
  have same: "(\<lambda>r. r ''id_'') ` update_obj u n T t = (\<lambda>r. r ''id_'') ` T t"
    "inj_on (\<lambda>r. r ''id_'') (T t) \<Longrightarrow> inj_on (\<lambda>r. r ''id_'') (update_obj u n T t)" for t
    by (cases "map_of u t"; simp add: update_obj_def inj_on_update_row cols(2))+
  show "obj_wf (update_obj u n T)"
  proof (rule obj_wfI)
    have "\<exists>m ty' a'. r = obj_row m ty' a' \<and> 0 < m \<and> (ty' = ''ObjID'' \<or> ty' \<in> snd ` set class_tables)"
      if r: "r \<in> update_obj u n T ''ObjID_''" for r
    proof (cases "map_of u ''ObjID_''")
      case (Some fs)
      with r obtain r0 where "r0 \<in> T ''ObjID_''" "r = update_row n fs r0" by (auto simp: update_obj_def)
      with ids row [OF Some] show ?thesis unfolding ids_wf_def by metis
    qed (use r ids in \<open>auto simp: update_obj_def ids_wf_def\<close>)
    with ids same(2) show "ids_wf (update_obj u n T)" unfolding ids_wf_def by blast
    show "class_wf (update_obj u n T) (t, ty')" if "(t, ty') \<in> set class_tables" for t ty'
      using obj_wfD(2) [OF assms(1) that] same [of t] by (simp add: class_wf_def typed)
    show "ref_wf (update_obj u n T) (t, c, ty')" if "(t, c, ty') \<in> set references" for t c ty'
    proof -
      have "map_of u t = None" using that cols(1) [of t] by (cases "map_of u t") force+
      then have "update_obj u n T t = T t" by (simp add: update_obj_def)
      with obj_wfD(3) [OF assms(1) that] show ?thesis by (simp add: ref_wf_def typed)
    qed
  qed
qed

section \<open>What the operations of the classes do\<close>

text \<open>The columns of a class's own table, from the object.\<close>

definition snap_row :: "int \<Rightarrow> string \<Rightarrow> string \<Rightarrow> int \<Rightarrow> row" where
  "snap_row n b c t = [''id_'' \<mapsto> SInt n, ''based_'' \<mapsto> SText b, ''content_'' \<mapsto> SText c, ''time_'' \<mapsto> STime t]"

definition diff_row :: "int \<Rightarrow> string \<Rightarrow> string \<Rightarrow> int \<Rightarrow> row" where
  "diff_row n s c t = [''id_'' \<mapsto> SInt n, ''snapshot_'' \<mapsto> SText s, ''content_'' \<mapsto> SText c, ''time_'' \<mapsto> STime t]"

lemma class_rows [simp]:
  "snap_row n b c t ''id_'' = Some (SInt n)" "snap_row n b c t ''based_'' = Some (SText b)"
  "snap_row n b c t ''content_'' = Some (SText c)" "snap_row n b c t ''time_'' = Some (STime t)"
  "diff_row n b c t ''id_'' = Some (SInt n)" "diff_row n b c t ''snapshot_'' = Some (SText b)"
  "diff_row n b c t ''content_'' = Some (SText c)" "diff_row n b c t ''time_'' = Some (STime t)"
  by (simp_all add: snap_row_def diff_row_def)

lemma new_rows_double:
  "t1 \<noteq> t2 \<Longrightarrow> new_rows n [t1, t2] [f1, f2] [v1, v2] T
     = T(t1 := insert (map_of (zip f1 (SInt n # tl v1))) (T t1), t2 := insert (map_of (zip f2 (SInt n # tl v2))) (T t2))"
  by (auto simp: new_rows_def fun_eq_iff)

lemmas row_maps = obj_row_def snap_row_def diff_row_def

text \<open>An object that was not loaded and has no id.\<close>

definition unsaved :: "'a db_ObjID_scheme \<Rightarrow> bool" where
  "unsaved x \<longleftrightarrow> \<not> inDatabase x \<and> fld (oi_id x) = 0"

lemma ObjID_update_new:
  assumes "sql_spec q db" and "unsaved x" and "ObjID_update q x w = (Return y, w')"
  obtains n where "fresh_id (db_tables (db w)) n" and "fld (oi_id y) = n"
    and "db w' = (db w)\<lparr>db_tables := add_obj n ''ObjID'' (fld (oi_anID x)) (db_tables (db w))\<rparr>"
proof -
  from assms(2,3) obtain n where ins: "sql_group_insert q [''ObjID_''] [[''id_'', ''type_'', ''anID_'']]
      [[SInt 0, SText ''ObjID'', SText (fld (oi_anID x))]] ''ObjID_seq'' w = (Return n, w')" and y: "fld (oi_id y) = n"
    by (auto simp: unsaved_def ObjID_update_def ObjID_create_def ObjID_insert_def assigned_def unmodified_def elim!: io_bind_returnE split: if_splits)
  note eff = sql_group_insert_effect [OF assms(1) ins, simplified]
  have "[''anID_'' \<mapsto> SText (fld (oi_anID x)), ''type_'' \<mapsto> SText ''ObjID'', ''id_'' \<mapsto> SInt n] = obj_row n ''ObjID'' (fld (oi_anID x))"
    by (auto simp: row_maps fun_eq_iff)
  with eff(3) have "db w' = (db w)\<lparr>db_tables := add_obj n ''ObjID'' (fld (oi_anID x)) (db_tables (db w))\<rparr>"
    by (simp add: new_rows_single add_obj_def)
  moreover have "fresh_id (db_tables (db w)) n" using eff(1,2) unfolding fresh_id_def by blast
  ultimately show thesis using that y by blast
qed

lemma Object_update_new:
  assumes "sql_spec q db" and "unsaved x" and "Object_update q x w = (Return y, w')"
  obtains n where "fresh_id (db_tables (db w)) n"
    and "y = x\<lparr>oi_id := assigned n, oi_type := unmodified (assigned ''Object''), oi_anID := unmodified (oi_anID x), inDatabase := True, oldKey := n\<rparr>"
    and "db w' = (db w)\<lparr>db_tables := (add_obj n ''Object'' (fld (oi_anID x)) (db_tables (db w)))
      (''Object_'' := insert [''id_'' \<mapsto> SInt n] (db_tables (db w) ''Object_''))\<rparr>"
proof -
  from assms(2,3) obtain n where ins: "sql_group_insert q [''Object_'', ''ObjID_''] [[''id_''], [''id_'', ''type_'', ''anID_'']]
      [[SInt 0], [SInt 0, SText ''Object'', SText (fld (oi_anID x))]] ''ObjID_seq'' w = (Return n, w')"
    and y: "y = x\<lparr>oi_id := assigned n, oi_type := unmodified (assigned ''Object''), oi_anID := unmodified (oi_anID x), inDatabase := True, oldKey := n\<rparr>"
    by (auto simp: unsaved_def Object_update_def Object_create_def Object_insert_def ObjID_insert_def assigned_def unmodified_def
        elim!: io_bind_returnE split: if_splits)
  note eff = sql_group_insert_effect [OF assms(1) ins, simplified]
  have "[''anID_'' \<mapsto> SText (fld (oi_anID x)), ''type_'' \<mapsto> SText ''Object'', ''id_'' \<mapsto> SInt n] = obj_row n ''Object'' (fld (oi_anID x))"
    by (auto simp: row_maps fun_eq_iff)
  with eff(3) have "db w' = (db w)\<lparr>db_tables := (add_obj n ''Object'' (fld (oi_anID x)) (db_tables (db w)))
      (''Object_'' := insert [''id_'' \<mapsto> SInt n] (db_tables (db w) ''Object_''))\<rparr>"
    by (simp add: new_rows_double add_obj_def fun_upd_twist)
  moreover have "fresh_id (db_tables (db w)) n" using eff(1,2) unfolding fresh_id_def by blast
  ultimately show thesis using that y by blast
qed

lemma Snapshot_update_new:
  assumes "sql_spec q db" and "unsaved x" and "Snapshot_update q x w = (Return y, w')"
  obtains n where "fresh_id (db_tables (db w)) n" and "fld (oi_id y) = n"
    and "db w' = (db w)\<lparr>db_tables := (add_obj n ''Snapshot'' (fld (oi_anID x)) (db_tables (db w)))
      (''Snapshot_'' := insert (snap_row n (fld (sn_based x)) (fld (sn_content x)) (fld (sn_time x))) (db_tables (db w) ''Snapshot_''))\<rparr>"
proof -
  from assms(2,3) obtain n where ins: "sql_group_insert q [''Snapshot_'', ''ObjID_'']
      [[''id_'', ''based_'', ''content_'', ''time_''], [''id_'', ''type_'', ''anID_'']]
      [[SInt 0, SText (fld (sn_based x)), SText (fld (sn_content x)), STime (fld (sn_time x))],
       [SInt 0, SText ''Snapshot'', SText (fld (oi_anID x))]] ''ObjID_seq'' w = (Return n, w')" and y: "fld (oi_id y) = n"
    by (auto simp: unsaved_def Snapshot_update_def Snapshot_create_def Snapshot_insert_def ObjID_insert_def assigned_def unmodified_def
        elim!: io_bind_returnE split: if_splits)
  note eff = sql_group_insert_effect [OF assms(1) ins, simplified]
  have "[''anID_'' \<mapsto> SText (fld (oi_anID x)), ''type_'' \<mapsto> SText ''Snapshot'', ''id_'' \<mapsto> SInt n] = obj_row n ''Snapshot'' (fld (oi_anID x))"
    "[''time_'' \<mapsto> STime (fld (sn_time x)), ''content_'' \<mapsto> SText (fld (sn_content x)), ''based_'' \<mapsto> SText (fld (sn_based x)), ''id_'' \<mapsto> SInt n]
     = snap_row n (fld (sn_based x)) (fld (sn_content x)) (fld (sn_time x))"
    by (auto simp: row_maps fun_eq_iff)
  with eff(3) have "db w' = (db w)\<lparr>db_tables := (add_obj n ''Snapshot'' (fld (oi_anID x)) (db_tables (db w)))
      (''Snapshot_'' := insert (snap_row n (fld (sn_based x)) (fld (sn_content x)) (fld (sn_time x))) (db_tables (db w) ''Snapshot_''))\<rparr>"
    by (simp add: new_rows_double add_obj_def fun_upd_twist)
  moreover have "fresh_id (db_tables (db w)) n" using eff(1,2) unfolding fresh_id_def by blast
  ultimately show thesis using that y by blast
qed

lemma Diff_update_new:
  assumes "sql_spec q db" and "unsaved x" and "Diff_update q x w = (Return y, w')"
  obtains n where "fresh_id (db_tables (db w)) n" and "fld (oi_id y) = n"
    and "db w' = (db w)\<lparr>db_tables := (add_obj n ''Diff'' (fld (oi_anID x)) (db_tables (db w)))
      (''Diff_'' := insert (diff_row n (fld (df_snapshot x)) (fld (df_content x)) (fld (df_time x))) (db_tables (db w) ''Diff_''))\<rparr>"
proof -
  from assms(2,3) obtain n where ins: "sql_group_insert q [''Diff_'', ''ObjID_'']
      [[''id_'', ''snapshot_'', ''content_'', ''time_''], [''id_'', ''type_'', ''anID_'']]
      [[SInt 0, SText (fld (df_snapshot x)), SText (fld (df_content x)), STime (fld (df_time x))],
       [SInt 0, SText ''Diff'', SText (fld (oi_anID x))]] ''ObjID_seq'' w = (Return n, w')" and y: "fld (oi_id y) = n"
    by (auto simp: unsaved_def Diff_update_def Diff_create_def Diff_insert_def ObjID_insert_def assigned_def unmodified_def
        elim!: io_bind_returnE split: if_splits)
  note eff = sql_group_insert_effect [OF assms(1) ins, simplified]
  have "[''anID_'' \<mapsto> SText (fld (oi_anID x)), ''type_'' \<mapsto> SText ''Diff'', ''id_'' \<mapsto> SInt n] = obj_row n ''Diff'' (fld (oi_anID x))"
    "[''time_'' \<mapsto> STime (fld (df_time x)), ''content_'' \<mapsto> SText (fld (df_content x)), ''snapshot_'' \<mapsto> SText (fld (df_snapshot x)), ''id_'' \<mapsto> SInt n]
     = diff_row n (fld (df_snapshot x)) (fld (df_content x)) (fld (df_time x))"
    by (auto simp: row_maps fun_eq_iff)
  with eff(3) have "db w' = (db w)\<lparr>db_tables := (add_obj n ''Diff'' (fld (oi_anID x)) (db_tables (db w)))
      (''Diff_'' := insert (diff_row n (fld (df_snapshot x)) (fld (df_content x)) (fld (df_time x))) (db_tables (db w) ''Diff_''))\<rparr>"
    by (simp add: new_rows_double add_obj_def fun_upd_twist)
  moreover have "fresh_id (db_tables (db w)) n" using eff(1,2) unfolding fresh_id_def by blast
  ultimately show thesis using that y by blast
qed

section \<open>Storing keeps the invariant\<close>

text \<open>Storing changes \<open>ObjID_\<close> records and class tables of the types \<open>K\<close> only; no record loses its id or type.\<close>

definition stored :: "string set \<Rightarrow> tables \<Rightarrow> tables \<Rightarrow> bool" where
  "stored K T T' \<longleftrightarrow> obj_wf T' \<and> (\<forall>n ty. typed T n ty \<longrightarrow> typed T' n ty) \<and> T' ''HT_'' = T ''HT_''
     \<and> (\<forall>n ty a. ty \<notin> K \<longrightarrow> (obj_row n ty a \<in> T' ''ObjID_'' \<longleftrightarrow> obj_row n ty a \<in> T ''ObjID_''))
     \<and> (\<forall>t ty. (t, ty) \<in> set class_tables \<longrightarrow> ty \<notin> K \<longrightarrow> T' t = T t)"

lemma stored_refl: "obj_wf T \<Longrightarrow> stored K T T"
  by (simp add: stored_def)

lemma stored_trans: "stored K T T' \<Longrightarrow> stored K T' T'' \<Longrightarrow> stored K T T''"
  unfolding stored_def by auto

lemma stored_mono: "stored K T T' \<Longrightarrow> K \<subseteq> K' \<Longrightarrow> stored K' T T'"
  unfolding stored_def by blast

lemma storedD:
  assumes "stored K T T'"
  shows "obj_wf T'" and "typed T n ty \<Longrightarrow> typed T' n ty"
  using assms unfolding stored_def by blast+

lemma stored_link:
  assumes "obj_wf T" and "t \<in> fst ` set references"
    and "\<And>c ty. (t, c, ty) \<in> set references \<Longrightarrow> \<exists>n. x c = Some (SInt n) \<and> (n = 0 \<or> typed T n ty)"
  shows "stored K T (T(t := insert x (T t)))"
proof -
  have t: "t \<notin> {''ObjID_'', ''Object_'', ''Snapshot_'', ''Diff_'', ''HT_''}" using assms(2) by (auto simp: references_def)
  then have "obj_wf (T(t := insert x (T t)))" using assms(1,3) by (intro obj_wf_link) auto
  moreover have "t' \<noteq> t" if "(t', ty) \<in> set class_tables" for t' ty using that t by (auto simp: class_tables_def)
  ultimately show ?thesis using t by (auto simp: stored_def)
qed

lemma stored_add_id:
  assumes "obj_wf T" and "fresh_id T n" and "''ObjID'' \<in> K"
  shows "stored K T (add_obj n ''ObjID'' a T)"
  using obj_wf_add_id [OF assms(1,2)] assms(3) class_table_names unfolding stored_def by auto

lemma stored_add:
  assumes "obj_wf T" and "fresh_id T n" and "(t, ty) \<in> set class_tables" and "x ''id_'' = Some (SInt n)" and "ty \<in> K"
  shows "stored K T ((add_obj n ty a T)(t := insert x (T t)))"
proof -
  have t: "t \<noteq> ''ObjID_''" "t \<noteq> ''HT_''" using assms(3) by (auto simp: class_tables_def)
  moreover have "t' \<noteq> t \<and> t' \<noteq> ''ObjID_''" if "(t', ty') \<in> set class_tables" "ty' \<notin> K" for t' ty'
    using that assms(3,5) class_table_unique class_table_names by metis
  moreover have "obj_row m ty' b \<in> add_obj n ty a T ''ObjID_'' \<longleftrightarrow> obj_row m ty' b \<in> T ''ObjID_''" if "ty' \<notin> K" for m ty' b
    using that assms(5) by (auto simp: add_obj_def)
  ultimately show ?thesis using obj_wf_add [OF assms(1-3), of x a, OF assms(4)] unfolding stored_def by simp
qed

lemma stored_update:
  assumes "obj_wf T" and "typed T n ty" and "keeps_ids n ty u" and "(t, ty) \<in> set class_tables" and "ty \<in> K"
    and u: "fst ` set u \<subseteq> {t, ''ObjID_''}"
  shows "stored K T (update_obj u n T)"
proof -
  have other: "update_obj u n T t' = T t'" if "t' \<noteq> t" "t' \<noteq> ''ObjID_''" for t'
  proof -
    have "map_of u t' = None" using u that by (auto simp: map_of_eq_None_iff)
    then show ?thesis by (simp add: update_obj_def)
  qed
  have rows: "obj_row m ty' a \<in> update_obj u n T ''ObjID_'' \<longleftrightarrow> obj_row m ty' a \<in> T ''ObjID_''" if "ty' \<notin> K" for m ty' a
  proof (cases "map_of u ''ObjID_''")
    case (Some fs)
    note wf = obj_wf_update [OF assms(1-3)]
    have ty: "ty' \<noteq> ty" using that assms(5) by blast
    have m: "m \<noteq> n" if "typed T m ty'" using that assms(2) ty typed_unique [OF obj_wfD(1) [OF assms(1)] assms(2)] by (auto simp: typed_def)
    show ?thesis
    proof
      assume a: "obj_row m ty' a \<in> update_obj u n T ''ObjID_''"
      then have "typed T m ty'" using wf(2) by (metis typed_def)
      from a obtain r where r: "r \<in> T ''ObjID_''" "obj_row m ty' a = update_row n fs r" by (auto simp: update_obj_def Some)
      moreover have "(''id_'', v) \<in> set fs \<Longrightarrow> v = SInt n" for v using assms(3) map_of_SomeD [OF Some] unfolding keeps_ids_def by blast
      then have "r ''id_'' = Some (SInt m)" using r(2) update_row_id [of fs n r] by (metis obj_row_columns(1))
      ultimately show "obj_row m ty' a \<in> T ''ObjID_''" using m [OF \<open>typed T m ty'\<close>] update_other_row by simp
    next
      assume a: "obj_row m ty' a \<in> T ''ObjID_''"
      then have "typed T m ty'" by (auto simp: typed_def)
      from m [OF this] have "update_row n fs (obj_row m ty' a) = obj_row m ty' a" by (simp add: update_other_row)
      with a show "obj_row m ty' a \<in> update_obj u n T ''ObjID_''" unfolding update_obj_def Some by force
    qed
  qed (simp add: update_obj_def)
  have "t' \<noteq> t \<and> t' \<noteq> ''ObjID_''" if "(t', ty') \<in> set class_tables" "ty' \<notin> K" for t' ty'
    using that assms(4,5) class_table_unique class_table_names by metis
  moreover have "t \<noteq> ''HT_''" using assms(4) by (auto simp: class_tables_def)
  ultimately show ?thesis using obj_wf_update [OF assms(1-3)] other rows unfolding stored_def by auto
qed

text \<open>What a caller passes: a new record, or one with the id and type it was loaded with.\<close>

definition known :: "tables \<Rightarrow> string \<Rightarrow> int \<Rightarrow> string \<Rightarrow> bool" where
  "known T ty i ty0 \<longleftrightarrow> i = 0 \<or> ty0 = ty \<and> typed T i ty"

definition known_diff :: "tables \<Rightarrow> sq_diff \<Rightarrow> bool" where
  "known_diff T d \<longleftrightarrow> known T ''Diff'' (db_id d) (db_type d)"

definition known_snapshot :: "tables \<Rightarrow> sq_snapshot \<Rightarrow> bool" where
  "known_snapshot T s \<longleftrightarrow> known T ''Snapshot'' (db_id s) (db_type s) \<and> (\<forall>d \<in> set (ss_diffs s). known_diff T d)"

lemma known_stored: "stored K T T' \<Longrightarrow> known T ty i ty0 \<Longrightarrow> known T' ty i ty0"
  by (auto simp: known_def dest: storedD)

lemma known_diff_stored: "stored K T T' \<Longrightarrow> known_diff T d \<Longrightarrow> known_diff T' d"
  by (simp add: known_diff_def known_stored)

lemma known_snapshot_stored: "stored K T T' \<Longrightarrow> known_snapshot T d \<Longrightarrow> known_snapshot T' d"
  by (simp add: known_snapshot_def known_stored known_diff_stored)

definition linkable :: "tables \<Rightarrow> string \<Rightarrow> int \<Rightarrow> bool" where
  "linkable T ty i \<longleftrightarrow> i = 0 \<or> typed T i ty"

lemma linkable_stored: "stored K T T' \<Longrightarrow> linkable T ty i \<Longrightarrow> linkable T' ty i"
  by (auto simp: linkable_def dest: storedD)

lemma rel_link_stored:
  assumes "sql_spec q db" and "obj_wf (db_tables (db w))" and "rel_link q (make_relation t f s) a b w = (Return u, w')"
    and "t \<in> fst ` set references" and "f \<noteq> s"
    and "\<And>c ty. (t, c, ty) \<in> set references \<Longrightarrow> c = f \<and> linkable (db_tables (db w)) ty a \<or> c = s \<and> linkable (db_tables (db w)) ty b"
  shows "stored K (db_tables (db w)) (db_tables (db w'))"
proof -
  from assms(3) have "sql_insert q t [SInt a, SInt b] [f, s] w = (Return u, w')" by (simp add: rel_link_def make_relation_def)
  from sql_insert_effect [OF assms(1) this]
  have "db_tables (db w') = (db_tables (db w))(t := insert (map_of (zip [f, s] [SInt a, SInt b])) (db_tables (db w) t))" by simp
  moreover have "\<exists>n. map_of (zip [f, s] [SInt a, SInt b]) c = Some (SInt n) \<and> (n = 0 \<or> typed (db_tables (db w)) n ty)"
    if "(t, c, ty) \<in> set references" for c ty
    using assms(6) [OF that] assms(5) by (auto simp: linkable_def)
  ultimately show ?thesis using stored_link [OF assms(2,4)] by presburger
qed

lemma links_stored:
  assumes "sql_spec q db" and "obj_wf (db_tables (db w))"
  shows "Diff_prev_link q d x w = (Return u, w') \<Longrightarrow> linkable (db_tables (db w)) ''Diff'' (fld (oi_id d)) \<Longrightarrow>
      stored K (db_tables (db w)) (db_tables (db w'))"
    and "Snapshot_diffs_link q s d w = (Return u, w') \<Longrightarrow> linkable (db_tables (db w)) ''Diff'' (fld (oi_id d)) \<Longrightarrow>
      linkable (db_tables (db w)) ''Snapshot'' (fld (oi_id s)) \<Longrightarrow> stored K (db_tables (db w)) (db_tables (db w'))"
    and "Object_snapshots_link q ob s w = (Return u, w') \<Longrightarrow> linkable (db_tables (db w)) ''Object'' (fld (oi_id ob)) \<Longrightarrow>
      linkable (db_tables (db w)) ''Snapshot'' (fld (oi_id s)) \<Longrightarrow> stored K (db_tables (db w)) (db_tables (db w'))"
proof -
  assume "Diff_prev_link q d x w = (Return u, w')" "linkable (db_tables (db w)) ''Diff'' (fld (oi_id d))"
  then show "stored K (db_tables (db w)) (db_tables (db w'))"
    by (intro rel_link_stored [OF assms, of "''Diff_ObjID_''" "''Diff1_''" "''ObjID2_''" "fld (oi_id d)" "fld (oi_id x)" u])
      (auto simp: Diff_prev_link_def DiffObjIDRelation_link_def DiffObjIDRelation_def references_def)
next
  assume "Snapshot_diffs_link q s d w = (Return u, w')" "linkable (db_tables (db w)) ''Diff'' (fld (oi_id d))"
    "linkable (db_tables (db w)) ''Snapshot'' (fld (oi_id s))"
  then show "stored K (db_tables (db w)) (db_tables (db w'))"
    by (intro rel_link_stored [OF assms, of "''Diff_Snapshot_''" "''Diff1_''" "''Snapshot2_''" "fld (oi_id d)" "fld (oi_id s)" u])
      (auto simp: Snapshot_diffs_link_def DiffSnapshotRelation_link_def DiffSnapshotRelation_def references_def)
next
  assume "Object_snapshots_link q ob s w = (Return u, w')" "linkable (db_tables (db w)) ''Object'' (fld (oi_id ob))"
    "linkable (db_tables (db w)) ''Snapshot'' (fld (oi_id s))"
  then show "stored K (db_tables (db w)) (db_tables (db w'))"
    by (intro rel_link_stored [OF assms, of "''Object_Snapshot_''" "''Object1_''" "''Snapshot2_''" "fld (oi_id ob)" "fld (oi_id s)" u])
      (auto simp: Object_snapshots_link_def ObjectSnapshotRelation_link_def ObjectSnapshotRelation_def references_def)
qed

text \<open>A record of a class that is stored again.\<close>

definition saved :: "tables \<Rightarrow> string \<Rightarrow> 'a db_ObjID_scheme \<Rightarrow> bool" where
  "saved T ty x \<longleftrightarrow> inDatabase x \<and> oldKey x = fld (oi_id x) \<and> fld (oi_type x) = ty \<and> typed T (fld (oi_id x)) ty"

lemmas update_defs = updateField_def prepareUpdate_def ObjID_addUpdates_def Object_addUpdates_def Snapshot_addUpdates_def Diff_addUpdates_def

lemma update_saved:
  assumes "sql_spec q db" and "obj_wf (db_tables (db w))" and "saved (db_tables (db w)) ty x"
    and "sql_update q u (oldKey x) w = (Return v, w')" and "keeps_ids (fld (oi_id x)) ty u"
    and "(t, ty) \<in> set class_tables" and "fst ` set u \<subseteq> {t, ''ObjID_''}"
  shows "stored {ty} (db_tables (db w)) (db_tables (db w'))"
proof -
  from assms(3) have x: "oldKey x = fld (oi_id x)" "typed (db_tables (db w)) (fld (oi_id x)) ty" by (simp_all add: saved_def)
  from sql_update_effect [OF assms(1,4)] x(1) have "db_tables (db w') = update_obj u (fld (oi_id x)) (db_tables (db w))"
    by (simp add: update_obj_def cong: option.case_cong)
  with stored_update [OF assms(2) x(2) assms(5,6) _ assms(7), of "{ty}"] show ?thesis by simp
qed

lemma Diff_update_stored:
  assumes "sql_spec q db" and "obj_wf (db_tables (db w))" and "unsaved x \<or> saved (db_tables (db w)) ''Diff'' x"
    and "Diff_update q x w = (Return y, w')"
  shows "stored {''Diff''} (db_tables (db w)) (db_tables (db w')) \<and> typed (db_tables (db w')) (fld (oi_id y)) ''Diff''"
  using assms(3)
proof
  assume "unsaved x"
  from assms(1) this assms(4) obtain n where n: "fresh_id (db_tables (db w)) n" "fld (oi_id y) = n"
    and T': "db_tables (db w') = (add_obj n ''Diff'' (fld (oi_anID x)) (db_tables (db w)))
      (''Diff_'' := insert (diff_row n (fld (df_snapshot x)) (fld (df_content x)) (fld (df_time x))) (db_tables (db w) ''Diff_''))"
    by (rule Diff_update_new) simp
  have "(''Diff_'', ''Diff'') \<in> set class_tables" by (simp add: class_tables_def)
  from stored_add [OF assms(2) n(1) this] n(2) show ?thesis by (simp add: T')
next
  assume s: "saved (db_tables (db w)) ''Diff'' x"
  then obtain v where u: "sql_update q (Diff_addUpdates x []) (oldKey x) w = (Return v, w')" and y: "fld (oi_id y) = fld (oi_id x)"
    using assms(4) by (auto simp: Diff_update_def saved_def Let_def elim!: io_bind_returnE)
  have "stored {''Diff''} (db_tables (db w)) (db_tables (db w'))"
    using s by (intro update_saved [OF assms(1,2) s u]) (auto simp: keeps_ids_def update_defs class_tables_def references_def saved_def split: if_splits)
  with s y show ?thesis by (auto simp: saved_def dest: storedD)
qed

lemma Snapshot_update_stored:
  assumes "sql_spec q db" and "obj_wf (db_tables (db w))" and "unsaved x \<or> saved (db_tables (db w)) ''Snapshot'' x"
    and "Snapshot_update q x w = (Return y, w')"
  shows "stored {''Snapshot''} (db_tables (db w)) (db_tables (db w')) \<and> typed (db_tables (db w')) (fld (oi_id y)) ''Snapshot''"
  using assms(3)
proof
  assume "unsaved x"
  from assms(1) this assms(4) obtain n where n: "fresh_id (db_tables (db w)) n" "fld (oi_id y) = n"
    and T': "db_tables (db w') = (add_obj n ''Snapshot'' (fld (oi_anID x)) (db_tables (db w)))
      (''Snapshot_'' := insert (snap_row n (fld (sn_based x)) (fld (sn_content x)) (fld (sn_time x))) (db_tables (db w) ''Snapshot_''))"
    by (rule Snapshot_update_new) simp
  have "(''Snapshot_'', ''Snapshot'') \<in> set class_tables" by (simp add: class_tables_def)
  from stored_add [OF assms(2) n(1) this] n(2) show ?thesis by (simp add: T')
next
  assume s: "saved (db_tables (db w)) ''Snapshot'' x"
  then obtain v where u: "sql_update q (Snapshot_addUpdates x []) (oldKey x) w = (Return v, w')" and y: "fld (oi_id y) = fld (oi_id x)"
    using assms(4) by (auto simp: Snapshot_update_def saved_def Let_def elim!: io_bind_returnE)
  have "stored {''Snapshot''} (db_tables (db w)) (db_tables (db w'))"
    using s by (intro update_saved [OF assms(1,2) s u]) (auto simp: keeps_ids_def update_defs class_tables_def references_def saved_def split: if_splits)
  with s y show ?thesis by (auto simp: saved_def dest: storedD)
qed

lemma Object_update_stored:
  assumes "sql_spec q db" and "obj_wf (db_tables (db w))" and "unsaved x \<or> saved (db_tables (db w)) ''Object'' x"
    and "Object_update q x w = (Return y, w')"
  shows "stored {''Object''} (db_tables (db w)) (db_tables (db w')) \<and> saved (db_tables (db w')) ''Object'' y"
  using assms(3)
proof
  assume "unsaved x"
  from assms(1) this assms(4) obtain n where n: "fresh_id (db_tables (db w)) n"
    and y: "y = x\<lparr>oi_id := assigned n, oi_type := unmodified (assigned ''Object''), oi_anID := unmodified (oi_anID x), inDatabase := True, oldKey := n\<rparr>"
    and T': "db_tables (db w') = (add_obj n ''Object'' (fld (oi_anID x)) (db_tables (db w)))
      (''Object_'' := insert [''id_'' \<mapsto> SInt n] (db_tables (db w) ''Object_''))"
    by (rule Object_update_new) simp
  have "(''Object_'', ''Object'') \<in> set class_tables" by (simp add: class_tables_def)
  from stored_add [OF assms(2) n this] y show ?thesis by (simp add: T' saved_def assigned_def unmodified_def)
next
  assume s: "saved (db_tables (db w)) ''Object'' x"
  then obtain v where u: "sql_update q (Object_addUpdates x []) (oldKey x) w = (Return v, w')" and y: "y = x\<lparr>oldKey := fld (oi_id x)\<rparr>"
    using assms(4) by (auto simp: Object_update_def saved_def Let_def elim!: io_bind_returnE)
  have "stored {''Object''} (db_tables (db w)) (db_tables (db w'))"
    using s by (intro update_saved [OF assms(1,2) s u]) (auto simp: keeps_ids_def update_defs class_tables_def references_def saved_def split: if_splits)
  with s y show ?thesis by (auto simp: saved_def dest: storedD)
qed

subsection \<open>The plugin's store functions\<close>

lemma adopt_known:
  assumes "known T ty i ty0" and "\<not> inDatabase x" and "fld (oi_id x) = 0"
  shows "unsaved (adopt i ty0 x) \<or> saved T ty (adopt i ty0 x)" and "linkable T ty (fld (oi_id (adopt i ty0 x)))"
  using assms by (auto simp: known_def adopt_def unsaved_def saved_def linkable_def set_inDatabase_def set_id_def assigned_def)

lemma link_prevs_stored:
  assumes "sql_spec q db"
  shows "obj_wf (db_tables (db w)) \<Longrightarrow> linkable (db_tables (db w)) ''Diff'' (fld (oi_id d)) \<Longrightarrow> link_prevs q d ps w = (Return u, w') \<Longrightarrow>
    stored {''ObjID'', ''Diff''} (db_tables (db w)) (db_tables (db w'))"
proof (induction ps arbitrary: w)
  case (Cons p ps)
  from Cons.prems(3) obtain x w1 v w2 where id: "db_store_id q p w = (Return x, w1)"
    and link: "Diff_prev_link q d x w1 = (Return v, w2)" and rest: "link_prevs q d ps w2 = (Return u, w')"
    by (auto elim!: io_bind_returnE)
  have "unsaved (ObjID_new\<lparr>oi_anID := assigned p\<rparr>)" by (simp add: unsaved_def ObjID_new_def assigned_def)
  from assms this id [unfolded db_store_id_def] have s1: "stored {''ObjID'', ''Diff''} (db_tables (db w)) (db_tables (db w1))"
    by (rule ObjID_update_new) (use stored_add_id [OF Cons.prems(1)] in simp)
  note d1 = linkable_stored [OF s1 Cons.prems(2)]
  have s2: "stored {''ObjID'', ''Diff''} (db_tables (db w1)) (db_tables (db w2))"
    using links_stored(1) [OF assms storedD(1) [OF s1] link d1] .
  from Cons.IH [OF storedD(1) [OF s2] linkable_stored [OF s2 d1] rest] s1 s2 show ?case by (blast intro: stored_trans)
qed (simp add: stored_refl)

lemma store_diff_stored:
  assumes "sql_spec q db" and "obj_wf (db_tables (db w))" and "known_diff (db_tables (db w)) ip" and "store_diff q nadt ip w = (Return y, w')"
  shows "stored {''ObjID'', ''Diff''} (db_tables (db w)) (db_tables (db w')) \<and> typed (db_tables (db w')) (fld (oi_id y)) ''Diff''"
proof -
  let ?x = "Diff_new\<lparr>df_snapshot := assigned (sd_snapshot ip), oi_anID := assigned (oid ip)\<rparr>"
  define d where "d = (adopt (db_id ip) (db_type ip) ?x)\<lparr>df_content := assigned (content ip), df_time := assigned (to_time_t nadt (time ip))\<rparr>"
  have k: "known (db_tables (db w)) ''Diff'' (db_id ip) (db_type ip)" using assms(3) by (simp add: known_diff_def)
  have d: "unsaved d \<or> saved (db_tables (db w)) ''Diff'' d" "linkable (db_tables (db w)) ''Diff'' (fld (oi_id d))"
    using adopt_known [OF k, of ?x] by (simp_all add: d_def Diff_new_def assigned_def unsaved_def saved_def)
  from assms(4) obtain u w1 where prevs: "link_prevs q d (sd_prev ip) w = (Return u, w1)" and upd: "Diff_update q d w1 = (Return y, w')"
    by (auto simp: store_diff_def d_def Let_def elim: io_bind_returnE)
  note s1 = link_prevs_stored [OF assms(1,2) d(2) prevs]
  have "unsaved d \<or> saved (db_tables (db w1)) ''Diff'' d" using d(1) storedD(2) [OF s1] by (auto simp: saved_def)
  from Diff_update_stored [OF assms(1) storedD(1) [OF s1] this upd] s1 show ?thesis
    by (blast intro: stored_trans stored_mono)
qed

end
