(* ===== verification/SqlRuns.thy ===== *)
theory SqlRuns
  imports SqlObjects
begin

text \<open>
  Calls of the SQL storage plugin on objects, snapshots and differences: each keeps the invariant of the
  schema, \<open>db_remove\<close> takes one record away with what refers to it, and a snapshot that was stored is loaded
  with its own columns and without its differences.
\<close>

section \<open>Storing snapshots and objects\<close>

abbreviation diff_types :: "string set" where
  "diff_types \<equiv> {''ObjID'', ''Diff''}"

abbreviation snapshot_types :: "string set" where
  "snapshot_types \<equiv> {''ObjID'', ''Diff'', ''Snapshot''}"

lemma link_diffs_stored:
  assumes "sql_spec q db"
  shows "obj_wf (db_tables (db w)) \<Longrightarrow> linkable (db_tables (db w)) ''Snapshot'' (fld (oi_id s)) \<Longrightarrow>
    \<forall>d \<in> set ds. known_diff (db_tables (db w)) d \<Longrightarrow> link_diffs q nadt s ds w = (Return u, w') \<Longrightarrow>
    stored diff_types (db_tables (db w)) (db_tables (db w'))"
proof (induction ds arbitrary: w)
  case (Cons d ds)
  from Cons.prems(4) obtain x w1 v w2 where store: "store_diff q nadt d w = (Return x, w1)"
    and link: "Snapshot_diffs_link q s x w1 = (Return v, w2)" and rest: "link_diffs q nadt s ds w2 = (Return u, w')"
    by (auto elim!: io_bind_returnE)
  from Cons.prems(3) have "known_diff (db_tables (db w)) d" by simp
  note s1 = store_diff_stored [OF assms Cons.prems(1) this store]
  note l1 = linkable_stored [OF conjunct1 [OF s1] Cons.prems(2)]
  from s1 have "linkable (db_tables (db w1)) ''Diff'' (fld (oi_id x))" by (simp add: linkable_def)
  note s2 = links_stored(2) [OF assms storedD(1) [OF conjunct1 [OF s1]] link this l1, of diff_types]
  note s = stored_trans [OF conjunct1 [OF s1] s2]
  have "\<forall>d \<in> set ds. known_diff (db_tables (db w2)) d" using Cons.prems(3) known_diff_stored [OF s] by simp
  from Cons.IH [OF storedD(1) [OF s2] linkable_stored [OF s2 l1] this rest] s show ?case by (rule stored_trans [rotated])
qed (simp add: stored_refl)

text \<open>The snapshot object that is stored, before \<open>update\<close>.\<close>

definition snapshot_of :: "int \<Rightarrow> sq_snapshot \<Rightarrow> db_Snapshot" where
  "snapshot_of nadt sn = (adopt (db_id sn) (db_type sn) (Snapshot_new\<lparr>sn_based := assigned (ss_based sn), oi_anID := assigned (oid sn)\<rparr>))
     \<lparr>sn_content := assigned (content sn), sn_time := assigned (to_time_t nadt (time sn))\<rparr>"

lemma store_snapshot_steps:
  assumes "sql_spec q db" and "obj_wf (db_tables (db w))" and "known_snapshot (db_tables (db w)) sn"
    and "store_snapshot q nadt sn w = (Return y, w')"
  obtains w1 where "stored diff_types (db_tables (db w)) (db_tables (db w1))" and "Snapshot_update q (snapshot_of nadt sn) w1 = (Return y, w')"
    and "unsaved (snapshot_of nadt sn) \<or> saved (db_tables (db w1)) ''Snapshot'' (snapshot_of nadt sn)"
proof -
  let ?x = "Snapshot_new\<lparr>sn_based := assigned (ss_based sn), oi_anID := assigned (oid sn)\<rparr>"
  let ?s = "snapshot_of nadt sn"
  have k: "known (db_tables (db w)) ''Snapshot'' (db_id sn) (db_type sn)" "\<forall>d \<in> set (ss_diffs sn). known_diff (db_tables (db w)) d"
    using assms(3) by (simp_all add: known_snapshot_def)
  have s: "unsaved ?s \<or> saved (db_tables (db w)) ''Snapshot'' ?s" "linkable (db_tables (db w)) ''Snapshot'' (fld (oi_id ?s))"
    using adopt_known [OF k(1), of ?x] by (simp_all add: snapshot_of_def Snapshot_new_def assigned_def unsaved_def saved_def)
  from assms(4) obtain u w1 where diffs: "link_diffs q nadt ?s (ss_diffs sn) w = (Return u, w1)" and upd: "Snapshot_update q ?s w1 = (Return y, w')"
    by (auto simp: store_snapshot_def snapshot_of_def Let_def elim: io_bind_returnE)
  note s1 = link_diffs_stored [OF assms(1,2) s(2) k(2) diffs]
  have "unsaved ?s \<or> saved (db_tables (db w1)) ''Snapshot'' ?s" using s(1) storedD(2) [OF s1] by (auto simp: saved_def)
  with that s1 upd show thesis by blast
qed

lemma store_snapshot_stored:
  assumes "sql_spec q db" and "obj_wf (db_tables (db w))" and "known_snapshot (db_tables (db w)) sn"
    and "store_snapshot q nadt sn w = (Return y, w')"
  shows "stored snapshot_types (db_tables (db w)) (db_tables (db w')) \<and> typed (db_tables (db w')) (fld (oi_id y)) ''Snapshot''"
  using assms
proof (rule store_snapshot_steps)
  fix w1 assume s1: "stored diff_types (db_tables (db w)) (db_tables (db w1))" and upd: "Snapshot_update q (snapshot_of nadt sn) w1 = (Return y, w')"
    and s: "unsaved (snapshot_of nadt sn) \<or> saved (db_tables (db w1)) ''Snapshot'' (snapshot_of nadt sn)"
  from Snapshot_update_stored [OF assms(1) storedD(1) [OF s1] s upd] s1 show ?thesis
    by (meson stored_trans stored_mono insert_mono empty_subsetI insert_subset insertI1 insertI2)
qed

lemma link_snapshots_stored:
  assumes "sql_spec q db"
  shows "obj_wf (db_tables (db w)) \<Longrightarrow> linkable (db_tables (db w)) ''Object'' (fld (oi_id x)) \<Longrightarrow>
    \<forall>s \<in> set ss. known_snapshot (db_tables (db w)) s \<Longrightarrow> link_snapshots q nadt x ss w = (Return u, w') \<Longrightarrow>
    stored snapshot_types (db_tables (db w)) (db_tables (db w'))"
proof (induction ss arbitrary: w)
  case (Cons s ss)
  from Cons.prems(4) obtain y w1 v w2 where store: "store_snapshot q nadt s w = (Return y, w1)"
    and link: "Object_snapshots_link q x y w1 = (Return v, w2)" and rest: "link_snapshots q nadt x ss w2 = (Return u, w')"
    by (auto elim!: io_bind_returnE)
  from Cons.prems(3) have "known_snapshot (db_tables (db w)) s" by simp
  note s1 = store_snapshot_stored [OF assms Cons.prems(1) this store]
  note l1 = linkable_stored [OF conjunct1 [OF s1] Cons.prems(2)]
  from s1 have "linkable (db_tables (db w1)) ''Snapshot'' (fld (oi_id y))" by (simp add: linkable_def)
  note s2 = links_stored(3) [OF assms storedD(1) [OF conjunct1 [OF s1]] link l1 this, of snapshot_types]
  note s = stored_trans [OF conjunct1 [OF s1] s2]
  have "\<forall>s \<in> set ss. known_snapshot (db_tables (db w2)) s" using Cons.prems(3) known_snapshot_stored [OF s] by simp
  from Cons.IH [OF storedD(1) [OF s2] linkable_stored [OF s2 l1] this rest] s show ?case by (rule stored_trans [rotated])
qed (simp add: stored_refl)

section \<open>Removing a record\<close>

lemma obj_record:
  assumes "ids_wf T" and "rec \<in> (\<lambda>env. map (column env) ObjID_getFieldTypes) ` joined T ObjID_getFieldTypes (Eq ObjID_AnID (SText i))"
  obtains n ty where "obj_row n ty i \<in> T ''ObjID_''" and "rec = [SInt n, SText ty, SText i]"
proof -
  have "joined T ObjID_getFieldTypes (Eq ObjID_AnID (SText i))
      = {(\<lambda>_. Map.empty)(''ObjID_'' := r) | r. r \<in> T ''ObjID_'' \<and> r ''anID_'' = Some (SText i)}"
    by (subst joined_single [where t = "''ObjID_''"]) (auto simp: class_columns column_defs)
  with assms(2) obtain r where r: "r \<in> T ''ObjID_''" "r ''anID_'' = Some (SText i)"
    and rec: "rec = map (column ((\<lambda>_. Map.empty)(''ObjID_'' := r))) ObjID_getFieldTypes" by auto
  with assms(1) obtain n ty a where "r = obj_row n ty a" unfolding ids_wf_def by blast
  with that r rec show thesis by (simp add: class_columns column_defs column_def)
qed

lemma delete_record:
  assumes "sql_spec q db" and "deleteFromTable q t n w = (Return u, w')"
  shows "db w' = (db w)\<lparr>db_tables := (db_tables (db w))(t := {x \<in> db_tables (db w) t. x ''id_'' \<noteq> Some (SInt n)})\<rparr>"
  using sql_delete_effect [OF assms(1) assms(2) [unfolded deleteFromTable_def]] by simp

lemma delete_relation:
  assumes "sql_spec q db" and "rel_del q R (Eq ft (SInt n)) w = (Return u, w')"
  shows "db w' = (db w)\<lparr>db_tables := (db_tables (db w))(rel_table R := {x \<in> db_tables (db w) (rel_table R). x (ft_name ft) \<noteq> Some (SInt n)})\<rparr>"
  using sql_delete_effect [OF assms(1) assms(2) [unfolded rel_del_def]] by simp

lemmas del_defs = ObjID_delRecord_def Object_delRecord_def Snapshot_delRecord_def Diff_delRecord_def
  Object_delRelations_def Snapshot_delRelations_def Diff_delRelations_def
  ObjectSnapshotRelation_del_def DiffObjectRelation_del_def DiffSnapshotRelation_del_def DiffObjIDRelation_del_def

lemma del_obj_tables:
  "del_obj n ''ObjID'' T = T(''ObjID_'' := {x \<in> T ''ObjID_''. x ''id_'' \<noteq> Some (SInt n)})"
  "del_obj n ''Object'' T = T(''Object_Snapshot_'' := {x \<in> T ''Object_Snapshot_''. x ''Object1_'' \<noteq> Some (SInt n)},
     ''Diff_Object_'' := {x \<in> T ''Diff_Object_''. x ''Object2_'' \<noteq> Some (SInt n)},
     ''Object_'' := {x \<in> T ''Object_''. x ''id_'' \<noteq> Some (SInt n)}, ''ObjID_'' := {x \<in> T ''ObjID_''. x ''id_'' \<noteq> Some (SInt n)})"
  "del_obj n ''Snapshot'' T = T(''Object_Snapshot_'' := {x \<in> T ''Object_Snapshot_''. x ''Snapshot2_'' \<noteq> Some (SInt n)},
     ''Diff_Snapshot_'' := {x \<in> T ''Diff_Snapshot_''. x ''Snapshot2_'' \<noteq> Some (SInt n)},
     ''Snapshot_'' := {x \<in> T ''Snapshot_''. x ''id_'' \<noteq> Some (SInt n)}, ''ObjID_'' := {x \<in> T ''ObjID_''. x ''id_'' \<noteq> Some (SInt n)})"
  "del_obj n ''Diff'' T = T(''Diff_Object_'' := {x \<in> T ''Diff_Object_''. x ''Diff1_'' \<noteq> Some (SInt n)},
     ''Diff_Snapshot_'' := {x \<in> T ''Diff_Snapshot_''. x ''Diff1_'' \<noteq> Some (SInt n)},
     ''Diff_ObjID_'' := {x \<in> T ''Diff_ObjID_''. x ''Diff1_'' \<noteq> Some (SInt n)},
     ''Diff_'' := {x \<in> T ''Diff_''. x ''id_'' \<noteq> Some (SInt n)}, ''ObjID_'' := {x \<in> T ''ObjID_''. x ''id_'' \<noteq> Some (SInt n)})"
  by (simp_all add: fun_eq_iff del_obj_def class_tables_def references_def)

lemma obj_record_fields [simp]:
  "fld (oi_id (ObjID_of_record [SInt n, SText ty, SText i])) = n" "fld (oi_type (ObjID_of_record [SInt n, SText ty, SText i])) = ty"
  "fld (oi_id (copy_ObjID x np)) = fld (oi_id x)"
  by (simp_all add: ObjID_of_record_def rec_field_def unmodified_def assigned_def copy_ObjID_def)

lemma ObjID_del_effect:
  assumes "sql_spec q db" and "ty = ''ObjID'' \<or> ty \<in> snd ` set class_tables"
    and "ObjID_del q (ObjID_of_record [SInt n, SText ty, SText i]) w = (Return y, w')"
  shows "db w' = (db w)\<lparr>db_tables := del_obj n ty (db_tables (db w))\<rparr>"
proof -
  note dels = delete_record [OF assms(1)] delete_relation [OF assms(1)]
  from assms(2) consider "ty = ''ObjID''" | "ty = ''Object''" | "ty = ''Snapshot''" | "ty = ''Diff''" by (auto simp: class_tables_def)
  then show ?thesis
  proof cases
    case 1
    then have "deleteFromTable q ''ObjID_'' n w = (Return (), w')"
      using assms(3) by (auto simp: ObjID_del_def ObjID_typeIsCorrect_def del_defs elim!: io_bind_returnE)
    from dels(1) [OF this] show ?thesis by (simp add: 1 del_obj_tables)
  next
    case 2
    then show ?thesis using assms(3)
      by (auto simp: ObjID_del_def ObjID_typeIsCorrect_def ObjID_upcastCopy_def del_defs relation_defs del_obj_tables elim!: io_bind_returnE dest!: dels)
  next
    case 3
    then show ?thesis using assms(3)
      by (auto simp: ObjID_del_def ObjID_typeIsCorrect_def ObjID_upcastCopy_def del_defs relation_defs del_obj_tables elim!: io_bind_returnE dest!: dels)
  next
    case 4
    then show ?thesis using assms(3)
      by (auto simp: ObjID_del_def ObjID_typeIsCorrect_def ObjID_upcastCopy_def del_defs relation_defs del_obj_tables elim!: io_bind_returnE dest!: dels)
  qed
qed

section \<open>Calls\<close>

lemma succeeds_TrueE:
  assumes "succeeds m w = (Return True, w')"
  obtains a where "m w = (Return a, w')"
  using assms by (auto simp: succeeds_def attempt_def io_simps split: prod.splits outcome.splits if_splits option.splits)

lemma transactionE:
  assumes "sql_spec q db" and "succeeds (io_bind (sql_begin q) (\<lambda>_. io_bind m (\<lambda>_. sql_commit q))) w = (Return True, w')"
  obtains a w1 w2 where "db w1 = (db w)\<lparr>db_open_tx := True\<rparr>" and "m w1 = (Return a, w2)" and "db w' = (db w2)\<lparr>db_open_tx := False\<rparr>"
proof -
  from assms(2) obtain u a w1 w2 v where b: "sql_begin q w = (Return u, w1)" and m: "m w1 = (Return a, w2)" and commit: "sql_commit q w2 = (Return v, w')"
    by (auto elim!: succeeds_TrueE io_bind_returnE)
  from sql_begin_effect [OF assms(1) b] sql_commit_effect [OF assms(1) commit] that m show thesis by auto
qed

lemma transaction_stored:
  assumes "sql_spec q db" and "succeeds (io_bind (sql_begin q) (\<lambda>_. io_bind m (\<lambda>_. sql_commit q))) w = (Return True, w')"
    and "\<And>w1 a w2. db_tables (db w1) = db_tables (db w) \<Longrightarrow> m w1 = (Return a, w2) \<Longrightarrow> stored K (db_tables (db w)) (db_tables (db w2))"
  shows "stored K (db_tables (db w)) (db_tables (db w')) \<and> \<not> db_open_tx (db w')"
  using assms(1,2)
proof (rule transactionE)
  fix a w1 w2 assume "db w1 = (db w)\<lparr>db_open_tx := True\<rparr>" "m w1 = (Return a, w2)" "db w' = (db w2)\<lparr>db_open_tx := False\<rparr>"
  with assms(3) [of w1 a w2] show ?thesis by simp
qed

lemma store_snapshot_call_stored:
  assumes "sql_spec q db" and "obj_wf (db_tables (db w))" and "known_snapshot (db_tables (db w)) s"
    and "sq_db_store_snapshot q nadt s w = (Return True, w')"
  shows "stored snapshot_types (db_tables (db w)) (db_tables (db w')) \<and> \<not> db_open_tx (db w')"
  using assms(1,4) unfolding sq_db_store_snapshot_def
proof (rule transaction_stored)
  fix w1 a w2 assume w1: "db_tables (db w1) = db_tables (db w)" and m: "store_snapshot q nadt s w1 = (Return a, w2)"
  from store_snapshot_stored [OF assms(1) _ _ m] assms(2,3) w1 show "stored snapshot_types (db_tables (db w)) (db_tables (db w2))" by simp
qed

lemma store_diff_call_stored:
  assumes "sql_spec q db" and "obj_wf (db_tables (db w))" and "known_diff (db_tables (db w)) d"
    and "sq_db_store_diff q nadt d w = (Return True, w')"
  shows "stored diff_types (db_tables (db w)) (db_tables (db w')) \<and> \<not> db_open_tx (db w')"
  using assms(1,4) unfolding sq_db_store_diff_def
proof (rule transaction_stored)
  fix w1 a w2 assume w1: "db_tables (db w1) = db_tables (db w)" and m: "store_diff q nadt d w1 = (Return a, w2)"
  from store_diff_stored [OF assms(1) _ _ m] assms(2,3) w1 show "stored diff_types (db_tables (db w)) (db_tables (db w2))" by simp
qed

definition known_call :: "tables \<Rightarrow> sq_call \<Rightarrow> bool" where
  "known_call T c = (case c of
     Store_obj x \<Rightarrow> known T ''Object'' (so_db_id x) (so_db_type x) \<and> (\<forall>s \<in> set (so_snapshots x). known_snapshot T s)
   | Store_snapshot s \<Rightarrow> known_snapshot T s
   | Store_diff d \<Rightarrow> known_diff T d
   | Remove i \<Rightarrow> True)"

lemma store_obj_stored:
  assumes "sql_spec q db" and "obj_wf (db_tables (db w))" and "known_call (db_tables (db w)) (Store_obj ob)"
    and "sq_db_store_obj q nadt ob w = (Return True, w')"
  shows "stored (insert ''Object'' snapshot_types) (db_tables (db w)) (db_tables (db w')) \<and> \<not> db_open_tx (db w')"
proof -
  let ?x = "adopt (so_db_id ob) (so_db_type ob) (Object_new\<lparr>oi_anID := assigned (so_id ob)\<rparr>)"
  let ?K = "insert ''Object'' snapshot_types"
  from assms(4) have "succeeds (io_bind (sql_begin q) (\<lambda>_. io_bind (io_bind (Object_update q ?x) (\<lambda>x.
      io_bind (link_snapshots q nadt x (so_snapshots ob)) (\<lambda>_. Object_update q x))) (\<lambda>_. sql_commit q))) w = (Return True, w')"
    by (simp add: sq_db_store_obj_def io_bind_assoc)
  with assms(1) show ?thesis
  proof (rule transaction_stored)
    fix a w1 w2 assume w1: "db_tables (db w1) = db_tables (db w)"
      and "io_bind (Object_update q ?x) (\<lambda>x. io_bind (link_snapshots q nadt x (so_snapshots ob)) (\<lambda>_. Object_update q x)) w1 = (Return a, w2)"
    then obtain x w3 u w4 where x: "Object_update q ?x w1 = (Return x, w3)"
      and ss: "link_snapshots q nadt x (so_snapshots ob) w3 = (Return u, w4)" and x2: "Object_update q x w4 = (Return a, w2)"
      by (auto elim!: io_bind_returnE)
    have k: "known (db_tables (db w1)) ''Object'' (so_db_id ob) (so_db_type ob)" "\<forall>s \<in> set (so_snapshots ob). known_snapshot (db_tables (db w1)) s"
      using assms(3) by (simp_all add: known_call_def w1)
    have "unsaved ?x \<or> saved (db_tables (db w1)) ''Object'' ?x"
      by (intro adopt_known(1) [OF k(1)]) (simp_all add: Object_new_def ObjID_new_def assigned_def)
    with Object_update_stored [OF assms(1) _ _ x] assms(2) w1
    have s1: "stored ?K (db_tables (db w1)) (db_tables (db w3))" and sv: "saved (db_tables (db w3)) ''Object'' x"
      by (auto intro: stored_mono)
    have "linkable (db_tables (db w3)) ''Object'' (fld (oi_id x))" using sv by (simp add: saved_def linkable_def)
    moreover have "\<forall>s \<in> set (so_snapshots ob). known_snapshot (db_tables (db w3)) s" using k(2) known_snapshot_stored [OF s1] by blast
    ultimately have s2: "stored ?K (db_tables (db w3)) (db_tables (db w4))"
      using link_snapshots_stored [OF assms(1) storedD(1) [OF s1] _ _ ss] by (auto intro: stored_mono)
    have "saved (db_tables (db w4)) ''Object'' x" using sv storedD(2) [OF s2] by (simp add: saved_def)
    with Object_update_stored [OF assms(1) storedD(1) [OF s2] _ x2] have "stored ?K (db_tables (db w4)) (db_tables (db w2))"
      by (auto intro: stored_mono)
    with s1 s2 show "stored ?K (db_tables (db w)) (db_tables (db w2))" unfolding w1 by (blast intro: stored_trans)
  qed
qed

lemma remove_effect:
  assumes "sql_spec q db" and "obj_wf (db_tables (db w))" and "sq_db_remove q i w = (Return True, w')"
  obtains n ty where "obj_row n ty i \<in> db_tables (db w) ''ObjID_''" and "db w' = \<lparr>db_tables = del_obj n ty (db_tables (db w)), db_open_tx = False\<rparr>"
proof -
  from assms(3) have "succeeds (io_bind (sql_begin q) (\<lambda>_. io_bind (io_bind (sql_one q ObjID_getFieldTypes (Eq ObjID_AnID (SText i)))
      (\<lambda>rec. ObjID_del q (ObjID_of_record rec))) (\<lambda>_. sql_commit q))) w = (Return True, w')"
    by (simp add: sq_db_remove_def io_bind_assoc)
  with assms(1) show thesis
  proof (rule transactionE)
    fix a w1 w2 assume w1: "db w1 = (db w)\<lparr>db_open_tx := True\<rparr>" and w': "db w' = (db w2)\<lparr>db_open_tx := False\<rparr>"
      and m: "io_bind (sql_one q ObjID_getFieldTypes (Eq ObjID_AnID (SText i))) (\<lambda>rec. ObjID_del q (ObjID_of_record rec)) w1 = (Return a, w2)"
    then obtain rec w3 where one: "sql_one q ObjID_getFieldTypes (Eq ObjID_AnID (SText i)) w1 = (Return rec, w3)"
      and del: "ObjID_del q (ObjID_of_record rec) w3 = (Return a, w2)" by (auto elim: io_bind_returnE)
    note eff = sql_one_effect [OF assms(1) one]
    note ids = obj_wfD(1) [OF assms(2)]
    from eff(2) w1 have "rec \<in> (\<lambda>env. map (column env) ObjID_getFieldTypes) ` joined (db_tables (db w)) ObjID_getFieldTypes (Eq ObjID_AnID (SText i))"
      by simp
    then obtain n ty where row: "obj_row n ty i \<in> db_tables (db w) ''ObjID_''" and rec: "rec = [SInt n, SText ty, SText i]"
      by (rule obj_record [OF ids])
    from row ids have "ty = ''ObjID'' \<or> ty \<in> snd ` set class_tables" unfolding ids_wf_def by (metis obj_row_inject)
    from ObjID_del_effect [OF assms(1) this del [unfolded rec]] eff(1) w1 w' row that show thesis by simp
  qed
qed

text \<open>
  C23: Every call of \<open>Sqlstore::db_store_obj\<close>, \<open>db_store_snapshot\<close>, \<open>db_store_diff\<close> and \<open>db_remove\<close> that answers true keeps
  the invariant of the schema (positive unique ids, one record in the table of its class for each record,
  relations between existing records or the id 0), leaves the keys and values alone and closes its
  transaction, for records that are new or carry the id and type they were loaded with.
\<close>

theorem sql_calls_keep_schema:
  assumes "sql_spec q db" and "obj_wf (db_tables (db w))" and "known_call (db_tables (db w)) c" and "sq_run q nadt c w = (Return True, w')"
  shows "obj_wf (db_tables (db w')) \<and> db_tables (db w') ''HT_'' = db_tables (db w) ''HT_'' \<and> \<not> db_open_tx (db w')"
proof (cases c)
  case (Store_obj ob)
  with store_obj_stored [OF assms(1,2)] assms(3,4) show ?thesis by (auto simp: stored_def)
next
  case (Store_snapshot s)
  with store_snapshot_call_stored [OF assms(1,2)] assms(3,4) show ?thesis by (auto simp: stored_def known_call_def)
next
  case (Store_diff d)
  with store_diff_call_stored [OF assms(1,2)] assms(3,4) show ?thesis by (auto simp: stored_def known_call_def)
next
  case (Remove i)
  with assms(4) have "sq_db_remove q i w = (Return True, w')" by simp
  with assms(1,2) show ?thesis
  proof (rule remove_effect)
    fix n ty assume "obj_row n ty i \<in> db_tables (db w) ''ObjID_''" and w': "db w' = \<lparr>db_tables = del_obj n ty (db_tables (db w)), db_open_tx = False\<rparr>"
    then have "obj_wf (del_obj n ty (db_tables (db w)))" by (intro obj_wf_del [OF assms(2)]) (auto simp: typed_def)
    then show ?thesis by (simp add: w' del_obj_def class_tables_def references_def)
  qed
qed

definition demo_diff :: sq_diff where
  "demo_diff = sq_diff_new\<lparr>oid := ''d'', sd_snapshot := ''s'', content := ''patch'', time := Some 5, sd_prev := [''p'']\<rparr>"

definition demo_snapshot :: sq_snapshot where
  "demo_snapshot = sq_snapshot_new\<lparr>oid := ''s'', ss_based := ''b'', content := ''text'', time := Some 6, ss_diffs := [demo_diff]\<rparr>"

lemma demo_known [simp]: "known_snapshot T demo_snapshot" "db_id demo_snapshot = 0" "oid demo_snapshot = ''s''"
  by (simp_all add: demo_snapshot_def demo_diff_def sq_snapshot_new_def sq_diff_new_def known_snapshot_def known_diff_def known_def)

lemma empty_mem_rows [simp]: "mem_rows empty_mem t = []"
  by (simp add: empty_mem_def mem_rows_def)

lemma obj_wf_empty [simp]: "obj_wf (\<lambda>_. {})"
  by (simp add: obj_wf_def ids_wf_def class_wf_def ref_wf_def typed_def split_beta)

lemma returned: "fst p = Return a \<Longrightarrow> p = (Return a, snd p)"
  by (cases p) simp

theorem sql_calls_keep_schema_witness:
  "fst (sq_run mem_ops 0 (Store_snapshot demo_snapshot) empty_mem) = Return True
    \<and> obj_wf (db_tables (mem_db (snd (sq_run mem_ops 0 (Store_snapshot demo_snapshot) empty_mem))))"
proof -
  let ?p = "sq_run mem_ops 0 (Store_snapshot demo_snapshot) empty_mem"
  have "fst ?p = Return True" by code_simp
  from this sql_calls_keep_schema [OF mem_spec _ _ returned [OF this]] show ?thesis by (simp add: known_call_def)
qed

lemma ObjID_del_db_call:
  assumes "sql_spec q db" and "ty = ''ObjID'' \<or> ty \<in> snd ` set class_tables"
  shows "db_call (ObjID_del q (ObjID_of_record [SInt n, SText ty, SText i]))"
proof -
  from assms(2) consider "ty = ''ObjID''" | "ty = ''Object''" | "ty = ''Snapshot''" | "ty = ''Diff''" by (auto simp: class_tables_def)
  then show ?thesis using db_call_ops(2) [OF assms(1)]
    by cases (simp_all add: ObjID_del_def ObjID_typeIsCorrect_def ObjID_upcastCopy_def del_defs rel_del_def deleteFromTable_def
      db_call_bind db_call_return)
qed

lemma remove_outcome:
  assumes "sql_spec q db" and "ids_wf (db_tables (db w))" and "sq_db_remove q i w = (r, w')"
  shows "r = Return True \<or> r = Return False"
proof -
  let ?one = "sql_one q ObjID_getFieldTypes (Eq ObjID_AnID (SText i))"
  obtain r1 w1 where b: "sql_begin q w = (r1, w1)" by fastforce
  obtain r2 w2 where one: "?one w1 = (r2, w2)" by fastforce
  from sql_begin_effect [OF assms(1) b] consider "r1 = Throw Sql_except" | "r1 = Return ()" "db_tables (db w1) = db_tables (db w)" by auto
  then show ?thesis
  proof cases
    case 1
    with b assms(3) show ?thesis by (simp add: sq_db_remove_def succeeds_def attempt_def io_simps)
  next
    case 2
    note r1 = 2
    have "r2 = Throw Sql_except \<or> (\<exists>a. r2 = Return a)" using db_call_one [OF assms(1)] one unfolding db_call_def by blast
    then show ?thesis
    proof (elim disjE exE)
      fix rec assume rec: "r2 = Return rec"
      with sql_one_effect(2) [OF assms(1) one] r1(2)
      have "rec \<in> (\<lambda>env. map (column env) ObjID_getFieldTypes) ` joined (db_tables (db w)) ObjID_getFieldTypes (Eq ObjID_AnID (SText i))" by simp
      then obtain n ty where row: "obj_row n ty i \<in> db_tables (db w) ''ObjID_''" and r: "rec = [SInt n, SText ty, SText i]"
        by (rule obj_record [OF assms(2)])
      from row assms(2) have "ty = ''ObjID'' \<or> ty \<in> snd ` set class_tables" unfolding ids_wf_def by (metis obj_row_inject)
      from ObjID_del_db_call [OF assms(1) this] have "db_call (io_bind (ObjID_del q (ObjID_of_record rec)) (\<lambda>_. sql_commit q))"
        unfolding r by (rule db_call_bind) (rule db_call_ops(8) [OF assms(1)])
      moreover obtain r3 w3 where m: "io_bind (ObjID_del q (ObjID_of_record rec)) (\<lambda>_. sql_commit q) w2 = (r3, w3)" by fastforce
      ultimately have "r3 = Throw Sql_except \<or> (\<exists>a. r3 = Return a)" unfolding db_call_def by blast
      with b one rec r1(1) m assms(3) show ?thesis
        by (auto simp: sq_db_remove_def succeeds_def attempt_def io_simps [where w = w] io_bind_apply [where w = w1] io_bind_apply [where w = w])
    qed (use b one r1(1) assms(3) in \<open>simp add: sq_db_remove_def succeeds_def attempt_def io_simps\<close>)
  qed
qed

text \<open>
  C27: \<open>Sqlstore::db_remove\<close> answers true or false. When it answers true, exactly one record with the id was
  removed from \<open>ObjID_\<close>, with its record in the table of its class and the relations of its class that refer
  to it, and nothing else; other records that share the id remain.
\<close>

theorem sql_remove_spec:
  assumes "sql_spec q db" and "obj_wf (db_tables (db w))" and "sq_db_remove q i w = (r, w')"
  shows "r = Return False \<or> r = Return True \<and> (\<exists>n ty. obj_row n ty i \<in> db_tables (db w) ''ObjID_''
    \<and> db w' = \<lparr>db_tables = del_obj n ty (db_tables (db w)), db_open_tx = False\<rparr> \<and> obj_wf (db_tables (db w'))
    \<and> db_tables (db w') ''ObjID_'' = db_tables (db w) ''ObjID_'' - {obj_row n ty i})"
proof -
  note ids = obj_wfD(1) [OF assms(2)]
  have "\<exists>n ty. obj_row n ty i \<in> db_tables (db w) ''ObjID_'' \<and> db w' = \<lparr>db_tables = del_obj n ty (db_tables (db w)), db_open_tx = False\<rparr>
    \<and> obj_wf (db_tables (db w')) \<and> db_tables (db w') ''ObjID_'' = db_tables (db w) ''ObjID_'' - {obj_row n ty i}" if "r = Return True"
    using assms(1,2) assms(3) [unfolded that]
  proof (rule remove_effect)
    fix n ty assume row: "obj_row n ty i \<in> db_tables (db w) ''ObjID_''" and w': "db w' = \<lparr>db_tables = del_obj n ty (db_tables (db w)), db_open_tx = False\<rparr>"
    have "x ''id_'' = Some (SInt n) \<longleftrightarrow> x = obj_row n ty i" if "x \<in> db_tables (db w) ''ObjID_''" for x
      using ids row that unfolding ids_wf_def inj_on_def by (metis obj_row_columns(1))
    then have "db_tables (db w') ''ObjID_'' = db_tables (db w) ''ObjID_'' - {obj_row n ty i}" by (auto simp: w' del_obj_def)
    moreover have "obj_wf (db_tables (db w'))" using obj_wf_del [OF assms(2)] row by (auto simp: w' typed_def)
    ultimately show ?thesis using row w' by blast
  qed
  with remove_outcome [OF assms(1) ids assms(3)] show ?thesis by blast
qed

theorem sql_remove_spec_witness:
  "\<exists>w. obj_wf (db_tables (mem_db w)) \<and> fst (sq_db_remove mem_ops ''s'' w) = Return True
    \<and> obj_wf (db_tables (mem_db (snd (sq_db_remove mem_ops ''s'' w))))"
proof -
  let ?p = "sq_run mem_ops 0 (Store_snapshot demo_snapshot) empty_mem"
  let ?r = "sq_db_remove mem_ops ''s'' (snd ?p)"
  have "fst ?p = Return True" by code_simp
  from store_snapshot_call_stored [OF mem_spec _ _ returned [OF this [simplified]]] have wf: "obj_wf (db_tables (mem_db (snd ?p)))"
    by (simp add: stored_def)
  moreover have r: "fst ?r = Return True" by code_simp
  moreover from sql_remove_spec [OF mem_spec wf returned [OF r]] have "obj_wf (db_tables (mem_db (snd ?r)))" by (auto simp del: mem_db_sel)
  ultimately show ?thesis by blast
qed

section \<open>Loading a snapshot\<close>

lemma snapshot_joined:
  "joined T Snapshot_getFieldTypes (Eq ObjID_AnID (SText i)) = {(\<lambda>_. Map.empty)(''ObjID_'' := r, ''Snapshot_'' := s) | r s.
     r \<in> T ''ObjID_'' \<and> s \<in> T ''Snapshot_'' \<and> s ''id_'' = r ''id_'' \<and> r ''anID_'' = Some (SText i)}" (is "?J = ?S")
proof
  show "?S \<subseteq> ?J" by (auto simp: joined_def class_columns column_defs)
  show "?J \<subseteq> ?S"
  proof
    fix env assume env: "env \<in> ?J"
    then have "env = (\<lambda>_. Map.empty)(''ObjID_'' := env ''ObjID_'', ''Snapshot_'' := env ''Snapshot_'')"
      by (auto simp: joined_def class_columns column_defs fun_eq_iff)
    moreover have "env ''ObjID_'' \<in> T ''ObjID_''" "env ''Snapshot_'' \<in> T ''Snapshot_''" "env ''Snapshot_'' ''id_'' = env ''ObjID_'' ''id_''"
      "env ''ObjID_'' ''anID_'' = Some (SText i)" using env by (auto simp: joined_def class_columns column_defs)
    ultimately show "env \<in> ?S" by blast
  qed
qed

text \<open>The records \<open>select<Snapshot>\<close> finds under an id that only one snapshot has.\<close>

lemma snapshot_records:
  assumes "obj_wf T" and "obj_row n ''Snapshot'' i \<in> T ''ObjID_''" and "snap_row n b c t \<in> T ''Snapshot_''"
    and "\<And>m. obj_row m ''Snapshot'' i \<in> T ''ObjID_'' \<Longrightarrow> m = n"
  shows "(\<lambda>env. map (column env) Snapshot_getFieldTypes) ` joined T Snapshot_getFieldTypes (Eq ObjID_AnID (SText i))
    = {[SInt n, SText ''Snapshot'', SText i, SText b, SText c, STime t]}"
proof -
  have cw: "class_wf T (''Snapshot_'', ''Snapshot'')" using assms(1) by (rule obj_wfD) (simp add: class_tables_def)
  have only: "r = obj_row n ''Snapshot'' i \<and> s = snap_row n b c t"
    if rs: "r \<in> T ''ObjID_''" "s \<in> T ''Snapshot_''" "s ''id_'' = r ''id_''" "r ''anID_'' = Some (SText i)" for r s
  proof -
    from rs(1) obj_wfD(1) [OF assms(1)] obtain m ty a where "r = obj_row m ty a" unfolding ids_wf_def by blast
    with rs(4) have r: "r = obj_row m ty i" by simp
    with rs(2,3) have "Some (SInt m) \<in> (\<lambda>r. r ''id_'') ` T ''Snapshot_''" by (metis image_eqI obj_row_columns(1))
    then have "typed T m ''Snapshot''" using cw by (auto simp: class_wf_def)
    with r rs(1) have "ty = ''Snapshot''" using typed_unique [OF obj_wfD(1) [OF assms(1)]] by blast
    with r rs(1) assms(4) have "m = n" by blast
    with rs(2,3) r cw assms(3) have "s = snap_row n b c t" by (auto simp: class_wf_def inj_on_def)
    with r \<open>ty = ''Snapshot''\<close> \<open>m = n\<close> show ?thesis by simp
  qed
  have "joined T Snapshot_getFieldTypes (Eq ObjID_AnID (SText i))
      = {(\<lambda>_. Map.empty)(''ObjID_'' := obj_row n ''Snapshot'' i, ''Snapshot_'' := snap_row n b c t)}" (is "?J = {?env}")
  proof (intro equalityI subsetI)
    fix env assume "env \<in> ?J"
    then obtain r s where "env = (\<lambda>_. Map.empty)(''ObjID_'' := r, ''Snapshot_'' := s)" "r \<in> T ''ObjID_''" "s \<in> T ''Snapshot_''"
      "s ''id_'' = r ''id_''" "r ''anID_'' = Some (SText i)" unfolding snapshot_joined by blast
    with only [of r s] show "env \<in> {?env}" by simp
  next
    fix env assume "env \<in> {?env}"
    with assms(2,3) show "env \<in> ?J" unfolding snapshot_joined
      by (intro CollectI exI [of _ "obj_row n ''Snapshot'' i"] exI [of _ "snap_row n b c t"]) simp
  qed
  then show ?thesis by (simp add: class_columns column_defs column_def)
qed

definition queries_answer :: "'w sql_ops \<Rightarrow> bool" where
  "queries_answer q \<longleftrightarrow> (\<forall>fts e w. \<exists>rs w'. sql_objects q fts e w = (Return rs, w'))"

lemma snapshot_without_diffs:
  assumes "sql_spec q db" and "queries_answer q" and "fld (oi_id s) = n"
    and "\<And>r. r \<in> db_tables (db w) ''Diff_Snapshot_'' \<Longrightarrow> r ''Snapshot2_'' \<noteq> Some (SInt n)"
  obtains w' where "Snapshot_diffs_get q s Expr Expr w = (Return [], w')" and "db w' = db w"
proof -
  let ?e = "And (In ObjID_Id ''Diff_Snapshot_'' (rel_first DiffSnapshotRelation) (And (Eq (rel_second DiffSnapshotRelation) (SInt n)) Expr)) Expr"
  from assms(2) obtain rs w' where q: "sql_objects q Diff_getFieldTypes ?e w = (Return rs, w')" unfolding queries_answer_def by blast
  note eff = sql_objects_effect [OF assms(1) q]
  have "joined (db_tables (db w)) Diff_getFieldTypes ?e = {}" using assms(4) by (auto simp: joined_def relation_defs)
  with eff(2) [of rs] have "rs = []" by simp
  moreover have "Snapshot_diffs_get q s Expr Expr = io_bind (sql_objects q Diff_getFieldTypes ?e) (\<lambda>rs. io_return (map Diff_of_record rs))"
    by (simp add: Snapshot_diffs_get_def DiffSnapshotRelation_get_Diff_def rel_get_def assms(3) relation_defs)
  ultimately show thesis using that q eff(1) by (simp add: io_bind_apply)
qed

lemma fresh_not_referred:
  assumes "ref_wf T (t, c, ty)" and "fresh_id T n" and "r \<in> T t"
  shows "r c \<noteq> Some (SInt n)"
proof -
  from assms(1,3) obtain m where m: "r c = Some (SInt m)" "m = 0 \<or> typed T m ty" by (auto simp: ref_wf_def)
  with assms(2) fresh_not_typed [OF assms(2)] have "m \<noteq> n" by (auto simp: fresh_id_def)
  with m(1) show ?thesis by simp
qed

text \<open>What a new snapshot leaves in the database.\<close>

lemma store_new_snapshot:
  assumes "sql_spec q db" and "obj_wf (db_tables (db w))" and "known_snapshot (db_tables (db w)) sn" and "db_id sn = 0"
    and "\<And>n. obj_row n ''Snapshot'' (oid sn) \<notin> db_tables (db w) ''ObjID_''" and "sq_db_store_snapshot q nadt sn w = (Return True, w')"
  obtains n where "0 < n" and "obj_wf (db_tables (db w'))" and "obj_row n ''Snapshot'' (oid sn) \<in> db_tables (db w') ''ObjID_''"
    and "snap_row n (ss_based sn) (content sn) (to_time_t nadt (time sn)) \<in> db_tables (db w') ''Snapshot_''"
    and "\<And>m. obj_row m ''Snapshot'' (oid sn) \<in> db_tables (db w') ''ObjID_'' \<Longrightarrow> m = n"
    and "\<And>r. r \<in> db_tables (db w') ''Diff_Snapshot_'' \<Longrightarrow> r ''Snapshot2_'' \<noteq> Some (SInt n)"
  using assms(1) assms(6) [unfolded sq_db_store_snapshot_def]
proof (rule transactionE)
  fix a w1 w2 assume w1: "db w1 = (db w)\<lparr>db_open_tx := True\<rparr>" and w': "db w' = (db w2)\<lparr>db_open_tx := False\<rparr>"
    and store: "store_snapshot q nadt sn w1 = (Return a, w2)"
  have pre: "obj_wf (db_tables (db w1))" "known_snapshot (db_tables (db w1)) sn" using assms(2,3) by (simp_all add: w1)
  let ?s = "snapshot_of nadt sn"
  have s: "unsaved ?s" "fld (oi_anID ?s) = oid sn" "fld (sn_based ?s) = ss_based sn" "fld (sn_content ?s) = content sn"
    "fld (sn_time ?s) = to_time_t nadt (time sn)"
    using assms(4) by (simp_all add: snapshot_of_def unsaved_def adopt_def Snapshot_new_def assigned_def)
  from assms(1) pre store show thesis
  proof (rule store_snapshot_steps)
    fix w3 assume s3: "stored diff_types (db_tables (db w1)) (db_tables (db w3))" and upd: "Snapshot_update q ?s w3 = (Return a, w2)"
    from assms(1) s(1) upd show thesis
    proof (rule Snapshot_update_new)
      fix n let ?T = "db_tables (db w3)"
      assume n: "fresh_id ?T n" and w2: "db w2 = (db w3)\<lparr>db_tables := (add_obj n ''Snapshot'' (fld (oi_anID ?s)) ?T)
        (''Snapshot_'' := insert (snap_row n (fld (sn_based ?s)) (fld (sn_content ?s)) (fld (sn_time ?s))) (?T ''Snapshot_''))\<rparr>"
      have T': "db_tables (db w') = (add_obj n ''Snapshot'' (oid sn) ?T)
        (''Snapshot_'' := insert (snap_row n (ss_based sn) (content sn) (to_time_t nadt (time sn))) (?T ''Snapshot_''))"
        by (simp add: w' w2 s)
      have old: "obj_row m ''Snapshot'' (oid sn) \<notin> ?T ''ObjID_''" for m using s3 assms(5) by (simp add: stored_def w1)
      have "ref_wf ?T (''Diff_Snapshot_'', ''Snapshot2_'', ''Snapshot'')"
        using storedD(1) [OF s3] by (rule obj_wfD) (simp add: references_def)
      then have "r ''Snapshot2_'' \<noteq> Some (SInt n)" if "r \<in> ?T ''Diff_Snapshot_''" for r
        using n that by (rule fresh_not_referred)
      moreover have "obj_wf (db_tables (db w'))"
        using store_snapshot_call_stored [OF assms(1,2,3,6)] by (simp add: stored_def)
      ultimately show thesis using n old by (intro that [of n]) (auto simp: T' fresh_id_def)
    qed
  qed
qed

text \<open>
  C25: A new snapshot that \<open>Sqlstore::db_store_snapshot\<close> stored, under an id no other snapshot has, is found by
  \<open>db_get_snapshot\<close> with its base, content and time (to the second), but never with its differences: these
  are linked to the id 0 the snapshot has before it is inserted, so that the list of the result stays as it was.
\<close>

theorem sql_snapshot_round_trip:
  assumes "sql_spec q db" and "queries_answer q" and "obj_wf (db_tables (db w))" and "known_snapshot (db_tables (db w)) sn" and "db_id sn = 0"
    and "\<forall>n. obj_row n ''Snapshot'' (oid sn) \<notin> db_tables (db w) ''ObjID_''"
    and "sq_db_store_snapshot q nadt sn w = (Return True, w1)" and "sq_db_get_snapshot q (oid sn) res w1 = (r, w2)"
  shows "\<exists>n > 0. r = Return (True, res\<lparr>oid := oid sn, db_id := n, db_type := ''Snapshot'', ss_based := ss_based sn,
    content := content sn, time := Some (to_time_t nadt (time sn))\<rparr>) \<and> db w2 = db w1"
proof -
  obtain n where n: "0 < n" and stored: "obj_wf (db_tables (db w1))" "obj_row n ''Snapshot'' (oid sn) \<in> db_tables (db w1) ''ObjID_''"
    "snap_row n (ss_based sn) (content sn) (to_time_t nadt (time sn)) \<in> db_tables (db w1) ''Snapshot_''"
    "\<And>m. obj_row m ''Snapshot'' (oid sn) \<in> db_tables (db w1) ''ObjID_'' \<Longrightarrow> m = n"
    and diffs: "\<And>r. r \<in> db_tables (db w1) ''Diff_Snapshot_'' \<Longrightarrow> r ''Snapshot2_'' \<noteq> Some (SInt n)"
    using store_new_snapshot [OF assms(1,3,4,5) spec [OF assms(6)] assms(7)] by metis
  let ?rec = "[SInt n, SText ''Snapshot'', SText (oid sn), SText (ss_based sn), SText (content sn), STime (to_time_t nadt (time sn))]"
  note recs = snapshot_records [OF stored]
  from assms(2) obtain rs w0 where obs: "sql_objects q Snapshot_getFieldTypes (Eq ObjID_AnID (SText (oid sn))) w1 = (Return rs, w0)"
    unfolding queries_answer_def by blast
  with sql_objects_effect [OF assms(1) obs] recs have rs: "distinct rs" "set rs = {?rec}" and w0: "db w0 = db w1" by auto
  then obtain rs' where "rs = ?rec # rs'" by (cases rs) auto
  with obs have one: "sql_one q Snapshot_getFieldTypes (Eq ObjID_AnID (SText (oid sn))) w1 = (Return ?rec, w0)"
    by (simp add: sql_one_def io_bind_apply)
  let ?s = "Snapshot_of_record ?rec"
  have s: "fld (oi_id ?s) = n" "fld (oi_type ?s) = ''Snapshot''" "fld (sn_based ?s) = ss_based sn" "fld (sn_content ?s) = content sn"
    "fld (sn_time ?s) = to_time_t nadt (time sn)"
    by (simp_all add: Snapshot_of_record_def rec_field_def unmodified_def assigned_def)
  from assms(1,2) s(1) diffs [folded w0] obtain w3 where "Snapshot_diffs_get q ?s Expr Expr w0 = (Return [], w3)" and "db w3 = db w0"
    by (rule snapshot_without_diffs)
  with assms(8) one s n w0 show ?thesis
    by (auto simp: sq_db_get_snapshot_def get_snapshot_def attempt_def io_simps Let_def intro!: exI [of _ n])
qed

lemma mem_queries_answer: "queries_answer mem_ops"
  by (simp add: queries_answer_def mem_ops_def mem_objects_def)

theorem sql_snapshot_round_trip_witness:
  "\<exists>w1 s. sq_db_store_snapshot mem_ops 0 demo_snapshot empty_mem = (Return True, w1)
    \<and> fst (sq_db_get_snapshot mem_ops ''s'' sq_snapshot_new w1) = Return (True, s)
    \<and> content s = ''text'' \<and> ss_diffs s = [] \<and> ss_diffs demo_snapshot \<noteq> []"
proof -
  let ?p = "sq_db_store_snapshot mem_ops 0 demo_snapshot empty_mem"
  have "fst ?p = Return True" by code_simp
  note p = returned [OF this]
  have "\<forall>n. obj_row n ''Snapshot'' (oid demo_snapshot) \<notin> db_tables (mem_db empty_mem) ''ObjID_''" by simp
  from sql_snapshot_round_trip [OF mem_spec mem_queries_answer _ _ _ this p prod.collapse [symmetric], of sq_snapshot_new]
  obtain n :: int where "fst (sq_db_get_snapshot mem_ops ''s'' sq_snapshot_new (snd ?p)) = Return (True, sq_snapshot_new\<lparr>oid := ''s'', db_id := n,
    db_type := ''Snapshot'', ss_based := ss_based demo_snapshot, content := content demo_snapshot, time := Some (to_time_t 0 (time demo_snapshot))\<rparr>)"
    by auto
  then show ?thesis using p by (intro exI [of _ "snd ?p"]) (auto simp: demo_snapshot_def sq_snapshot_new_def)
qed

end
