(* ===== verification/Spec2Isabelle.thy ===== *)
theory Spec2Isabelle
  imports Base64Spec LruCache ServerPool BlockstoreRuns Hostlist PatchText Updater SqlRuns
begin

text \<open>
  A verification library for the anarchNet daemon (\<open>src/src\<close>, with the parts of \<open>src/third-party\<close> it is built from).

  \<^bold>\<open>The program.\<close> The daemon (\<open>main.cc\<close>, \<open>daemon.cc\<close>) reads a configuration, loads plugins from shared
  libraries and serves JSON-RPC requests over TCP. A request line reaches \<open>connection::handle_read\<close>
  (\<open>rpc_server.cc\<close>), the dispatcher (\<open>jsonrpc_handler.cpp\<close>) and one of the methods of \<open>rpc_manager.cc\<close>. These
  use the object database (\<open>db.cc\<close>, \<open>db_manager.cc\<close>: objects with a history of patches) and, through the signals
  of the module manager (\<open>module_manager.{h,cc}\<close>), the storage plugins: the flat file store for keys and values
  (\<open>ffstore.cc\<close>) and the block store for files (\<open>blockstore.cc\<close>). The storage manager (\<open>storage.cc\<close>) offers
  files made of blocks to a FUSE mount. Utility and bootstrap plugins complete it, and a third storage plugin
  keeps objects, keys and values in an SQL database (\<open>sqlstore.cc\<close>; it is not part of the build).

  \<^bold>\<open>Effects.\<close> An operation of the program is a function on an unknown world \<open>'w\<close> that ends in a value, in a
  thrown exception, or is stuck (undefined behaviour, a failed assertion, termination of the process):
  the type \<open>('w, 'a) io\<close> of \<open>Prelude\<close>, which also has the elimination rules the component proofs use. A plugin
  with state of its own acts on the pair of its state and the world.

  \<^bold>\<open>Theories and sources.\<close>
  \<^item> \<open>LruCache\<close>: \<open>lru_cache.h\<close>. The container is a list in order of use. The class keeps its capacity
    and unique keys under every call and exception, and a sequence of calls returns what the cached
    function returns, by way of the locale \<open>memo_function\<close>.
  \<^item> \<open>Crypto\<close>: hexadecimal rendering. SHA-512 is a parameter \<open>H\<close>; the hypothesis \<open>sha512_size\<close> is that digests
    have 64 bytes. No property assumes that it has no collisions.
  \<^item> \<open>Filesystem\<close>: the operations of Boost.Filesystem and of file streams as a record of parameters,
    their documented behaviour on a map from paths to nodes, and executable file systems in memory. Queries, reads
    and listings answer what the map says. Under \<open>fs_faulty\<close> every change may fail at any time, and of the bytes written
    to an open file only a prefix may arrive, of which the writer is not told; \<open>short_ops\<close> satisfies it. \<open>fs_spec\<close>
    adds that bytes written to an open file arrive (\<open>fs_full_writes\<close>); \<open>posix_ops\<close> satisfies it.
  \<^item> \<open>KeyValue\<close>: \<open>std::map\<close> results, hash paths and keys; the locale \<open>kv_backend\<close>, the contract of a key-value
    plugin over an abstract view of the values of each key.
  \<^item> \<open>FFStore\<close>: \<open>ffstore.{h,cc}\<close>, every operation, the integrity invariant \<open>ff_intact\<close>, and the interpretation of
    \<open>kv_backend\<close>. What \<open>kv_put\<close> does is proved under \<open>fs_faulty\<close>, with short writes; the other properties, and all that rest
    on the interpretation, assume \<open>ff_inv\<close>, which is \<open>ff_intact\<close> on a file system without short writes.
  \<^item> \<open>Blockstore\<close> and \<open>BlockstoreRuns\<close>: \<open>blockstore.{h,cc}\<close>, every operation with both caches; round trips of
    files and of values, the bound at which an inline file becomes unreadable, stale cache entries.
    What a C string reads behind the end of a buffer is a parameter (\<open>ovr\<close>). They assume \<open>fs_spec\<close>.
  \<^item> \<open>Objects\<close> and \<open>Database\<close>: \<open>db.{h,cc}\<close>, \<open>db_manager.cc\<close>. Revisions replay to the content they recorded as far as the patches
    of the history apply to what they were made from (\<open>dmp_restores\<close>); the locale \<open>object_db\<close> proves create, update,
    rollback and delete against any \<open>kv_backend\<close>, and is interpreted on the flat file store. Boost archives (with a
    round-trip hypothesis), the clock and diff-match-patch are parameters. \<open>PatchText\<close>: the escaping of texts in
    patches, \<open>third-party/diff_match_patch-stl\<close>, which loses all bytes beyond ASCII.
  \<^item> \<open>Modules\<close>: the signals with their combiner \<open>res_check\<close>, the loops over plugins, the plugin interface.
  \<^item> \<open>Config\<close>: property trees and \<open>config_manager.{h,cc}\<close>; the parser of the INFO format is a parameter.
  \<^item> \<open>Plugins\<close>: the plugin kernel (\<open>third-party/pugg\<close>), \<open>plugin_manager.cc\<close>, \<open>ModuleManager::init\<close>, registration and
    start of both storage plugins; the composition from start to the first object.
  \<^item> \<open>Storage\<close>: \<open>storage.{h,cc}\<close>: files, their stream operators, loading from header blocks, the file cache.
    Uninitialised members are \<open>None\<close>; using them is stuck.
  \<^item> \<open>Hostlist\<close>: \<open>hostlist.cc\<close>, with the connection and the trying of a peer as parameters.
  \<^item> \<open>Base64\<close>: \<open>third-party/libb64\<close>, both automata on bytes and the stream wrappers with their output
    buffers, which suffice when the encoder reads two bytes and the decoder four characters at a time, or more;
    \<open>Base64Spec\<close>: the encoder equals the encoding of RFC 4648, stated with arithmetic on whole groups of bytes.
  \<^item> \<open>Json\<close>, \<open>JsonRpc\<close>, \<open>Rpc\<close>: values with the vector configuration, the dispatcher, and all methods of
    \<open>rpc_manager.cc\<close>. The JSON reader and writer are parameters.
  \<^item> \<open>RpcServer\<close>: connections and their handlers as a step relation, with the framing invariant over all
    interleavings of connections. \<open>ServerPool\<close>: \<open>RpcServer::run\<close> with the threads of its pool, and that it ends
    after a stop, by a measure and progress; the I/O service is a parameter with \<open>io_spec\<close> as hypothesis.
  \<^item> \<open>Daemon\<close>: \<open>daemon.cc\<close>, \<open>main.cc\<close>, \<open>net_manager.{h,cc}\<close>, \<open>singleton.h\<close>, severity levels, the file logger.
    \<open>Updater\<close>: the database updater, whose checker thread is a step relation with the thread that joins it and the
    end of the module manager.

  \<^item> \<open>Sql\<close>: the calls of litesql as a record of parameters, their documented behaviour as \<open>sql_spec\<close> on a view of
    the tables (every call may throw), and an executable database in memory (\<open>mem_ops\<close>) that satisfies it.
  \<^item> \<open>SqlDb\<close>: \<open>sqldb.{h,cc}\<close>: the relations, the persistent classes with insertion, update, deletion and relation
    handles, and the schema. \<open>SqlStore\<close>: \<open>sqlstore.{h,cc}\<close>, every function of the plugin.
  \<^item> \<open>SqlKv\<close>: keys and values; the locale \<open>kv_bag\<close>, the contract of a store that keeps a bag of values for each key,
    interpreted on the plugin. \<open>SqlObjects\<close>: what a stored, stored again or removed record does to the tables, the
    invariant \<open>obj_wf\<close> of the schema, and that a failed call wedges the plugin. \<open>SqlRuns\<close>: every call keeps the
    invariant, the effect of \<open>db_remove\<close>, and what a stored snapshot is loaded as.

  \<^bold>\<open>Bounds.\<close> Machine integers are kept at their width where the code depends on it: sizes modulo \<open>2 ^ 32\<close> in
  the stores, \<open>int\<close> and \<open>unsigned long\<close> in the storage manager, bytes as 8-bit words in the codec, ports as
  \<open>short\<close>. There is no fuel: the loops are structural or have termination proofs.
  Ids of the SQL database are integers without a bound.

  \<^bold>\<open>Witnesses.\<close> Each property with hypotheses has a witness on concrete inputs: the file system in memory, the
  database in memory, a digest that pads or cuts its input to 64 bytes, an archive and a patch format that
  are plain text.

  \<^bold>\<open>Not modelled.\<close> The client library (\<open>library/\<close>): its function bodies are commented out. The sinks of Boost.Log,
  the FUSE mount, sockets, the JSON reader and writer, SHA-512, the search for differences and the placing of
  patches in diff-match-patch, litesql and SQLite are
  parameters or left out. \<open>NetManager::run\<close> is never called. Of the database behind the SQL plugin the order
  of rows, what becomes of a statement that failed half-way, and durability are left open by \<open>sql_spec\<close>. The
  handlers of the RPC server run one at a time in the model; data races between pool threads are not modelled.
\<close>

end
